theory Spec2Isabelle
  imports Complex_Main "HOL-Library.AList" "HOL-Library.Monad_Syntax" "HOL-Library.Multiset"
begin

section \<open>The deployment snapshot\<close>

text \<open>
  Modelled from the spec: the types \<^verbatim>\<open>deployments.DeploymentInfo\<close>, \<^verbatim>\<open>Release\<close>,
  \<^verbatim>\<open>Stemcell\<close> and \<^verbatim>\<open>Instance\<close> are declared in package \<^verbatim>\<open>deployments\<close>, outside
  \<^verbatim>\<open>collectors/deployments_collector.go\<close>. The records below hold the fields the
  collector reads (\<^verbatim>\<open>Name\<close>, \<^verbatim>\<open>Version\<close>, \<^verbatim>\<open>OSName\<close>, \<^verbatim>\<open>VMType\<close>, \<^verbatim>\<open>Releases\<close>,
  \<^verbatim>\<open>Stemcells\<close>, \<^verbatim>\<open>Instances\<close>), as the data model of the specification lists them.
  A snapshot is a Go slice of \<^verbatim>\<open>DeploymentInfo\<close>: a list.
\<close>

record Release =
  Release_Name :: string
  Release_Version :: string

record Stemcell =
  Stemcell_Name :: string
  Stemcell_Version :: string
  Stemcell_OSName :: string

record Instance =
  Instance_VMType :: string

record DeploymentInfo =
  Deployment_Name :: string
  Releases :: "Release list"
  Stemcells :: "Stemcell list"
  Instances :: "Instance list"

section \<open>The metrics library\<close>

text \<open>
  The collector is written against the Prometheus client library. The part of it that
  the collector calls is modelled here by its documented behaviour:
  \<^item> a descriptor holds the fully qualified name, the help text, the constant label
    pairs, the names of the variable labels and the error of its construction.
    \<^verbatim>\<open>NewDesc\<close> checks the metric name, the label names and the constant label
    values; when a check fails it records the error and returns at once, before the
    constant label pairs are filled in;
  \<^item> a \<^verbatim>\<open>GaugeVec\<close> is a descriptor and a Go map from label values to gauge values.
    The map is an association list with distinct keys. Go leaves the order in which a
    map is traversed open; the model takes the order of the list, and the theorems speak
    of the samples of a family as a set or a bag, or of the samples with given label
    values, so that they hold for every order;
  \<^item> \<^verbatim>\<open>WithLabelValues\<close> panics when the number of label values differs from the
    number of variable labels, and when a label value is not valid UTF-8
    (\<^verbatim>\<open>validateLabelValues\<close>): a panic is the result \<open>None\<close>. Strings are byte
    strings, as in Go;
  \<^item> gauge values are \<^verbatim>\<open>float64\<close>; they are reals here. The collector only stores
    \<^verbatim>\<open>float64(1)\<close>, \<^verbatim>\<open>float64(count)\<close> for the length of a slice segment, and two
    clock readings, and \<^verbatim>\<open>float64\<close> is exact on integers below \<open>2 ^ 53\<close>.
\<close>

type_synonym Labels = "(string \<times> string) list"

datatype desc_error =
  NotValidMetricName | NotValidLabelName | LabelValueNotUTF8 | DuplicateLabelNames

record Desc =
  fqName :: string
  desc_help :: string
  constLabelPairs :: Labels
  variableLabels :: "string list"
  desc_err :: "desc_error option"

record GaugeOpts =
  Namespace :: string
  Subsystem :: string
  Name :: string
  Help :: string
  ConstLabels :: Labels

text \<open>A sample as it is sent on the channel: the descriptor of its family, the values of
  the variable labels, and the gauge value.\<close>

record Metric =
  metric_desc :: Desc
  labelValues :: "string list"
  metric_value :: real

record GaugeVec =
  vec_desc :: Desc
  metrics :: "(string list \<times> real) list"

record Gauge =
  gauge_desc :: Desc
  gauge_value :: real

definition BuildFQName :: "string \<Rightarrow> string \<Rightarrow> string \<Rightarrow> string" where
  "BuildFQName namespace subsystem name =
     (if name = [] then []
      else if namespace \<noteq> [] \<and> subsystem \<noteq> [] then namespace @ ''_'' @ subsystem @ ''_'' @ name
      else if namespace \<noteq> [] then namespace @ ''_'' @ name
      else if subsystem \<noteq> [] then subsystem @ ''_'' @ name
      else name)"

text \<open>\<^verbatim>\<open>utf8.ValidString\<close>: the string is a sequence of well-formed UTF-8 encodings, with
  no overlong form, no surrogate and no code point above \<open>U+10FFFF\<close>.\<close>

definition in_range :: "nat \<Rightarrow> nat \<Rightarrow> char \<Rightarrow> bool" where
  "in_range lo hi b \<longleftrightarrow> lo \<le> of_char b \<and> (of_char b :: nat) \<le> hi"

definition continuation :: "char \<Rightarrow> bool" where
  "continuation b = in_range 0x80 0xBF b"

fun ValidString :: "string \<Rightarrow> bool" where
  "ValidString [] = True"
| "ValidString (b0 # s) =
     (if in_range 0x00 0x7F b0 then ValidString s
      else if in_range 0xC2 0xDF b0 then
        (case s of b1 # s' \<Rightarrow> continuation b1 \<and> ValidString s' | _ \<Rightarrow> False)
      else if in_range 0xE0 0xEF b0 then
        (case s of
           b1 # b2 # s' \<Rightarrow>
             (if b0 = CHR 0xE0 then in_range 0xA0 0xBF b1
              else if b0 = CHR 0xED then in_range 0x80 0x9F b1
              else continuation b1) \<and>
             continuation b2 \<and> ValidString s'
         | _ \<Rightarrow> False)
      else if in_range 0xF0 0xF4 b0 then
        (case s of
           b1 # b2 # b3 # s' \<Rightarrow>
             (if b0 = CHR 0xF0 then in_range 0x90 0xBF b1
              else if b0 = CHR 0xF4 then in_range 0x80 0x8F b1
              else continuation b1) \<and>
             continuation b2 \<and> continuation b3 \<and> ValidString s'
         | _ \<Rightarrow> False)
      else False)"

text \<open>\<^verbatim>\<open>validateLabelValues(vals, expectedNumberOfValues)\<close>; the result is \<open>True\<close> when
  it returns no error.\<close>

definition validateLabelValues :: "string list \<Rightarrow> nat \<Rightarrow> bool" where
  "validateLabelValues vals expectedNumberOfValues \<longleftrightarrow>
     length vals = expectedNumberOfValues \<and> list_all ValidString vals"

text \<open>\<^verbatim>\<open>model.IsValidMetricName\<close> (letters, \<open>_\<close>, \<open>:\<close>, and digits after the first
  position; not empty) and \<^verbatim>\<open>checkLabelName\<close> (letters, \<open>_\<close>, and digits after the first
  position; not empty; not starting with \<open>__\<close>).\<close>

definition letter :: "char \<Rightarrow> bool" where
  "letter b \<longleftrightarrow> in_range 0x61 0x7A b \<or> in_range 0x41 0x5A b"

definition digit :: "char \<Rightarrow> bool" where
  "digit b = in_range 0x30 0x39 b"

definition metric_name_byte :: "bool \<Rightarrow> char \<Rightarrow> bool" where
  "metric_name_byte first b \<longleftrightarrow>
     letter b \<or> b = CHR ''_'' \<or> b = CHR '':'' \<or> (digit b \<and> \<not> first)"

definition IsValidMetricName :: "string \<Rightarrow> bool" where
  "IsValidMetricName n =
     (case n of
        [] \<Rightarrow> False
      | b # bs \<Rightarrow> metric_name_byte True b \<and> list_all (metric_name_byte False) bs)"

definition label_name_byte :: "bool \<Rightarrow> char \<Rightarrow> bool" where
  "label_name_byte first b \<longleftrightarrow> letter b \<or> b = CHR ''_'' \<or> (digit b \<and> \<not> first)"

definition checkLabelName :: "string \<Rightarrow> bool" where
  "checkLabelName l \<longleftrightarrow>
     (case l of
        [] \<Rightarrow> False
      | b # bs \<Rightarrow> label_name_byte True b \<and> list_all (label_name_byte False) bs) \<and>
     take 2 l \<noteq> ''__''"

text \<open>The constant label pairs of a descriptor are sorted by label name
  (\<^verbatim>\<open>sort.Strings\<close>: byte by byte).\<close>

fun bytes_less :: "string \<Rightarrow> string \<Rightarrow> bool" where
  "bytes_less [] [] = False"
| "bytes_less [] (y # ys) = True"
| "bytes_less (x # xs) [] = False"
| "bytes_less (x # xs) (y # ys) =
     ((of_char x :: nat) < of_char y \<or> (x = y \<and> bytes_less xs ys))"

fun insert_pair :: "string \<times> string \<Rightarrow> Labels \<Rightarrow> Labels" where
  "insert_pair p [] = [p]"
| "insert_pair p (q # qs) = (if bytes_less (fst q) (fst p) then q # insert_pair p qs else p # q # qs)"

definition sort_pairs :: "Labels \<Rightarrow> Labels" where
  "sort_pairs ps = foldr insert_pair ps []"

text \<open>\<^verbatim>\<open>NewDesc(fqName, help, variableLabels, constLabels)\<close>, with its early returns in
  the order of the library: the metric name, the constant label names, the metric name
  and the constant label values as UTF-8, the variable label names, duplicate label
  names. The constant labels are a Go map: an association list with distinct names.\<close>

definition NewDesc :: "string \<Rightarrow> string \<Rightarrow> string list \<Rightarrow> Labels \<Rightarrow> Desc" where
  "NewDesc fq_name help_text variable_labels const_labels =
     (let d = \<lparr>fqName = fq_name, desc_help = help_text, constLabelPairs = [],
                variableLabels = variable_labels, desc_err = None\<rparr>;
          label_values = fq_name # map snd (sort_pairs const_labels)
      in
        if \<not> IsValidMetricName fq_name then d\<lparr>desc_err := Some NotValidMetricName\<rparr>
        else if \<not> list_all checkLabelName (map fst const_labels)
          then d\<lparr>desc_err := Some NotValidLabelName\<rparr>
        else if \<not> validateLabelValues label_values (length label_values)
          then d\<lparr>desc_err := Some LabelValueNotUTF8\<rparr>
        else if \<not> list_all checkLabelName variable_labels
          then d\<lparr>desc_err := Some NotValidLabelName\<rparr>
        else if \<not> distinct (map fst const_labels @ variable_labels)
          then d\<lparr>desc_err := Some DuplicateLabelNames\<rparr>
        else d\<lparr>constLabelPairs := sort_pairs const_labels\<rparr>)"

definition NewGaugeVec :: "GaugeOpts \<Rightarrow> string list \<Rightarrow> GaugeVec" where
  "NewGaugeVec opts labelNames =
     \<lparr>vec_desc =
        NewDesc (BuildFQName (Namespace opts) (Subsystem opts) (Name opts)) (Help opts)
          labelNames (ConstLabels opts),
      metrics = []\<rparr>"

definition NewGauge :: "GaugeOpts \<Rightarrow> Gauge" where
  "NewGauge opts =
     \<lparr>gauge_desc =
        NewDesc (BuildFQName (Namespace opts) (Subsystem opts) (Name opts)) (Help opts)
          [] (ConstLabels opts),
      gauge_value = 0\<rparr>"

definition Reset :: "GaugeVec \<Rightarrow> GaugeVec" where
  "Reset v = v\<lparr>metrics := []\<rparr>"

text \<open>\<^verbatim>\<open>v.WithLabelValues(lvs...).Set(x)\<close>: the label values are validated, with a panic
  when \<^verbatim>\<open>validateLabelValues\<close> returns an error; then the child for \<open>lvs\<close> is created when
  it is missing, and its value becomes \<open>x\<close>.\<close>

definition WithLabelValues_Set :: "GaugeVec \<Rightarrow> string list \<Rightarrow> real \<Rightarrow> GaugeVec option" where
  "WithLabelValues_Set v lvs x =
     (if \<not> validateLabelValues lvs (length (variableLabels (vec_desc v))) then None
      else Some (v\<lparr>metrics := AList.update lvs x (metrics v)\<rparr>))"

definition samples_of :: "GaugeVec \<Rightarrow> Metric list" where
  "samples_of v =
     map (\<lambda>(lvs, x). \<lparr>metric_desc = vec_desc v, labelValues = lvs, metric_value = x\<rparr>) (metrics v)"

definition GaugeVec_Collect :: "GaugeVec \<Rightarrow> Metric list \<Rightarrow> Metric list" where
  "GaugeVec_Collect v ch = ch @ samples_of v"

definition GaugeVec_Describe :: "GaugeVec \<Rightarrow> Desc list \<Rightarrow> Desc list" where
  "GaugeVec_Describe v ch = ch @ [vec_desc v]"

definition Gauge_Set :: "Gauge \<Rightarrow> real \<Rightarrow> Gauge" where
  "Gauge_Set g x = g\<lparr>gauge_value := x\<rparr>"

definition Gauge_Collect :: "Gauge \<Rightarrow> Metric list \<Rightarrow> Metric list" where
  "Gauge_Collect g ch =
     ch @ [\<lparr>metric_desc = gauge_desc g, labelValues = [], metric_value = gauge_value g\<rparr>]"

definition Gauge_Describe :: "Gauge \<Rightarrow> Desc list \<Rightarrow> Desc list" where
  "Gauge_Describe g ch = ch @ [gauge_desc g]"

section \<open>The collector\<close>

text \<open>
  The struct declares its third field as \<^verbatim>\<open>deploymentVMTypeCountMetric\<close>, while the
  constructor and every method name it \<^verbatim>\<open>deploymentInstanceCountMetric\<close>; the record
  takes the name the functions use.
\<close>

record DeploymentsCollector =
  deploymentReleaseInfoMetric :: GaugeVec
  deploymentStemcellInfoMetric :: GaugeVec
  deploymentInstanceCountMetric :: GaugeVec
  lastDeploymentsScrapeTimestampMetric :: Gauge
  lastDeploymentsScrapeDurationSecondsMetric :: Gauge

datatype error = Error string

definition NewDeploymentsCollector :: "string \<Rightarrow> string \<Rightarrow> string \<Rightarrow> string \<Rightarrow> DeploymentsCollector" where
  "NewDeploymentsCollector namespace environment boshName boshUUID =
     \<lparr>deploymentReleaseInfoMetric =
        NewGaugeVec
          \<lparr>Namespace = namespace,
           Subsystem = ''deployment'',
           Name = ''release_info'',
           Help = ''Labeled BOSH Deployment Release Info with a constant '1' value.'',
           ConstLabels =
             [(''environment'', environment), (''bosh_name'', boshName), (''bosh_uuid'', boshUUID)]\<rparr>
          [''bosh_deployment'', ''bosh_release_name'', ''bosh_release_version''],
      deploymentStemcellInfoMetric =
        NewGaugeVec
          \<lparr>Namespace = namespace,
           Subsystem = ''deployment'',
           Name = ''stemcell_info'',
           Help = ''Labeled BOSH Deployment Stemcell Info with a constant '1' value.'',
           ConstLabels =
             [(''environment'', environment), (''bosh_name'', boshName), (''bosh_uuid'', boshUUID)]\<rparr>
          [''bosh_deployment'', ''bosh_stemcell_name'', ''bosh_stemcell_version'',
           ''bosh_stemcell_os_name''],
      deploymentInstanceCountMetric =
        NewGaugeVec
          \<lparr>Namespace = namespace,
           Subsystem = ''deployment'',
           Name = ''instance_count'',
           Help = ''Number of instances in this deployment'',
           ConstLabels =
             [(''environment'', environment), (''bosh_name'', boshName), (''bosh_uuid'', boshUUID)]\<rparr>
          [''bosh_deployment'', ''bosh_vm_type''],
      lastDeploymentsScrapeTimestampMetric =
        NewGauge
          \<lparr>Namespace = namespace,
           Subsystem = '''',
           Name = ''last_deployments_scrape_timestamp'',
           Help = ''Number of seconds since 1970 since last scrape of Deployments metrics from BOSH.'',
           ConstLabels =
             [(''environment'', environment), (''bosh_name'', boshName), (''bosh_uuid'', boshUUID)]\<rparr>,
      lastDeploymentsScrapeDurationSecondsMetric =
        NewGauge
          \<lparr>Namespace = namespace,
           Subsystem = '''',
           Name = ''last_deployments_scrape_duration_seconds'',
           Help = ''Duration of the last scrape of Deployments metrics from BOSH.'',
           ConstLabels =
             [(''environment'', environment), (''bosh_name'', boshName), (''bosh_uuid'', boshUUID)]\<rparr>\<rparr>"

text \<open>The loop \<^verbatim>\<open>for ... { vec.WithLabelValues(k...).Set(x) }\<close> over a sequence of label
  values and gauge values; it stops at the first panic.\<close>

fun set_each :: "GaugeVec \<Rightarrow> (string list \<times> real) list \<Rightarrow> GaugeVec option" where
  "set_each v [] = Some v"
| "set_each v ((lvs, x) # kvs) =
     (case WithLabelValues_Set v lvs x of None \<Rightarrow> None | Some v' \<Rightarrow> set_each v' kvs)"

text \<open>The three helpers. Each is a loop \<^verbatim>\<open>for _, x := range ...\<close> that sets one gauge
  per element, to \<^verbatim>\<open>float64(1)\<close> for releases and stemcells. They receive the channel
  and never send on it: they return it as they got it, next to the collector they wrote
  into.\<close>

definition reportDeploymentReleaseInfoMetrics ::
  "DeploymentsCollector \<Rightarrow> DeploymentInfo \<Rightarrow> Metric list \<Rightarrow> (DeploymentsCollector \<times> Metric list) option" where
  "reportDeploymentReleaseInfoMetrics c deployment ch =
     (case set_each (deploymentReleaseInfoMetric c)
             (map (\<lambda>release.
                     ([Deployment_Name deployment, Release_Name release, Release_Version release], 1))
                (Releases deployment)) of
        None \<Rightarrow> None
      | Some v \<Rightarrow> Some (c\<lparr>deploymentReleaseInfoMetric := v\<rparr>, ch))"

definition reportDeploymentStemcellInfoMetrics ::
  "DeploymentsCollector \<Rightarrow> DeploymentInfo \<Rightarrow> Metric list \<Rightarrow> (DeploymentsCollector \<times> Metric list) option" where
  "reportDeploymentStemcellInfoMetrics c deployment ch =
     (case set_each (deploymentStemcellInfoMetric c)
             (map (\<lambda>stemcell.
                     ([Deployment_Name deployment, Stemcell_Name stemcell, Stemcell_Version stemcell,
                       Stemcell_OSName stemcell], 1))
                (Stemcells deployment)) of
        None \<Rightarrow> None
      | Some v \<Rightarrow> Some (c\<lparr>deploymentStemcellInfoMetric := v\<rparr>, ch))"

text \<open>The tally \<^verbatim>\<open>vm_type_count\<close>: a Go map from VM type to \<^verbatim>\<open>int\<close>, where reading a
  missing key gives 0. The count never exceeds the length of the slice, which is an
  \<^verbatim>\<open>int\<close>, so the increment does not wrap. The second loop ranges over the tally, in
  the order of the list here; the keys of the tally are distinct, so the gauges it sets do
  not depend on the order (lemma \<open>range_order_irrelevant\<close>).\<close>

definition vm_type_count_get :: "(string \<times> int) list \<Rightarrow> string \<Rightarrow> int" where
  "vm_type_count_get m k = (case map_of m k of None \<Rightarrow> 0 | Some n \<Rightarrow> n)"

fun vm_type_count_loop :: "Instance list \<Rightarrow> (string \<times> int) list \<Rightarrow> (string \<times> int) list" where
  "vm_type_count_loop [] vm_type_count = vm_type_count"
| "vm_type_count_loop (instance # instances) vm_type_count =
     vm_type_count_loop instances
       (AList.update (Instance_VMType instance)
          (vm_type_count_get vm_type_count (Instance_VMType instance) + 1) vm_type_count)"

definition reportDeploymentInstanceCountMetrics ::
  "DeploymentsCollector \<Rightarrow> DeploymentInfo \<Rightarrow> Metric list \<Rightarrow> (DeploymentsCollector \<times> Metric list) option" where
  "reportDeploymentInstanceCountMetrics c deployment ch =
     (let vm_type_count = vm_type_count_loop (Instances deployment) [] in
      case set_each (deploymentInstanceCountMetric c)
             (map (\<lambda>(vm_type, count). ([Deployment_Name deployment, vm_type], real_of_int count))
                vm_type_count) of
        None \<Rightarrow> None
      | Some v \<Rightarrow> Some (c\<lparr>deploymentInstanceCountMetric := v\<rparr>, ch))"

text \<open>The loop over the deployments of \<^verbatim>\<open>Collect\<close>.\<close>

fun Collect_loop ::
  "DeploymentsCollector \<Rightarrow> DeploymentInfo list \<Rightarrow> Metric list \<Rightarrow> (DeploymentsCollector \<times> Metric list) option" where
  "Collect_loop c [] ch = Some (c, ch)"
| "Collect_loop c (deployment # deployments) ch =
     do {
       (c, ch) \<leftarrow> reportDeploymentReleaseInfoMetrics c deployment ch;
       (c, ch) \<leftarrow> reportDeploymentStemcellInfoMetrics c deployment ch;
       (c, ch) \<leftarrow> reportDeploymentInstanceCountMetrics c deployment ch;
       Collect_loop c deployments ch
     }"

text \<open>
  \<^verbatim>\<open>Collect\<close>, under the name \<open>Collect_metrics\<close> (the name \<open>Collect\<close> is the set
  comprehension of HOL). The clock is read by the caller of the model: \<open>now_unix\<close> is
  \<^verbatim>\<open>time.Now().Unix()\<close> at line 124 and \<open>since_begun\<close> is \<^verbatim>\<open>time.Since(begun).Seconds()\<close>
  at line 127. The result is \<open>None\<close> when a library call panics, and otherwise the
  collector after the call, the channel after the call and the returned \<^verbatim>\<open>error\<close>
  (\<open>None\<close> for \<^verbatim>\<open>nil\<close>).
\<close>

definition Collect_metrics ::
  "DeploymentsCollector \<Rightarrow> DeploymentInfo list \<Rightarrow> Metric list \<Rightarrow> int \<Rightarrow> real \<Rightarrow>
     (DeploymentsCollector \<times> Metric list \<times> error option) option" where
  "Collect_metrics c deployments ch now_unix since_begun =
     do {
       let c = c\<lparr>deploymentReleaseInfoMetric := Reset (deploymentReleaseInfoMetric c)\<rparr>;
       let c = c\<lparr>deploymentStemcellInfoMetric := Reset (deploymentStemcellInfoMetric c)\<rparr>;
       (c, ch) \<leftarrow> Collect_loop c deployments ch;
       let ch = GaugeVec_Collect (deploymentReleaseInfoMetric c) ch;
       let ch = GaugeVec_Collect (deploymentStemcellInfoMetric c) ch;
       let ch = GaugeVec_Collect (deploymentInstanceCountMetric c) ch;
       let c = c\<lparr>lastDeploymentsScrapeTimestampMetric :=
                   Gauge_Set (lastDeploymentsScrapeTimestampMetric c) (real_of_int now_unix)\<rparr>;
       let ch = Gauge_Collect (lastDeploymentsScrapeTimestampMetric c) ch;
       let c = c\<lparr>lastDeploymentsScrapeDurationSecondsMetric :=
                   Gauge_Set (lastDeploymentsScrapeDurationSecondsMetric c) since_begun\<rparr>;
       let ch = Gauge_Collect (lastDeploymentsScrapeDurationSecondsMetric c) ch;
       Some (c, ch, None)
     }"

definition Describe :: "DeploymentsCollector \<Rightarrow> Desc list \<Rightarrow> DeploymentsCollector \<times> Desc list" where
  "Describe c ch =
     (let ch = GaugeVec_Describe (deploymentReleaseInfoMetric c) ch;
          ch = GaugeVec_Describe (deploymentStemcellInfoMetric c) ch;
          ch = GaugeVec_Describe (deploymentInstanceCountMetric c) ch;
          ch = Gauge_Describe (lastDeploymentsScrapeTimestampMetric c) ch;
          ch = Gauge_Describe (lastDeploymentsScrapeDurationSecondsMetric c) ch
      in (c, ch))"

section \<open>Reachable states and closed forms\<close>

text \<open>
  The states a collector can be in: the constructor's result, and what \<^verbatim>\<open>Collect\<close> and
  \<^verbatim>\<open>Describe\<close> leave behind, for any snapshot, channel and clock.
\<close>

inductive reachable :: "string \<Rightarrow> string \<Rightarrow> string \<Rightarrow> string \<Rightarrow> DeploymentsCollector \<Rightarrow> bool"
  for namespace environment boshName boshUUID where
  reachable_New:
    "reachable namespace environment boshName boshUUID
       (NewDeploymentsCollector namespace environment boshName boshUUID)"
| reachable_Collect:
    "reachable namespace environment boshName boshUUID c \<Longrightarrow>
     Collect_metrics c deployments ch now_unix since_begun = Some (c', ch', err) \<Longrightarrow>
     reachable namespace environment boshName boshUUID c'"
| reachable_Describe:
    "reachable namespace environment boshName boshUUID c \<Longrightarrow>
     Describe c dch = (c', dch') \<Longrightarrow>
     reachable namespace environment boshName boshUUID c'"

text \<open>A sequence of scrapes: the scheduler calls \<^verbatim>\<open>Collect\<close> once per scrape, each time
  with a snapshot, an empty channel and the clock readings of that call. The result holds
  the samples of every call, in the order of the calls.\<close>

fun Collect_calls ::
  "DeploymentsCollector \<Rightarrow> (DeploymentInfo list \<times> int \<times> real) list \<Rightarrow>
     (DeploymentsCollector \<times> Metric list list) option" where
  "Collect_calls c [] = Some (c, [])"
| "Collect_calls c ((deployments, now_unix, since_begun) # calls) =
     do {
       (c, out, err) \<leftarrow> Collect_metrics c deployments [] now_unix since_begun;
       (c, outs) \<leftarrow> Collect_calls c calls;
       Some (c, out # outs)
     }"

text \<open>The samples of one family among the samples received on a channel.\<close>

definition family :: "Desc \<Rightarrow> Metric list \<Rightarrow> Metric list" where
  "family d ms = filter (\<lambda>m. metric_desc m = d) ms"

text \<open>The sequence of writes a list of \<^verbatim>\<open>WithLabelValues(...).Set(...)\<close> calls makes on
  the map of a \<^verbatim>\<open>GaugeVec\<close>, and the writes of the three helpers for one deployment.\<close>

definition writes :: "(string list \<times> real) list \<Rightarrow> (string list \<times> real) list \<Rightarrow> (string list \<times> real) list" where
  "writes kvs al = fold (\<lambda>(k, x). AList.update k x) kvs al"

definition release_writes :: "DeploymentInfo \<Rightarrow> (string list \<times> real) list" where
  "release_writes d =
     map (\<lambda>release. ([Deployment_Name d, Release_Name release, Release_Version release], 1))
       (Releases d)"

definition stemcell_writes :: "DeploymentInfo \<Rightarrow> (string list \<times> real) list" where
  "stemcell_writes d =
     map (\<lambda>stemcell.
            ([Deployment_Name d, Stemcell_Name stemcell, Stemcell_Version stemcell,
              Stemcell_OSName stemcell], 1))
       (Stemcells d)"

definition instance_writes :: "DeploymentInfo \<Rightarrow> (string list \<times> real) list" where
  "instance_writes d =
     map (\<lambda>(vm_type, count). ([Deployment_Name d, vm_type], real_of_int count))
       (vm_type_count_loop (Instances d) [])"

text \<open>The label values \<^verbatim>\<open>Collect\<close> writes for a snapshot are valid UTF-8: the condition
  under which no \<^verbatim>\<open>WithLabelValues\<close> call panics. The name of a deployment is a label
  value only when the deployment has a release, a stemcell or an instance.\<close>

definition deployment_labels_valid :: "DeploymentInfo \<Rightarrow> bool" where
  "deployment_labels_valid d \<longleftrightarrow>
     (\<forall>r \<in> set (Releases d).
        ValidString (Deployment_Name d) \<and> ValidString (Release_Name r) \<and>
        ValidString (Release_Version r)) \<and>
     (\<forall>s \<in> set (Stemcells d).
        ValidString (Deployment_Name d) \<and> ValidString (Stemcell_Name s) \<and>
        ValidString (Stemcell_Version s) \<and> ValidString (Stemcell_OSName s)) \<and>
     (\<forall>i \<in> set (Instances d).
        ValidString (Deployment_Name d) \<and> ValidString (Instance_VMType i))"

definition labels_valid :: "DeploymentInfo list \<Rightarrow> bool" where
  "labels_valid deployments \<longleftrightarrow> (\<forall>d \<in> set deployments. deployment_labels_valid d)"

definition writes_valid :: "(string list \<times> real) list \<Rightarrow> bool" where
  "writes_valid kvs \<longleftrightarrow> (\<forall>kv \<in> set kvs. list_all ValidString (fst kv))"

text \<open>The configuration for which \<^verbatim>\<open>NewDesc\<close> builds the five descriptors without error:
  the namespace is empty or a valid metric name (the rest of each name is a constant),
  and the three constant label values are valid UTF-8.\<close>

definition config_valid :: "string \<Rightarrow> string \<Rightarrow> string \<Rightarrow> string \<Rightarrow> bool" where
  "config_valid namespace environment boshName boshUUID \<longleftrightarrow>
     (namespace = [] \<or> IsValidMetricName namespace) \<and>
     ValidString environment \<and> ValidString boshName \<and> ValidString boshUUID"

text \<open>The invariant of the reachable states: the five descriptors are the constructor's,
  the numbers of variable labels are those of the calls, and the keys of each map are
  distinct.\<close>

definition descs :: "DeploymentsCollector \<Rightarrow> Desc list" where
  "descs c =
     [vec_desc (deploymentReleaseInfoMetric c),
      vec_desc (deploymentStemcellInfoMetric c),
      vec_desc (deploymentInstanceCountMetric c),
      gauge_desc (lastDeploymentsScrapeTimestampMetric c),
      gauge_desc (lastDeploymentsScrapeDurationSecondsMetric c)]"

definition arities_ok :: "DeploymentsCollector \<Rightarrow> bool" where
  "arities_ok c \<longleftrightarrow>
     length (variableLabels (vec_desc (deploymentReleaseInfoMetric c))) = 3 \<and>
     length (variableLabels (vec_desc (deploymentStemcellInfoMetric c))) = 4 \<and>
     length (variableLabels (vec_desc (deploymentInstanceCountMetric c))) = 2"

definition valid_collector ::
  "string \<Rightarrow> string \<Rightarrow> string \<Rightarrow> string \<Rightarrow> DeploymentsCollector \<Rightarrow> bool" where
  "valid_collector namespace environment boshName boshUUID c \<longleftrightarrow>
     descs c = descs (NewDeploymentsCollector namespace environment boshName boshUUID) \<and>
     distinct (map fst (metrics (deploymentReleaseInfoMetric c))) \<and>
     distinct (map fst (metrics (deploymentStemcellInfoMetric c))) \<and>
     distinct (map fst (metrics (deploymentInstanceCountMetric c)))"

text \<open>The collector after the loop over the deployments and after \<^verbatim>\<open>Collect\<close>, and the
  samples \<^verbatim>\<open>Collect\<close> sends, in closed form.\<close>

definition loop_result :: "DeploymentsCollector \<Rightarrow> DeploymentInfo list \<Rightarrow> DeploymentsCollector" where
  "loop_result c ds =
     c\<lparr>deploymentReleaseInfoMetric :=
         (deploymentReleaseInfoMetric c)
           \<lparr>metrics := writes (concat (map release_writes ds)) (metrics (deploymentReleaseInfoMetric c))\<rparr>,
       deploymentStemcellInfoMetric :=
         (deploymentStemcellInfoMetric c)
           \<lparr>metrics := writes (concat (map stemcell_writes ds)) (metrics (deploymentStemcellInfoMetric c))\<rparr>,
       deploymentInstanceCountMetric :=
         (deploymentInstanceCountMetric c)
           \<lparr>metrics := writes (concat (map instance_writes ds)) (metrics (deploymentInstanceCountMetric c))\<rparr>\<rparr>"

definition after_Collect ::
  "DeploymentsCollector \<Rightarrow> DeploymentInfo list \<Rightarrow> int \<Rightarrow> real \<Rightarrow> DeploymentsCollector" where
  "after_Collect c ds now_unix since_begun =
     c\<lparr>deploymentReleaseInfoMetric :=
         (deploymentReleaseInfoMetric c)\<lparr>metrics := writes (concat (map release_writes ds)) []\<rparr>,
       deploymentStemcellInfoMetric :=
         (deploymentStemcellInfoMetric c)\<lparr>metrics := writes (concat (map stemcell_writes ds)) []\<rparr>,
       deploymentInstanceCountMetric :=
         (deploymentInstanceCountMetric c)
           \<lparr>metrics := writes (concat (map instance_writes ds)) (metrics (deploymentInstanceCountMetric c))\<rparr>,
       lastDeploymentsScrapeTimestampMetric :=
         (lastDeploymentsScrapeTimestampMetric c)\<lparr>gauge_value := real_of_int now_unix\<rparr>,
       lastDeploymentsScrapeDurationSecondsMetric :=
         (lastDeploymentsScrapeDurationSecondsMetric c)\<lparr>gauge_value := since_begun\<rparr>\<rparr>"

definition emitted :: "DeploymentsCollector \<Rightarrow> Metric list" where
  "emitted c =
     samples_of (deploymentReleaseInfoMetric c) @
     samples_of (deploymentStemcellInfoMetric c) @
     samples_of (deploymentInstanceCountMetric c) @
     [\<lparr>metric_desc = gauge_desc (lastDeploymentsScrapeTimestampMetric c), labelValues = [],
       metric_value = gauge_value (lastDeploymentsScrapeTimestampMetric c)\<rparr>,
      \<lparr>metric_desc = gauge_desc (lastDeploymentsScrapeDurationSecondsMetric c), labelValues = [],
       metric_value = gauge_value (lastDeploymentsScrapeDurationSecondsMetric c)\<rparr>]"

section \<open>Lemmas\<close>

subsection \<open>Writes on the map of a vector\<close>

lemma writes_Nil [simp]: "writes [] al = al"
  by (simp add: writes_def)

lemma writes_Cons [simp]: "writes ((k, x) # kvs) al = writes kvs (AList.update k x al)"
  by (simp add: writes_def)

lemma writes_append: "writes (xs @ ys) al = writes ys (writes xs al)"
  by (simp add: writes_def)

lemma set_each_writes:
  "\<forall>kv \<in> set kvs. length (fst kv) = length (variableLabels (vec_desc v)) \<Longrightarrow>
   set_each v kvs =
     (if writes_valid kvs then Some (v\<lparr>metrics := writes kvs (metrics v)\<rparr>) else None)"
proof (induction kvs arbitrary: v)
  case Nil
  show ?case by (simp add: writes_valid_def)
next
  case (Cons kv kvs)
  obtain k x where kv: "kv = (k, x)" by (cases kv)
  let ?v = "v\<lparr>metrics := AList.update k x (metrics v)\<rparr>"
  have len: "length k = length (variableLabels (vec_desc v))"
    using Cons.prems by (simp add: kv)
  have rest: "\<forall>kv \<in> set kvs. length (fst kv) = length (variableLabels (vec_desc ?v))"
    using Cons.prems by simp
  show ?case
  proof (cases "list_all ValidString k")
    case True
    then have "WithLabelValues_Set v k x = Some ?v"
      by (simp add: WithLabelValues_Set_def validateLabelValues_def len)
    then show ?thesis
      using Cons.IH [OF rest] True by (simp add: kv writes_valid_def)
  next
    case False
    then have "WithLabelValues_Set v k x = None"
      by (simp add: WithLabelValues_Set_def validateLabelValues_def)
    then show ?thesis
      using False by (simp add: kv writes_valid_def)
  qed
qed

lemma keys_writes: "fst ` set (writes kvs al) = fst ` set al \<union> fst ` set kvs"
proof (induction kvs arbitrary: al)
  case Nil
  show ?case by simp
next
  case (Cons kv kvs)
  obtain k x where kv: "kv = (k, x)" by (cases kv)
  have "fst ` set (writes (kv # kvs) al) = fst ` set (AList.update k x al) \<union> fst ` set kvs"
    using Cons.IH [of "AList.update k x al"] by (simp add: kv)
  also have "\<dots> = ({k} \<union> fst ` set al) \<union> fst ` set kvs"
    by (simp only: AList.dom_update)
  finally show ?case by (auto simp: kv)
qed

lemma distinct_writes: "distinct (map fst al) \<Longrightarrow> distinct (map fst (writes kvs al))"
  by (induction kvs arbitrary: al) (auto simp: AList.distinct_update)

lemma map_of_writes: "map_of (writes kvs al) = map_of al ++ map_of (rev kvs)"
  by (induction kvs arbitrary: al) (auto simp: AList.update_conv' map_add_def fun_eq_iff split: option.splits)

lemma map_of_writes_const:
  "\<forall>kv \<in> set kvs. snd kv = x \<Longrightarrow>
   map_of (writes kvs al) k = (if k \<in> fst ` set kvs then Some x else map_of al k)"
proof (induction kvs arbitrary: al)
  case Nil
  show ?case by simp
next
  case (Cons kv kvs)
  obtain k' x' where kv: "kv = (k', x')" by (cases kv)
  have x': "x' = x" using Cons.prems by (simp add: kv)
  have rest: "\<forall>kv \<in> set kvs. snd kv = x" using Cons.prems by simp
  show ?case
    using Cons.IH [OF rest, of "AList.update k' x' al"]
    by (auto simp: kv x' AList.update_conv')
qed

subsection \<open>The tally of the VM types\<close>

lemma vm_type_count_get_update:
  "vm_type_count_get (AList.update k v m) k' = (if k' = k then v else vm_type_count_get m k')"
  by (simp add: vm_type_count_get_def AList.update_conv')

lemma distinct_vm_type_count_loop:
  "distinct (map fst m) \<Longrightarrow> distinct (map fst (vm_type_count_loop instances m))"
  by (induction instances arbitrary: m) (simp_all add: AList.distinct_update)

lemma map_of_vm_type_count_loop:
  "map_of (vm_type_count_loop instances m) vm_type =
     (if vm_type \<in> Instance_VMType ` set instances
      then Some (vm_type_count_get m vm_type +
                 int (length (filter (\<lambda>i. Instance_VMType i = vm_type) instances)))
      else map_of m vm_type)"
proof (induction instances arbitrary: m)
  case Nil
  show ?case by simp
next
  case (Cons i instances)
  let ?m = "AList.update (Instance_VMType i) (vm_type_count_get m (Instance_VMType i) + 1) m"
  show ?case
  proof (cases "Instance_VMType i = vm_type")
    case True
    then show ?thesis
      using Cons.IH [of ?m]
      by (cases "vm_type \<in> Instance_VMType ` set instances")
        (auto simp: vm_type_count_get_update AList.update_conv' filter_empty_conv image_iff)
  next
    case False
    then show ?thesis
      using Cons.IH [of ?m]
      by (auto simp: vm_type_count_get_update AList.update_conv')
  qed
qed

lemma vm_type_count_tally:
  "map_of (vm_type_count_loop instances []) vm_type =
     (if vm_type \<in> Instance_VMType ` set instances
      then Some (int (length (filter (\<lambda>i. Instance_VMType i = vm_type) instances)))
      else None)"
  by (simp add: map_of_vm_type_count_loop vm_type_count_get_def)

lemma vm_type_count_positive:
  assumes "(vm_type, n) \<in> set (vm_type_count_loop instances [])"
  shows "0 < n"
proof -
  have "distinct (map fst (vm_type_count_loop instances []))"
    by (rule distinct_vm_type_count_loop) simp
  then have "map_of (vm_type_count_loop instances []) vm_type = Some n"
    using assms by simp
  then have in_set: "vm_type \<in> Instance_VMType ` set instances"
    and n: "n = int (length (filter (\<lambda>i. Instance_VMType i = vm_type) instances))"
    by (simp_all add: vm_type_count_tally split: if_splits)
  from in_set have "filter (\<lambda>i. Instance_VMType i = vm_type) instances \<noteq> []"
    by (auto simp: filter_empty_conv)
  with n show ?thesis by simp
qed

lemma map_of_map_key:
  "inj f \<Longrightarrow> map_of (map (\<lambda>(k, v). (f k, g v)) xs) (f k) = map_option g (map_of xs k)"
  by (induction xs) (auto dest: injD)

lemma map_of_instance_writes:
  "map_of (instance_writes d) [Deployment_Name d, vm_type] =
     (if vm_type \<in> Instance_VMType ` set (Instances d)
      then Some (real (length (filter (\<lambda>i. Instance_VMType i = vm_type) (Instances d))))
      else None)"
proof -
  have "inj (\<lambda>vm_type. [Deployment_Name d, vm_type])"
    by (simp add: inj_def)
  from map_of_map_key [OF this, of real_of_int "vm_type_count_loop (Instances d) []" vm_type]
  show ?thesis
    by (simp add: instance_writes_def vm_type_count_tally)
qed

lemma distinct_instance_writes: "distinct (map fst (instance_writes d))"
proof -
  have "distinct (map fst (vm_type_count_loop (Instances d) []))"
    by (rule distinct_vm_type_count_loop) simp
  moreover have "map fst (instance_writes d) =
      map (\<lambda>vm_type. [Deployment_Name d, vm_type]) (map fst (vm_type_count_loop (Instances d) []))"
    by (simp add: instance_writes_def case_prod_unfold)
  ultimately show ?thesis
    by (simp add: distinct_map inj_on_def del: map_map)
qed

lemma instance_writes_key:
  "(k, v) \<in> set (instance_writes d) \<Longrightarrow> \<exists>vm_type. k = [Deployment_Name d, vm_type]"
  by (auto simp: instance_writes_def)

lemma map_of_unique:
  assumes "\<And>v. (k, v) \<in> set xs \<longleftrightarrow> (k, v) \<in> set ys"
    and "\<And>v v'. (k, v) \<in> set ys \<Longrightarrow> (k, v') \<in> set ys \<Longrightarrow> v = v'"
  shows "map_of xs k = map_of ys k"
proof (cases "map_of xs k")
  case None
  then have "k \<notin> fst ` set xs" by (simp add: map_of_eq_None_iff)
  then have "k \<notin> fst ` set ys" using assms(1) by force
  then have "map_of ys k = None" by (simp add: map_of_eq_None_iff)
  with None show ?thesis by simp
next
  case (Some v)
  have "(k, v) \<in> set xs" by (rule map_of_SomeD [OF Some])
  then have in_ys: "(k, v) \<in> set ys" by (simp add: assms(1))
  then have "k \<in> fst ` set ys" by (rule image_eqI [rotated]) simp
  then have "map_of ys k \<noteq> None" by (simp add: map_of_eq_None_iff)
  then obtain v' where v': "map_of ys k = Some v'" by blast
  have "(k, v') \<in> set ys" by (rule map_of_SomeD [OF v'])
  with in_ys have "v = v'" by (rule assms(2))
  then show ?thesis using Some v' by simp
qed

lemma map_of_all_instance_writes:
  assumes "distinct (map Deployment_Name ds)" and "d \<in> set ds"
  shows "map_of (rev (concat (map instance_writes ds))) [Deployment_Name d, vm_type] =
         map_of (instance_writes d) [Deployment_Name d, vm_type]"
proof (rule map_of_unique)
  fix v
  have inj: "inj_on Deployment_Name (set ds)"
    using assms(1) by (simp add: distinct_map)
  show "([Deployment_Name d, vm_type], v) \<in> set (rev (concat (map instance_writes ds))) \<longleftrightarrow>
        ([Deployment_Name d, vm_type], v) \<in> set (instance_writes d)"
  proof
    assume "([Deployment_Name d, vm_type], v) \<in> set (rev (concat (map instance_writes ds)))"
    then obtain d' where d': "d' \<in> set ds"
      and in_d': "([Deployment_Name d, vm_type], v) \<in> set (instance_writes d')"
      by auto
    from instance_writes_key [OF in_d'] have "Deployment_Name d' = Deployment_Name d"
      by auto
    with inj d' assms(2) have "d' = d" by (auto dest: inj_onD)
    with in_d' show "([Deployment_Name d, vm_type], v) \<in> set (instance_writes d)" by simp
  next
    assume "([Deployment_Name d, vm_type], v) \<in> set (instance_writes d)"
    with assms(2) show "([Deployment_Name d, vm_type], v) \<in> set (rev (concat (map instance_writes ds)))"
      by auto
  qed
next
  fix v v'
  assume "([Deployment_Name d, vm_type], v) \<in> set (instance_writes d)"
    and "([Deployment_Name d, vm_type], v') \<in> set (instance_writes d)"
  then show "v = v'"
    using distinct_instance_writes [of d] by (rule eq_key_imp_eq_value [rotated])
qed

lemma keys_vm_type_count_loop:
  "fst ` set (vm_type_count_loop instances []) = Instance_VMType ` set instances"
proof -
  have "fst ` set (vm_type_count_loop instances []) = dom (map_of (vm_type_count_loop instances []))"
    by (simp add: dom_map_of_conv_image_fst)
  also have "\<dots> = Instance_VMType ` set instances"
    by (auto simp: dom_def vm_type_count_tally split: if_splits)
  finally show ?thesis .
qed

lemma keys_instance_writes:
  "fst ` set (concat (map instance_writes ds)) =
     {[Deployment_Name d, Instance_VMType i] | d i. d \<in> set ds \<and> i \<in> set (Instances d)}"
proof -
  have one: "fst ` set (instance_writes d) =
      (\<lambda>vm_type. [Deployment_Name d, vm_type]) ` Instance_VMType ` set (Instances d)" for d
  proof -
    have "fst ` set (instance_writes d) =
        (\<lambda>vm_type. [Deployment_Name d, vm_type]) ` fst ` set (vm_type_count_loop (Instances d) [])"
      by (force simp: instance_writes_def image_iff)
    then show ?thesis by (simp only: keys_vm_type_count_loop)
  qed
  have "fst ` set (concat (map instance_writes ds)) = (\<Union>d \<in> set ds. fst ` set (instance_writes d))"
    by auto
  also have "\<dots> = {[Deployment_Name d, Instance_VMType i] | d i. d \<in> set ds \<and> i \<in> set (Instances d)}"
    unfolding one by auto
  finally show ?thesis .
qed

subsection \<open>Valid label values\<close>

lemma ValidString_ascii: "list_all (in_range 0x00 0x7F) s \<Longrightarrow> ValidString s"
  by (induction s) simp_all

lemma writes_valid_release:
  "writes_valid (release_writes d) \<longleftrightarrow>
     (\<forall>r \<in> set (Releases d).
        ValidString (Deployment_Name d) \<and> ValidString (Release_Name r) \<and>
        ValidString (Release_Version r))"
  by (simp add: writes_valid_def release_writes_def)

lemma writes_valid_stemcell:
  "writes_valid (stemcell_writes d) \<longleftrightarrow>
     (\<forall>s \<in> set (Stemcells d).
        ValidString (Deployment_Name d) \<and> ValidString (Stemcell_Name s) \<and>
        ValidString (Stemcell_Version s) \<and> ValidString (Stemcell_OSName s))"
  by (simp add: writes_valid_def stemcell_writes_def)

lemma writes_valid_instance:
  "writes_valid (instance_writes d) \<longleftrightarrow>
     (\<forall>i \<in> set (Instances d).
        ValidString (Deployment_Name d) \<and> ValidString (Instance_VMType i))"
proof -
  have "writes_valid (instance_writes d) \<longleftrightarrow>
      (\<forall>vm_type \<in> fst ` set (vm_type_count_loop (Instances d) []).
         ValidString (Deployment_Name d) \<and> ValidString vm_type)"
    by (auto simp: writes_valid_def instance_writes_def)
  then show ?thesis
    by (simp only: keys_vm_type_count_loop ball_simps)
qed

lemma deployment_labels_valid_writes:
  "deployment_labels_valid d \<longleftrightarrow>
     writes_valid (release_writes d) \<and> writes_valid (stemcell_writes d) \<and>
     writes_valid (instance_writes d)"
  by (simp only: deployment_labels_valid_def writes_valid_release writes_valid_stemcell
      writes_valid_instance)

lemma labels_valid_Nil [simp]: "labels_valid []"
  by (simp add: labels_valid_def)

lemma labels_valid_Cons:
  "labels_valid (d # ds) \<longleftrightarrow> deployment_labels_valid d \<and> labels_valid ds"
  by (simp add: labels_valid_def)

subsection \<open>The helpers, the loop and the whole call in closed form\<close>

lemma report_release:
  assumes "arities_ok c"
  shows "reportDeploymentReleaseInfoMetrics c d ch =
    (if writes_valid (release_writes d)
     then Some (c\<lparr>deploymentReleaseInfoMetric :=
              (deploymentReleaseInfoMetric c)
                \<lparr>metrics := writes (release_writes d) (metrics (deploymentReleaseInfoMetric c))\<rparr>\<rparr>, ch)
     else None)"
proof -
  have "\<forall>kv \<in> set (release_writes d).
          length (fst kv) = length (variableLabels (vec_desc (deploymentReleaseInfoMetric c)))"
    using assms by (auto simp: release_writes_def arities_ok_def)
  from set_each_writes [OF this] show ?thesis
    by (simp add: reportDeploymentReleaseInfoMetrics_def release_writes_def)
qed

lemma report_stemcell:
  assumes "arities_ok c"
  shows "reportDeploymentStemcellInfoMetrics c d ch =
    (if writes_valid (stemcell_writes d)
     then Some (c\<lparr>deploymentStemcellInfoMetric :=
              (deploymentStemcellInfoMetric c)
                \<lparr>metrics := writes (stemcell_writes d) (metrics (deploymentStemcellInfoMetric c))\<rparr>\<rparr>, ch)
     else None)"
proof -
  have "\<forall>kv \<in> set (stemcell_writes d).
          length (fst kv) = length (variableLabels (vec_desc (deploymentStemcellInfoMetric c)))"
    using assms by (auto simp: stemcell_writes_def arities_ok_def)
  from set_each_writes [OF this] show ?thesis
    by (simp add: reportDeploymentStemcellInfoMetrics_def stemcell_writes_def)
qed

lemma report_instance:
  assumes "arities_ok c"
  shows "reportDeploymentInstanceCountMetrics c d ch =
    (if writes_valid (instance_writes d)
     then Some (c\<lparr>deploymentInstanceCountMetric :=
              (deploymentInstanceCountMetric c)
                \<lparr>metrics := writes (instance_writes d) (metrics (deploymentInstanceCountMetric c))\<rparr>\<rparr>, ch)
     else None)"
proof -
  have "\<forall>kv \<in> set (instance_writes d).
          length (fst kv) = length (variableLabels (vec_desc (deploymentInstanceCountMetric c)))"
    using assms by (auto simp: instance_writes_def arities_ok_def)
  from set_each_writes [OF this] show ?thesis
    by (simp add: reportDeploymentInstanceCountMetrics_def instance_writes_def)
qed

lemma loop_result_Nil: "loop_result c [] = c"
  by (simp add: loop_result_def)

lemma Collect_loop_result:
  "arities_ok c \<Longrightarrow>
   Collect_loop c ds ch = (if labels_valid ds then Some (loop_result c ds, ch) else None)"
proof (induction ds arbitrary: c)
  case Nil
  show ?case by (simp add: loop_result_Nil)
next
  case (Cons d ds)
  let ?c1 = "c\<lparr>deploymentReleaseInfoMetric :=
              (deploymentReleaseInfoMetric c)
                \<lparr>metrics := writes (release_writes d) (metrics (deploymentReleaseInfoMetric c))\<rparr>\<rparr>"
  let ?c2 = "?c1\<lparr>deploymentStemcellInfoMetric :=
              (deploymentStemcellInfoMetric ?c1)
                \<lparr>metrics := writes (stemcell_writes d) (metrics (deploymentStemcellInfoMetric ?c1))\<rparr>\<rparr>"
  let ?c3 = "?c2\<lparr>deploymentInstanceCountMetric :=
              (deploymentInstanceCountMetric ?c2)
                \<lparr>metrics := writes (instance_writes d) (metrics (deploymentInstanceCountMetric ?c2))\<rparr>\<rparr>"
  have a1: "arities_ok ?c1" using Cons.prems by (simp add: arities_ok_def)
  have a2: "arities_ok ?c2" using Cons.prems by (simp add: arities_ok_def)
  have a3: "arities_ok ?c3" using Cons.prems by (simp add: arities_ok_def)
  show ?case
  proof (cases "deployment_labels_valid d")
    case True
    then have w: "writes_valid (release_writes d)" "writes_valid (stemcell_writes d)"
      "writes_valid (instance_writes d)"
      by (simp_all add: deployment_labels_valid_writes)
    have s1: "reportDeploymentReleaseInfoMetrics c d ch = Some (?c1, ch)"
      by (simp only: report_release [OF Cons.prems] w if_True)
    have s2: "reportDeploymentStemcellInfoMetrics ?c1 d ch = Some (?c2, ch)"
      by (simp only: report_stemcell [OF a1] w if_True)
    have s3: "reportDeploymentInstanceCountMetrics ?c2 d ch = Some (?c3, ch)"
      by (simp only: report_instance [OF a2] w if_True)
    have step: "Collect_loop c (d # ds) ch = Collect_loop ?c3 ds ch"
      by (simp only: Collect_loop.simps s1 s2 s3 Option.bind.simps prod.case)
    have res: "loop_result ?c3 ds = loop_result c (d # ds)"
      by (simp add: loop_result_def writes_append)
    show ?thesis
      using Cons.IH [OF a3] step res True by (simp add: labels_valid_Cons)
  next
    case False
    have s1: "reportDeploymentReleaseInfoMetrics c d ch =
        (if writes_valid (release_writes d) then Some (?c1, ch) else None)"
      by (rule report_release [OF Cons.prems])
    have s2: "reportDeploymentStemcellInfoMetrics ?c1 d ch =
        (if writes_valid (stemcell_writes d) then Some (?c2, ch) else None)"
      by (rule report_stemcell [OF a1])
    have s3: "reportDeploymentInstanceCountMetrics ?c2 d ch =
        (if writes_valid (instance_writes d) then Some (?c3, ch) else None)"
      by (rule report_instance [OF a2])
    have "Collect_loop c (d # ds) ch = None"
    proof (cases "writes_valid (release_writes d)")
      case r: False
      then show ?thesis
        by (simp only: Collect_loop.simps s1 if_False Option.bind.simps)
    next
      case r: True
      show ?thesis
      proof (cases "writes_valid (stemcell_writes d)")
        case s: False
        then show ?thesis
          by (simp only: Collect_loop.simps s1 s2 r if_True if_False Option.bind.simps prod.case)
      next
        case s: True
        have "\<not> writes_valid (instance_writes d)"
          using False r s by (simp add: deployment_labels_valid_writes)
        then show ?thesis
          by (simp only: Collect_loop.simps s1 s2 s3 r s if_True if_False Option.bind.simps
              prod.case)
      qed
    qed
    then show ?thesis
      using False by (simp add: labels_valid_Cons)
  qed
qed

lemma Collect_result:
  assumes "arities_ok c"
  shows "Collect_metrics c ds ch now_unix since_begun =
    (if labels_valid ds
     then Some (after_Collect c ds now_unix since_begun,
          ch @ emitted (after_Collect c ds now_unix since_begun), None)
     else None)"
proof -
  let ?c0 = "c\<lparr>deploymentReleaseInfoMetric := Reset (deploymentReleaseInfoMetric c),
              deploymentStemcellInfoMetric := Reset (deploymentStemcellInfoMetric c)\<rparr>"
  have a0: "arities_ok ?c0"
    using assms by (simp add: arities_ok_def Reset_def)
  have loop: "Collect_loop ?c0 ds ch =
      (if labels_valid ds then Some (loop_result ?c0 ds, ch) else None)"
    by (rule Collect_loop_result [OF a0])
  have loop': "Collect_loop
      (c\<lparr>deploymentReleaseInfoMetric := (deploymentReleaseInfoMetric c)\<lparr>metrics := []\<rparr>,
         deploymentStemcellInfoMetric := (deploymentStemcellInfoMetric c)\<lparr>metrics := []\<rparr>\<rparr>) ds ch =
      (if labels_valid ds then Some (loop_result ?c0 ds, ch) else None)"
    using loop by (simp add: Reset_def)
  show ?thesis
    by (simp add: Collect_metrics_def Let_def loop' loop_result_def after_Collect_def emitted_def
        GaugeVec_Collect_def Gauge_Collect_def Gauge_Set_def Reset_def samples_of_def)
qed

subsection \<open>The invariant of the reachable states\<close>

lemma NewDesc_fields [simp]:
  "fqName (NewDesc f h v c) = f"
  "desc_help (NewDesc f h v c) = h"
  "variableLabels (NewDesc f h v c) = v"
  by (simp_all add: NewDesc_def Let_def)

lemma help_descs_New:
  "map desc_help (descs (NewDeploymentsCollector namespace environment boshName boshUUID)) =
    [''Labeled BOSH Deployment Release Info with a constant '1' value.'',
     ''Labeled BOSH Deployment Stemcell Info with a constant '1' value.'',
     ''Number of instances in this deployment'',
     ''Number of seconds since 1970 since last scrape of Deployments metrics from BOSH.'',
     ''Duration of the last scrape of Deployments metrics from BOSH.'']"
  by (simp add: descs_def NewDeploymentsCollector_def NewGaugeVec_def NewGauge_def)

lemma variableLabels_descs_New:
  "map variableLabels (descs (NewDeploymentsCollector namespace environment boshName boshUUID)) =
    [[''bosh_deployment'', ''bosh_release_name'', ''bosh_release_version''],
     [''bosh_deployment'', ''bosh_stemcell_name'', ''bosh_stemcell_version'',
      ''bosh_stemcell_os_name''],
     [''bosh_deployment'', ''bosh_vm_type''], [], []]"
  by (simp add: descs_def NewDeploymentsCollector_def NewGaugeVec_def NewGauge_def)

lemma distinct_descs_New:
  "distinct (descs (NewDeploymentsCollector namespace environment boshName boshUUID))"
proof -
  have "distinct (map desc_help
          (descs (NewDeploymentsCollector namespace environment boshName boshUUID)))"
    by (simp only: help_descs_New) simp
  then show ?thesis
    by (simp only: distinct_map)
qed

lemma valid_New:
  "valid_collector namespace environment boshName boshUUID
     (NewDeploymentsCollector namespace environment boshName boshUUID)"
  by (simp add: valid_collector_def NewDeploymentsCollector_def NewGaugeVec_def)

lemma valid_arities:
  assumes "valid_collector ns env bn bu c"
  shows "arities_ok c"
proof -
  have "map variableLabels (descs c) =
      map variableLabels (descs (NewDeploymentsCollector ns env bn bu))"
    using assms by (simp add: valid_collector_def)
  then show ?thesis
    unfolding variableLabels_descs_New by (simp add: descs_def arities_ok_def)
qed

lemma descs_after_Collect: "descs (after_Collect c ds u e) = descs c"
  by (simp add: descs_def after_Collect_def)

lemma valid_after_Collect:
  "valid_collector ns env bn bu c \<Longrightarrow> valid_collector ns env bn bu (after_Collect c ds u e)"
  unfolding valid_collector_def descs_after_Collect
  by (simp add: after_Collect_def distinct_writes)

lemma Describe_result: "Describe c ch = (c, ch @ descs c)"
  by (simp add: Describe_def descs_def GaugeVec_Describe_def Gauge_Describe_def)

lemma reachable_valid:
  "reachable ns env bn bu c \<Longrightarrow> valid_collector ns env bn bu c"
proof (induction rule: reachable.induct)
  case reachable_New
  show ?case by (rule valid_New)
next
  case (reachable_Collect c deployments ch now_unix since_begun c' ch' err)
  have "c' = after_Collect c deployments now_unix since_begun"
    using reachable_Collect.hyps(2) Collect_result [OF valid_arities [OF reachable_Collect.IH]]
    by (simp split: if_splits)
  then show ?case
    using valid_after_Collect [OF reachable_Collect.IH] by simp
next
  case (reachable_Describe c dch c' dch')
  then show ?case by (simp add: Describe_result)
qed

lemma Collect_panics:
  assumes "reachable ns env bn bu c" and "\<not> labels_valid ds"
  shows "Collect_metrics c ds ch u e = None"
  using Collect_result [OF valid_arities [OF reachable_valid [OF assms(1)]]] assms(2) by simp

lemma Collect_reachable:
  assumes "reachable ns env bn bu c" and "labels_valid ds"
  shows "Collect_metrics c ds ch u e =
           Some (after_Collect c ds u e, ch @ emitted (after_Collect c ds u e), None)"
    and "reachable ns env bn bu (after_Collect c ds u e)"
    and "valid_collector ns env bn bu (after_Collect c ds u e)"
proof -
  show r: "Collect_metrics c ds ch u e =
           Some (after_Collect c ds u e, ch @ emitted (after_Collect c ds u e), None)"
    using Collect_result [OF valid_arities [OF reachable_valid [OF assms(1)]]] assms(2) by simp
  show "reachable ns env bn bu (after_Collect c ds u e)"
    by (rule reachable_Collect [OF assms(1) r])
  then show "valid_collector ns env bn bu (after_Collect c ds u e)"
    by (rule reachable_valid)
qed

subsection \<open>The samples of a family\<close>

lemma family_append: "family d (xs @ ys) = family d xs @ family d ys"
  by (simp add: family_def)

lemma family_samples_of:
  "family d (samples_of v) = (if vec_desc v = d then samples_of v else [])"
  by (cases "vec_desc v = d") (auto simp: family_def samples_of_def filter_id_conv filter_empty_conv)

lemma keys_samples_of: "labelValues ` set (samples_of v) = fst ` set (metrics v)"
  by (force simp: samples_of_def image_iff)

lemma valid_distinct_descs: "valid_collector ns env bn bu c \<Longrightarrow> distinct (descs c)"
  by (simp add: valid_collector_def distinct_descs_New)

lemma family_emitted:
  assumes "valid_collector ns env bn bu c"
  shows "family (vec_desc (deploymentReleaseInfoMetric c)) (emitted c) =
           samples_of (deploymentReleaseInfoMetric c)"
    and "family (vec_desc (deploymentStemcellInfoMetric c)) (emitted c) =
           samples_of (deploymentStemcellInfoMetric c)"
    and "family (vec_desc (deploymentInstanceCountMetric c)) (emitted c) =
           samples_of (deploymentInstanceCountMetric c)"
    and "family (gauge_desc (lastDeploymentsScrapeTimestampMetric c)) (emitted c) =
           [\<lparr>metric_desc = gauge_desc (lastDeploymentsScrapeTimestampMetric c), labelValues = [],
             metric_value = gauge_value (lastDeploymentsScrapeTimestampMetric c)\<rparr>]"
    and "family (gauge_desc (lastDeploymentsScrapeDurationSecondsMetric c)) (emitted c) =
           [\<lparr>metric_desc = gauge_desc (lastDeploymentsScrapeDurationSecondsMetric c), labelValues = [],
             metric_value = gauge_value (lastDeploymentsScrapeDurationSecondsMetric c)\<rparr>]"
proof -
  have d: "distinct (descs c)" by (rule valid_distinct_descs [OF assms])
  show "family (vec_desc (deploymentReleaseInfoMetric c)) (emitted c) =
           samples_of (deploymentReleaseInfoMetric c)"
    using d by (auto simp: emitted_def family_append family_samples_of descs_def) (simp_all add: family_def)
  show "family (vec_desc (deploymentStemcellInfoMetric c)) (emitted c) =
           samples_of (deploymentStemcellInfoMetric c)"
    using d by (auto simp: emitted_def family_append family_samples_of descs_def) (simp_all add: family_def)
  show "family (vec_desc (deploymentInstanceCountMetric c)) (emitted c) =
           samples_of (deploymentInstanceCountMetric c)"
    using d by (auto simp: emitted_def family_append family_samples_of descs_def) (simp_all add: family_def)
  show "family (gauge_desc (lastDeploymentsScrapeTimestampMetric c)) (emitted c) =
           [\<lparr>metric_desc = gauge_desc (lastDeploymentsScrapeTimestampMetric c), labelValues = [],
             metric_value = gauge_value (lastDeploymentsScrapeTimestampMetric c)\<rparr>]"
    using d by (auto simp: emitted_def family_append family_samples_of descs_def) (simp_all add: family_def)
  show "family (gauge_desc (lastDeploymentsScrapeDurationSecondsMetric c)) (emitted c) =
           [\<lparr>metric_desc = gauge_desc (lastDeploymentsScrapeDurationSecondsMetric c), labelValues = [],
             metric_value = gauge_value (lastDeploymentsScrapeDurationSecondsMetric c)\<rparr>]"
    using d by (auto simp: emitted_def family_append family_samples_of descs_def) (simp_all add: family_def)
qed

lemma after_Collect_release [simp]:
  "metrics (deploymentReleaseInfoMetric (after_Collect c ds u e)) =
     writes (concat (map release_writes ds)) []"
  "vec_desc (deploymentReleaseInfoMetric (after_Collect c ds u e)) =
     vec_desc (deploymentReleaseInfoMetric c)"
  by (simp_all add: after_Collect_def)

lemma after_Collect_stemcell [simp]:
  "metrics (deploymentStemcellInfoMetric (after_Collect c ds u e)) =
     writes (concat (map stemcell_writes ds)) []"
  "vec_desc (deploymentStemcellInfoMetric (after_Collect c ds u e)) =
     vec_desc (deploymentStemcellInfoMetric c)"
  by (simp_all add: after_Collect_def)

lemma after_Collect_instance [simp]:
  "metrics (deploymentInstanceCountMetric (after_Collect c ds u e)) =
     writes (concat (map instance_writes ds)) (metrics (deploymentInstanceCountMetric c))"
  "vec_desc (deploymentInstanceCountMetric (after_Collect c ds u e)) =
     vec_desc (deploymentInstanceCountMetric c)"
  by (simp_all add: after_Collect_def)

lemma after_Collect_gauges [simp]:
  "lastDeploymentsScrapeTimestampMetric (after_Collect c ds u e) =
     (lastDeploymentsScrapeTimestampMetric c)\<lparr>gauge_value := real_of_int u\<rparr>"
  "lastDeploymentsScrapeDurationSecondsMetric (after_Collect c ds u e) =
     (lastDeploymentsScrapeDurationSecondsMetric c)\<lparr>gauge_value := e\<rparr>"
  by (simp_all add: after_Collect_def)

lemma keys_release_writes:
  "fst ` set (concat (map release_writes ds)) =
     {[Deployment_Name d, Release_Name r, Release_Version r] | d r. d \<in> set ds \<and> r \<in> set (Releases d)}"
  by (force simp: release_writes_def image_iff)

lemma keys_stemcell_writes:
  "fst ` set (concat (map stemcell_writes ds)) =
     {[Deployment_Name d, Stemcell_Name s, Stemcell_Version s, Stemcell_OSName s] | d s.
        d \<in> set ds \<and> s \<in> set (Stemcells d)}"
  by (force simp: stemcell_writes_def image_iff)

subsection \<open>The sample of a label combination\<close>

lemma alist_filter_key:
  "distinct (map fst al) \<Longrightarrow> map_of al k = Some x \<Longrightarrow> filter (\<lambda>kv. fst kv = k) al = [(k, x)]"
proof (induction al)
  case Nil
  then show ?case by simp
next
  case (Cons kv al)
  show ?case
  proof (cases "fst kv = k")
    case True
    then have kv: "kv = (k, x)" using Cons.prems(2) by (cases kv) simp
    have "k \<notin> fst ` set al" using Cons.prems(1) True by auto
    then have "filter (\<lambda>kv. fst kv = k) al = []"
      by (auto simp: filter_empty_conv)
    then show ?thesis by (simp add: kv)
  next
    case False
    then show ?thesis using Cons by auto
  qed
qed

lemma samples_of_key:
  assumes "distinct (map fst (metrics v))" and "map_of (metrics v) k = Some x"
  shows "filter (\<lambda>m. labelValues m = k) (samples_of v) =
           [\<lparr>metric_desc = vec_desc v, labelValues = k, metric_value = x\<rparr>]"
proof -
  have "filter (\<lambda>m. labelValues m = k) (samples_of v) =
        map (\<lambda>(lvs, x). \<lparr>metric_desc = vec_desc v, labelValues = lvs, metric_value = x\<rparr>)
          (filter (\<lambda>kv. fst kv = k) (metrics v))"
    by (simp add: samples_of_def filter_map comp_def case_prod_unfold)
  then show ?thesis
    by (simp add: alist_filter_key [OF assms])
qed

lemma map_add_twice: "(m ++ r) ++ r = m ++ (r :: 'a \<rightharpoonup> 'b)"
  by (simp add: map_add_def fun_eq_iff split: option.splits)

lemma release_writes_value: "\<forall>kv \<in> set (concat (map release_writes ds)). snd kv = 1"
  by (auto simp: release_writes_def)

lemma stemcell_writes_value: "\<forall>kv \<in> set (concat (map stemcell_writes ds)). snd kv = 1"
  by (auto simp: stemcell_writes_def)

lemma family_key_release:
  assumes "valid_collector ns env bn bu c"
    and "map_of (metrics (deploymentReleaseInfoMetric c)) k = Some x"
  shows "filter (\<lambda>m. labelValues m = k) (family (vec_desc (deploymentReleaseInfoMetric c)) (emitted c)) =
           [\<lparr>metric_desc = vec_desc (deploymentReleaseInfoMetric c), labelValues = k, metric_value = x\<rparr>]"
proof -
  have "distinct (map fst (metrics (deploymentReleaseInfoMetric c)))"
    using assms(1) by (simp add: valid_collector_def)
  from samples_of_key [OF this assms(2)] show ?thesis
    by (simp only: family_emitted(1) [OF assms(1)])
qed

lemma family_key_stemcell:
  assumes "valid_collector ns env bn bu c"
    and "map_of (metrics (deploymentStemcellInfoMetric c)) k = Some x"
  shows "filter (\<lambda>m. labelValues m = k) (family (vec_desc (deploymentStemcellInfoMetric c)) (emitted c)) =
           [\<lparr>metric_desc = vec_desc (deploymentStemcellInfoMetric c), labelValues = k, metric_value = x\<rparr>]"
proof -
  have "distinct (map fst (metrics (deploymentStemcellInfoMetric c)))"
    using assms(1) by (simp add: valid_collector_def)
  from samples_of_key [OF this assms(2)] show ?thesis
    by (simp only: family_emitted(2) [OF assms(1)])
qed

lemma family_key_instance:
  assumes "valid_collector ns env bn bu c"
    and "map_of (metrics (deploymentInstanceCountMetric c)) k = Some x"
  shows "filter (\<lambda>m. labelValues m = k) (family (vec_desc (deploymentInstanceCountMetric c)) (emitted c)) =
           [\<lparr>metric_desc = vec_desc (deploymentInstanceCountMetric c), labelValues = k, metric_value = x\<rparr>]"
proof -
  have "distinct (map fst (metrics (deploymentInstanceCountMetric c)))"
    using assms(1) by (simp add: valid_collector_def)
  from samples_of_key [OF this assms(2)] show ?thesis
    by (simp only: family_emitted(3) [OF assms(1)])
qed

lemma release_value_after_Collect:
  assumes "d \<in> set ds" and "r \<in> set (Releases d)"
  shows "map_of (metrics (deploymentReleaseInfoMetric (after_Collect c ds u e)))
           [Deployment_Name d, Release_Name r, Release_Version r] = Some 1"
proof -
  have "[Deployment_Name d, Release_Name r, Release_Version r] \<in>
          fst ` set (concat (map release_writes ds))"
    unfolding keys_release_writes using assms by blast
  then show ?thesis
    by (simp only: after_Collect_release map_of_writes_const [OF release_writes_value] if_True)
qed

lemma stemcell_value_after_Collect:
  assumes "d \<in> set ds" and "s \<in> set (Stemcells d)"
  shows "map_of (metrics (deploymentStemcellInfoMetric (after_Collect c ds u e)))
           [Deployment_Name d, Stemcell_Name s, Stemcell_Version s, Stemcell_OSName s] = Some 1"
proof -
  have "[Deployment_Name d, Stemcell_Name s, Stemcell_Version s, Stemcell_OSName s] \<in>
          fst ` set (concat (map stemcell_writes ds))"
    unfolding keys_stemcell_writes using assms by blast
  then show ?thesis
    by (simp only: after_Collect_stemcell map_of_writes_const [OF stemcell_writes_value] if_True)
qed

lemma instance_value_after_Collect:
  assumes "distinct (map Deployment_Name ds)" and "d \<in> set ds"
  shows "map_of (metrics (deploymentInstanceCountMetric (after_Collect c ds u e)))
           [Deployment_Name d, vm_type] =
         (if vm_type \<in> Instance_VMType ` set (Instances d)
          then Some (real (length (filter (\<lambda>i. Instance_VMType i = vm_type) (Instances d))))
          else map_of (metrics (deploymentInstanceCountMetric c)) [Deployment_Name d, vm_type])"
  by (simp add: map_of_writes map_add_def map_of_all_instance_writes [OF assms]
      map_of_instance_writes)

lemma mset_samples_of_eq:
  assumes "vec_desc v = vec_desc w"
    and "distinct (map fst (metrics v))" and "distinct (map fst (metrics w))"
    and "map_of (metrics v) = map_of (metrics w)"
  shows "mset (samples_of v) = mset (samples_of w)"
proof -
  have "set (metrics v) = set (metrics w)"
    using assms(2-4) by (simp add: map_of_inject_set)
  moreover have "distinct (metrics v)" "distinct (metrics w)"
    using assms(2,3) by (simp_all add: distinct_map)
  ultimately have "mset (metrics v) = mset (metrics w)"
    by (simp add: set_eq_iff_mset_eq_distinct)
  then have "mset (map (\<lambda>(lvs, x). \<lparr>metric_desc = vec_desc v, labelValues = lvs, metric_value = x\<rparr>)
                (metrics v)) =
             mset (map (\<lambda>(lvs, x). \<lparr>metric_desc = vec_desc v, labelValues = lvs, metric_value = x\<rparr>)
                (metrics w))"
    by (simp only: mset_map)
  then show ?thesis
    by (simp add: samples_of_def assms(1))
qed

lemma instance_count_kept:
  assumes "reachable namespace environment boshName boshUUID c"
    and "map_of (metrics (deploymentInstanceCountMetric c)) k = Some x"
    and "labels_valid deployments"
  shows "\<exists>c' out x'.
    Collect_metrics c deployments [] now_unix since_begun = Some (c', out, None) \<and>
    map_of (metrics (deploymentInstanceCountMetric c')) k = Some x' \<and>
    filter (\<lambda>m. labelValues m = k) (family (vec_desc (deploymentInstanceCountMetric c')) out) =
      [\<lparr>metric_desc = vec_desc (deploymentInstanceCountMetric c'), labelValues = k,
        metric_value = x'\<rparr>] \<and>
    (k \<notin> {[Deployment_Name d, Instance_VMType i] | d i.
            d \<in> set deployments \<and> i \<in> set (Instances d)} \<longrightarrow> x' = x) \<and>
    reachable namespace environment boshName boshUUID c' \<and>
    vec_desc (deploymentInstanceCountMetric c') = vec_desc (deploymentInstanceCountMetric c)"
proof -
  let ?c' = "after_Collect c deployments now_unix since_begun"
  let ?W = "concat (map instance_writes deployments)"
  have 1: "Collect_metrics c deployments [] now_unix since_begun = Some (?c', emitted ?c', None)"
    using Collect_reachable(1) [OF assms(1) assms(3), of "[]" now_unix since_begun] by simp
  have v: "valid_collector namespace environment boshName boshUUID ?c'"
    by (rule Collect_reachable(3) [OF assms(1) assms(3)])
  have m: "map_of (metrics (deploymentInstanceCountMetric ?c')) k =
             (case map_of (rev ?W) k of None \<Rightarrow> Some x | Some y \<Rightarrow> Some y)"
    by (simp add: map_of_writes map_add_def assms(2) split: option.splits)
  then obtain x' where 2: "map_of (metrics (deploymentInstanceCountMetric ?c')) k = Some x'"
    by (cases "map_of (rev ?W) k") simp_all
  have 3: "filter (\<lambda>m. labelValues m = k)
             (family (vec_desc (deploymentInstanceCountMetric ?c')) (emitted ?c')) =
      [\<lparr>metric_desc = vec_desc (deploymentInstanceCountMetric ?c'), labelValues = k,
        metric_value = x'\<rparr>]"
    by (rule family_key_instance [OF v 2])
  have 4: "k \<notin> {[Deployment_Name d, Instance_VMType i] | d i.
            d \<in> set deployments \<and> i \<in> set (Instances d)} \<longrightarrow> x' = x"
  proof
    assume "k \<notin> {[Deployment_Name d, Instance_VMType i] | d i.
            d \<in> set deployments \<and> i \<in> set (Instances d)}"
    then have "k \<notin> fst ` set ?W"
      unfolding keys_instance_writes .
    then have "map_of (rev ?W) k = None"
      by (simp add: map_of_eq_None_iff)
    with m 2 show "x' = x" by simp
  qed
  have 5: "reachable namespace environment boshName boshUUID ?c'"
    by (rule Collect_reachable(2) [OF assms(1) assms(3)])
  have 6: "vec_desc (deploymentInstanceCountMetric ?c') = vec_desc (deploymentInstanceCountMetric c)"
    by simp
  show ?thesis
    by (intro exI conjI) (rule 1 2 3 4 5 6)+
qed

lemma samples_of_desc: "\<forall>m \<in> set (samples_of v). metric_desc m = vec_desc v"
  by (auto simp: samples_of_def)

lemma emitted_descs: "\<forall>m \<in> set (emitted c). metric_desc m \<in> set (descs c)"
  by (auto simp: emitted_def descs_def samples_of_def)

subsection \<open>The descriptors of the constructor\<close>

lemmas char_defs =
  in_range_def continuation_def letter_def digit_def metric_name_byte_def label_name_byte_def

lemma fqName_descs_New:
  "map fqName (descs (NewDeploymentsCollector namespace environment boshName boshUUID)) =
     (if namespace = []
      then [''deployment_release_info'', ''deployment_stemcell_info'', ''deployment_instance_count'',
            ''last_deployments_scrape_timestamp'', ''last_deployments_scrape_duration_seconds'']
      else map (\<lambda>name. namespace @ ''_'' @ name)
           [''deployment_release_info'', ''deployment_stemcell_info'', ''deployment_instance_count'',
            ''last_deployments_scrape_timestamp'', ''last_deployments_scrape_duration_seconds''])"
  by (simp add: descs_def NewDeploymentsCollector_def NewGaugeVec_def NewGauge_def BuildFQName_def)

lemma metric_name_byte_ascii: "metric_name_byte first b \<Longrightarrow> in_range 0x00 0x7F b"
  by (auto simp: char_defs)

lemma IsValidMetricName_ValidString: "IsValidMetricName n \<Longrightarrow> ValidString n"
proof (rule ValidString_ascii)
  assume "IsValidMetricName n"
  then have "\<forall>b \<in> set n. \<exists>first. metric_name_byte first b"
    by (cases n) (auto simp: IsValidMetricName_def list_all_iff)
  then show "list_all (in_range 0x00 0x7F) n"
    by (auto simp: list_all_iff dest: metric_name_byte_ascii)
qed

lemma IsValidMetricName_append:
  "n \<noteq> [] \<Longrightarrow>
   IsValidMetricName (n @ t) \<longleftrightarrow> IsValidMetricName n \<and> list_all (metric_name_byte False) t"
  by (cases n) (auto simp: IsValidMetricName_def)

lemma IsValidMetricName_names:
  assumes "namespace \<noteq> []"
  shows
  "IsValidMetricName (namespace @ ''_deployment_release_info'') \<longleftrightarrow> IsValidMetricName namespace"
  "IsValidMetricName (namespace @ ''_deployment_stemcell_info'') \<longleftrightarrow> IsValidMetricName namespace"
  "IsValidMetricName (namespace @ ''_deployment_instance_count'') \<longleftrightarrow> IsValidMetricName namespace"
  "IsValidMetricName (namespace @ ''_last_deployments_scrape_timestamp'') \<longleftrightarrow>
     IsValidMetricName namespace"
  "IsValidMetricName (namespace @ ''_last_deployments_scrape_duration_seconds'') \<longleftrightarrow>
     IsValidMetricName namespace"
  by (simp_all add: IsValidMetricName_append [OF assms] char_defs)

lemma IsValidMetricName_bare_names:
  "IsValidMetricName ''deployment_release_info''"
  "IsValidMetricName ''deployment_stemcell_info''"
  "IsValidMetricName ''deployment_instance_count''"
  "IsValidMetricName ''last_deployments_scrape_timestamp''"
  "IsValidMetricName ''last_deployments_scrape_duration_seconds''"
  by (simp_all add: IsValidMetricName_def char_defs)

lemma sort_pairs_constLabels:
  "sort_pairs [(''environment'', environment), (''bosh_name'', boshName), (''bosh_uuid'', boshUUID)] =
     [(''bosh_name'', boshName), (''bosh_uuid'', boshUUID), (''environment'', environment)]"
  by (simp add: sort_pairs_def)

lemma checkLabelName_names:
  "checkLabelName ''environment''" "checkLabelName ''bosh_name''" "checkLabelName ''bosh_uuid''"
  "checkLabelName ''bosh_deployment''" "checkLabelName ''bosh_release_name''"
  "checkLabelName ''bosh_release_version''" "checkLabelName ''bosh_stemcell_name''"
  "checkLabelName ''bosh_stemcell_version''" "checkLabelName ''bosh_stemcell_os_name''"
  "checkLabelName ''bosh_vm_type''"
  by (simp_all add: checkLabelName_def char_defs)

text \<open>For the constant labels and the variable labels of the collector, \<^verbatim>\<open>NewDesc\<close> fills
  in the constant label pairs exactly when the metric name is valid and the three values
  are valid UTF-8.\<close>

lemma NewDesc_collector:
  assumes "list_all checkLabelName v"
    and "distinct ([''environment'', ''bosh_name'', ''bosh_uuid''] @ v)"
  shows "NewDesc f h v
           [(''environment'', environment), (''bosh_name'', boshName), (''bosh_uuid'', boshUUID)] =
    (if IsValidMetricName f \<and> ValidString environment \<and> ValidString boshName \<and>
        ValidString boshUUID
     then \<lparr>fqName = f, desc_help = h,
           constLabelPairs =
             [(''bosh_name'', boshName), (''bosh_uuid'', boshUUID), (''environment'', environment)],
           variableLabels = v, desc_err = None\<rparr>
     else \<lparr>fqName = f, desc_help = h, constLabelPairs = [], variableLabels = v,
           desc_err =
             Some (if IsValidMetricName f then LabelValueNotUTF8 else NotValidMetricName)\<rparr>)"
  using assms IsValidMetricName_ValidString [of f]
  by (auto simp: NewDesc_def Let_def validateLabelValues_def sort_pairs_constLabels
      checkLabelName_names)

lemma descs_New_valid:
  assumes "config_valid namespace environment boshName boshUUID"
  shows "descs (NewDeploymentsCollector namespace environment boshName boshUUID) =
    [\<lparr>fqName = BuildFQName namespace ''deployment'' ''release_info'',
      desc_help = ''Labeled BOSH Deployment Release Info with a constant '1' value.'',
      constLabelPairs =
        [(''bosh_name'', boshName), (''bosh_uuid'', boshUUID), (''environment'', environment)],
      variableLabels = [''bosh_deployment'', ''bosh_release_name'', ''bosh_release_version''],
      desc_err = None\<rparr>,
     \<lparr>fqName = BuildFQName namespace ''deployment'' ''stemcell_info'',
      desc_help = ''Labeled BOSH Deployment Stemcell Info with a constant '1' value.'',
      constLabelPairs =
        [(''bosh_name'', boshName), (''bosh_uuid'', boshUUID), (''environment'', environment)],
      variableLabels = [''bosh_deployment'', ''bosh_stemcell_name'', ''bosh_stemcell_version'',
                        ''bosh_stemcell_os_name''],
      desc_err = None\<rparr>,
     \<lparr>fqName = BuildFQName namespace ''deployment'' ''instance_count'',
      desc_help = ''Number of instances in this deployment'',
      constLabelPairs =
        [(''bosh_name'', boshName), (''bosh_uuid'', boshUUID), (''environment'', environment)],
      variableLabels = [''bosh_deployment'', ''bosh_vm_type''],
      desc_err = None\<rparr>,
     \<lparr>fqName = BuildFQName namespace [] ''last_deployments_scrape_timestamp'',
      desc_help = ''Number of seconds since 1970 since last scrape of Deployments metrics from BOSH.'',
      constLabelPairs =
        [(''bosh_name'', boshName), (''bosh_uuid'', boshUUID), (''environment'', environment)],
      variableLabels = [],
      desc_err = None\<rparr>,
     \<lparr>fqName = BuildFQName namespace [] ''last_deployments_scrape_duration_seconds'',
      desc_help = ''Duration of the last scrape of Deployments metrics from BOSH.'',
      constLabelPairs =
        [(''bosh_name'', boshName), (''bosh_uuid'', boshUUID), (''environment'', environment)],
      variableLabels = [],
      desc_err = None\<rparr>]"
  using assms
  by (cases "namespace = []")
    (auto simp: descs_def NewDeploymentsCollector_def NewGaugeVec_def NewGauge_def
      NewDesc_collector checkLabelName_names config_valid_def BuildFQName_def
      IsValidMetricName_names IsValidMetricName_bare_names)

lemma descs_New_invalid:
  assumes "\<not> config_valid namespace environment boshName boshUUID"
  shows "\<forall>d \<in> set (descs (NewDeploymentsCollector namespace environment boshName boshUUID)).
           constLabelPairs d = [] \<and> desc_err d \<noteq> None"
  using assms
  by (cases "namespace = []")
    (auto simp: descs_def NewDeploymentsCollector_def NewGaugeVec_def NewGauge_def
      NewDesc_collector checkLabelName_names config_valid_def BuildFQName_def
      IsValidMetricName_names IsValidMetricName_bare_names)

lemma constLabelPairs_descs_New:
  assumes "config_valid namespace environment boshName boshUUID"
  shows "\<forall>d \<in> set (descs (NewDeploymentsCollector namespace environment boshName boshUUID)).
     constLabelPairs d =
       [(''bosh_name'', boshName), (''bosh_uuid'', boshUUID), (''environment'', environment)] \<and>
     desc_err d = None"
  by (simp add: descs_New_valid [OF assms])

lemma descs_New_namespace:
  assumes "config_valid namespace environment boshName boshUUID"
    and "config_valid namespace' environment boshName boshUUID"
  shows
  "map (\<lambda>d. d\<lparr>fqName := []\<rparr>) (descs (NewDeploymentsCollector namespace environment boshName boshUUID)) =
   map (\<lambda>d. d\<lparr>fqName := []\<rparr>) (descs (NewDeploymentsCollector namespace' environment boshName boshUUID))"
  by (simp add: descs_New_valid [OF assms(1)] descs_New_valid [OF assms(2)])

subsection \<open>The order of a traversal does not matter\<close>

lemma writes_order_irrelevant:
  assumes "distinct (map fst xs)" and "mset ys = mset xs"
  shows "map_of (writes ys al) = map_of (writes xs al)"
proof -
  have "mset (map fst ys) = mset (map fst xs)"
    using assms(2) by simp
  from mset_eq_imp_distinct_iff [OF this] have "distinct (map fst ys)"
    using assms(1) by blast
  then have dy: "distinct (map fst (rev ys))"
    by (simp only: rev_map [symmetric] distinct_rev)
  have dx: "distinct (map fst (rev xs))"
    using assms(1) by (simp only: rev_map [symmetric] distinct_rev)
  have "set (rev ys) = set (rev xs)"
    using mset_eq_setD [OF assms(2)] by simp
  then have "map_of (rev ys) = map_of (rev xs)"
    using dy dx by (simp add: map_of_inject_set)
  then show ?thesis
    by (simp add: map_of_writes)
qed

lemma range_order_irrelevant:
  assumes "mset vm_type_count = mset (vm_type_count_loop (Instances d) [])"
  shows "map_of (writes (map (\<lambda>(vm_type, count). ([Deployment_Name d, vm_type], real_of_int count))
                          vm_type_count) al) =
         map_of (writes (instance_writes d) al)"
proof (rule writes_order_irrelevant [OF distinct_instance_writes])
  show "mset (map (\<lambda>(vm_type, count). ([Deployment_Name d, vm_type], real_of_int count)) vm_type_count) =
        mset (instance_writes d)"
    unfolding instance_writes_def mset_map by (simp only: assms)
qed

text \<open>The definitions that evaluate a call on a concrete collector and snapshot.\<close>

lemmas eval_defs =
  Collect_metrics_def Let_def NewDeploymentsCollector_def NewGaugeVec_def NewGauge_def NewDesc_def
  BuildFQName_def Reset_def reportDeploymentReleaseInfoMetrics_def
  reportDeploymentStemcellInfoMetrics_def reportDeploymentInstanceCountMetrics_def
  WithLabelValues_Set_def vm_type_count_get_def GaugeVec_Collect_def Gauge_Collect_def
  Gauge_Set_def samples_of_def family_def validateLabelValues_def IsValidMetricName_def
  checkLabelName_def sort_pairs_def char_defs

lemmas labels_defs = labels_valid_def deployment_labels_valid_def in_range_def

section \<open>The claims\<close>

text \<open>
  C1. For every pair of snapshots \<open>S1\<close> and \<open>S2\<close>, after \<^verbatim>\<open>Collect(S1)\<close> and then
  \<^verbatim>\<open>Collect(S2)\<close>, the family \<^verbatim>\<open>release_info\<close> holds exactly the label combinations
  (deployment, release name, release version) of \<open>S2\<close>, and the family \<^verbatim>\<open>stemcell_info\<close>
  exactly the combinations (deployment, stemcell name, stemcell version, OS name) of \<open>S2\<close>:
  in the map of the \<^verbatim>\<open>GaugeVec\<close> and among the samples the second call sends. No
  combination that only \<open>S1\<close> has is left in either. The snapshots are those whose label
  values are valid UTF-8: on these, and only on these, a call of \<^verbatim>\<open>Collect\<close> completes
  (C6), and both calls are shown to complete.
\<close>

theorem no_stale_labels:
  assumes "reachable namespace environment boshName boshUUID c"
    and "labels_valid S1"
    and "labels_valid S2"
  shows "\<exists>c1 out1 c2 out2.
    Collect_metrics c S1 [] now1 since1 = Some (c1, out1, None) \<and>
    Collect_metrics c1 S2 [] now2 since2 = Some (c2, out2, None) \<and>
    fst ` set (metrics (deploymentReleaseInfoMetric c2)) =
      {[Deployment_Name d, Release_Name r, Release_Version r] | d r.
         d \<in> set S2 \<and> r \<in> set (Releases d)} \<and>
    labelValues ` set (family (vec_desc (deploymentReleaseInfoMetric c2)) out2) =
      {[Deployment_Name d, Release_Name r, Release_Version r] | d r.
         d \<in> set S2 \<and> r \<in> set (Releases d)} \<and>
    fst ` set (metrics (deploymentStemcellInfoMetric c2)) =
      {[Deployment_Name d, Stemcell_Name s, Stemcell_Version s, Stemcell_OSName s] | d s.
         d \<in> set S2 \<and> s \<in> set (Stemcells d)} \<and>
    labelValues ` set (family (vec_desc (deploymentStemcellInfoMetric c2)) out2) =
      {[Deployment_Name d, Stemcell_Name s, Stemcell_Version s, Stemcell_OSName s] | d s.
         d \<in> set S2 \<and> s \<in> set (Stemcells d)} \<and>
    ({[Deployment_Name d, Release_Name r, Release_Version r] | d r.
         d \<in> set S1 \<and> r \<in> set (Releases d)} -
     {[Deployment_Name d, Release_Name r, Release_Version r] | d r.
         d \<in> set S2 \<and> r \<in> set (Releases d)}) \<inter>
      (fst ` set (metrics (deploymentReleaseInfoMetric c2)) \<union>
       labelValues ` set (family (vec_desc (deploymentReleaseInfoMetric c2)) out2)) = {} \<and>
    ({[Deployment_Name d, Stemcell_Name s, Stemcell_Version s, Stemcell_OSName s] | d s.
         d \<in> set S1 \<and> s \<in> set (Stemcells d)} -
     {[Deployment_Name d, Stemcell_Name s, Stemcell_Version s, Stemcell_OSName s] | d s.
         d \<in> set S2 \<and> s \<in> set (Stemcells d)}) \<inter>
      (fst ` set (metrics (deploymentStemcellInfoMetric c2)) \<union>
       labelValues ` set (family (vec_desc (deploymentStemcellInfoMetric c2)) out2)) = {}"
proof -
  let ?c1 = "after_Collect c S1 now1 since1"
  let ?c2 = "after_Collect ?c1 S2 now2 since2"
  let ?R = "\<lambda>S. {[Deployment_Name d, Release_Name r, Release_Version r] | d r.
         d \<in> set S \<and> r \<in> set (Releases d)}"
  let ?T = "\<lambda>S. {[Deployment_Name d, Stemcell_Name s, Stemcell_Version s, Stemcell_OSName s] | d s.
         d \<in> set S \<and> s \<in> set (Stemcells d)}"
  have r1: "reachable namespace environment boshName boshUUID ?c1"
    by (rule Collect_reachable(2) [OF assms(1,2)])
  have 1: "Collect_metrics c S1 [] now1 since1 = Some (?c1, emitted ?c1, None)"
    using Collect_reachable(1) [OF assms(1,2), of "[]" now1 since1] by simp
  have 2: "Collect_metrics ?c1 S2 [] now2 since2 = Some (?c2, emitted ?c2, None)"
    using Collect_reachable(1) [OF r1 assms(3), of "[]" now2 since2] by simp
  have v2: "valid_collector namespace environment boshName boshUUID ?c2"
    by (rule Collect_reachable(3) [OF r1 assms(3)])
  have 3: "fst ` set (metrics (deploymentReleaseInfoMetric ?c2)) = ?R S2"
    by (simp only: after_Collect_release keys_writes keys_release_writes) simp
  have 4: "labelValues ` set (family (vec_desc (deploymentReleaseInfoMetric ?c2)) (emitted ?c2)) = ?R S2"
    by (simp only: family_emitted(1) [OF v2] keys_samples_of 3)
  have 5: "fst ` set (metrics (deploymentStemcellInfoMetric ?c2)) = ?T S2"
    by (simp only: after_Collect_stemcell keys_writes keys_stemcell_writes) simp
  have 6: "labelValues ` set (family (vec_desc (deploymentStemcellInfoMetric ?c2)) (emitted ?c2)) = ?T S2"
    by (simp only: family_emitted(2) [OF v2] keys_samples_of 5)
  have 7: "(?R S1 - ?R S2) \<inter>
      (fst ` set (metrics (deploymentReleaseInfoMetric ?c2)) \<union>
       labelValues ` set (family (vec_desc (deploymentReleaseInfoMetric ?c2)) (emitted ?c2))) = {}"
    unfolding 3 4 by blast
  have 8: "(?T S1 - ?T S2) \<inter>
      (fst ` set (metrics (deploymentStemcellInfoMetric ?c2)) \<union>
       labelValues ` set (family (vec_desc (deploymentStemcellInfoMetric ?c2)) (emitted ?c2))) = {}"
    unfolding 5 6 by blast
  show ?thesis
    by (intro exI conjI) (rule 1 2 3 4 5 6 7 8)+
qed

theorem no_stale_labels_witness:
  "reachable ''bosh'' ''prod'' ''director'' ''uuid-1''
     (NewDeploymentsCollector ''bosh'' ''prod'' ''director'' ''uuid-1'') \<and>
   labels_valid
     [\<lparr>Deployment_Name = ''dep1'',
       Releases = [\<lparr>Release_Name = ''rel-a'', Release_Version = ''1''\<rparr>],
       Stemcells = [\<lparr>Stemcell_Name = ''stem'', Stemcell_Version = ''3.4'', Stemcell_OSName = ''ubuntu''\<rparr>],
       Instances = []\<rparr>] \<and>
   labels_valid
     [\<lparr>Deployment_Name = ''dep2'',
       Releases = [\<lparr>Release_Name = ''rel-b'', Release_Version = ''2''\<rparr>],
       Stemcells = [\<lparr>Stemcell_Name = ''stem'', Stemcell_Version = ''3.5'', Stemcell_OSName = ''ubuntu''\<rparr>],
       Instances = []\<rparr>] \<and>
   (\<exists>c1 out1 c2 out2.
      Collect_metrics (NewDeploymentsCollector ''bosh'' ''prod'' ''director'' ''uuid-1'')
        [\<lparr>Deployment_Name = ''dep1'',
          Releases = [\<lparr>Release_Name = ''rel-a'', Release_Version = ''1''\<rparr>],
          Stemcells = [\<lparr>Stemcell_Name = ''stem'', Stemcell_Version = ''3.4'', Stemcell_OSName = ''ubuntu''\<rparr>],
          Instances = []\<rparr>]
        [] 10 0 = Some (c1, out1, None) \<and>
      Collect_metrics c1
        [\<lparr>Deployment_Name = ''dep2'',
          Releases = [\<lparr>Release_Name = ''rel-b'', Release_Version = ''2''\<rparr>],
          Stemcells = [\<lparr>Stemcell_Name = ''stem'', Stemcell_Version = ''3.5'', Stemcell_OSName = ''ubuntu''\<rparr>],
          Instances = []\<rparr>]
        [] 20 0 = Some (c2, out2, None) \<and>
      fst ` set (metrics (deploymentReleaseInfoMetric c2)) = {[''dep2'', ''rel-b'', ''2'']} \<and>
      labelValues ` set (family (vec_desc (deploymentReleaseInfoMetric c2)) out2) =
        {[''dep2'', ''rel-b'', ''2'']} \<and>
      fst ` set (metrics (deploymentStemcellInfoMetric c2)) = {[''dep2'', ''stem'', ''3.5'', ''ubuntu'']} \<and>
      labelValues ` set (family (vec_desc (deploymentStemcellInfoMetric c2)) out2) =
        {[''dep2'', ''stem'', ''3.5'', ''ubuntu'']})"
proof -
  let ?c = "NewDeploymentsCollector ''bosh'' ''prod'' ''director'' ''uuid-1''"
  let ?S1 = "[\<lparr>Deployment_Name = ''dep1'',
          Releases = [\<lparr>Release_Name = ''rel-a'', Release_Version = ''1''\<rparr>],
          Stemcells = [\<lparr>Stemcell_Name = ''stem'', Stemcell_Version = ''3.4'', Stemcell_OSName = ''ubuntu''\<rparr>],
          Instances = []\<rparr>]"
  let ?S2 = "[\<lparr>Deployment_Name = ''dep2'',
          Releases = [\<lparr>Release_Name = ''rel-b'', Release_Version = ''2''\<rparr>],
          Stemcells = [\<lparr>Stemcell_Name = ''stem'', Stemcell_Version = ''3.5'', Stemcell_OSName = ''ubuntu''\<rparr>],
          Instances = []\<rparr>]"
  have r: "reachable ''bosh'' ''prod'' ''director'' ''uuid-1'' ?c"
    by (rule reachable_New)
  have R: "{[Deployment_Name d, Release_Name r, Release_Version r] | d r.
         d \<in> set ?S2 \<and> r \<in> set (Releases d)} = {[''dep2'', ''rel-b'', ''2'']}"
    by simp
  have T: "{[Deployment_Name d, Stemcell_Name s, Stemcell_Version s, Stemcell_OSName s] | d s.
         d \<in> set ?S2 \<and> s \<in> set (Stemcells d)} = {[''dep2'', ''stem'', ''3.5'', ''ubuntu'']}"
    by simp
  have l1: "labels_valid ?S1"
    by (simp add: labels_defs)
  have l2: "labels_valid ?S2"
    by (simp add: labels_defs)
  from no_stale_labels [OF r l1 l2, of 10 0 20 0]
  obtain c1 out1 c2 out2 where
    1: "Collect_metrics ?c ?S1 [] 10 0 = Some (c1, out1, None)" and
    2: "Collect_metrics c1 ?S2 [] 20 0 = Some (c2, out2, None)" and
    3: "fst ` set (metrics (deploymentReleaseInfoMetric c2)) = {[''dep2'', ''rel-b'', ''2'']}" and
    4: "labelValues ` set (family (vec_desc (deploymentReleaseInfoMetric c2)) out2) =
        {[''dep2'', ''rel-b'', ''2'']}" and
    5: "fst ` set (metrics (deploymentStemcellInfoMetric c2)) = {[''dep2'', ''stem'', ''3.5'', ''ubuntu'']}" and
    6: "labelValues ` set (family (vec_desc (deploymentStemcellInfoMetric c2)) out2) =
        {[''dep2'', ''stem'', ''3.5'', ''ubuntu'']}"
    unfolding R T by (elim exE conjE) (rule that)
  show ?thesis
    by (intro conjI exI) (rule r l1 l2 1 2 3 4 5 6)+
qed

text \<open>
  C2. For every deployment of the snapshot, \<^verbatim>\<open>Collect\<close> sets
  \<^verbatim>\<open>instance_count{deployment, vm_type}\<close> to the number of instances of that deployment
  whose \<^verbatim>\<open>VMType\<close> is \<open>vm_type\<close>, for exactly the VM types that occur among its
  instances; a VM type that does not occur has no entry in the tally, never an entry
  with value zero. The deployment names of a snapshot are unique, as the data model
  says. For a VM type that does not occur, the call writes nothing: the entry of
  \<^verbatim>\<open>instance_count\<close> is what it was before the call. The label values of the snapshot
  are valid UTF-8, which is when the call completes (C6); the call is shown to complete.
\<close>

theorem instance_count_tally:
  assumes "reachable namespace environment boshName boshUUID c"
    and "distinct (map Deployment_Name deployments)"
    and "d \<in> set deployments"
    and "labels_valid deployments"
  shows "\<exists>c' out.
    Collect_metrics c deployments [] now_unix since_begun = Some (c', out, None) \<and>
    (\<forall>vm_type.
       map_of (vm_type_count_loop (Instances d) []) vm_type =
         (if vm_type \<in> Instance_VMType ` set (Instances d)
          then Some (int (length (filter (\<lambda>i. Instance_VMType i = vm_type) (Instances d))))
          else None)) \<and>
    0 \<notin> snd ` set (vm_type_count_loop (Instances d) []) \<and>
    (\<forall>vm_type.
       map_of (metrics (deploymentInstanceCountMetric c')) [Deployment_Name d, vm_type] =
         (if vm_type \<in> Instance_VMType ` set (Instances d)
          then Some (real (length (filter (\<lambda>i. Instance_VMType i = vm_type) (Instances d))))
          else map_of (metrics (deploymentInstanceCountMetric c)) [Deployment_Name d, vm_type])) \<and>
    (\<forall>vm_type \<in> Instance_VMType ` set (Instances d).
       filter (\<lambda>m. labelValues m = [Deployment_Name d, vm_type])
         (family (vec_desc (deploymentInstanceCountMetric c')) out) =
       [\<lparr>metric_desc = vec_desc (deploymentInstanceCountMetric c'),
         labelValues = [Deployment_Name d, vm_type],
         metric_value = real (length (filter (\<lambda>i. Instance_VMType i = vm_type) (Instances d)))\<rparr>])"
proof -
  let ?c' = "after_Collect c deployments now_unix since_begun"
  have 1: "Collect_metrics c deployments [] now_unix since_begun = Some (?c', emitted ?c', None)"
    using Collect_reachable(1) [OF assms(1,4), of "[]" now_unix since_begun] by simp
  have v: "valid_collector namespace environment boshName boshUUID ?c'"
    by (rule Collect_reachable(3) [OF assms(1,4)])
  have 2: "\<forall>vm_type.
       map_of (vm_type_count_loop (Instances d) []) vm_type =
         (if vm_type \<in> Instance_VMType ` set (Instances d)
          then Some (int (length (filter (\<lambda>i. Instance_VMType i = vm_type) (Instances d))))
          else None)"
    by (intro allI) (rule vm_type_count_tally)
  have 3: "0 \<notin> snd ` set (vm_type_count_loop (Instances d) [])"
  proof
    assume "0 \<in> snd ` set (vm_type_count_loop (Instances d) [])"
    then obtain vm_type where "(vm_type, 0) \<in> set (vm_type_count_loop (Instances d) [])"
      by force
    from vm_type_count_positive [OF this] show False by simp
  qed
  have 4: "\<forall>vm_type.
       map_of (metrics (deploymentInstanceCountMetric ?c')) [Deployment_Name d, vm_type] =
         (if vm_type \<in> Instance_VMType ` set (Instances d)
          then Some (real (length (filter (\<lambda>i. Instance_VMType i = vm_type) (Instances d))))
          else map_of (metrics (deploymentInstanceCountMetric c)) [Deployment_Name d, vm_type])"
    by (intro allI) (rule instance_value_after_Collect [OF assms(2,3)])
  have 5: "\<forall>vm_type \<in> Instance_VMType ` set (Instances d).
       filter (\<lambda>m. labelValues m = [Deployment_Name d, vm_type])
         (family (vec_desc (deploymentInstanceCountMetric ?c')) (emitted ?c')) =
       [\<lparr>metric_desc = vec_desc (deploymentInstanceCountMetric ?c'),
         labelValues = [Deployment_Name d, vm_type],
         metric_value = real (length (filter (\<lambda>i. Instance_VMType i = vm_type) (Instances d)))\<rparr>]"
  proof
    fix vm_type
    assume "vm_type \<in> Instance_VMType ` set (Instances d)"
    then have "map_of (metrics (deploymentInstanceCountMetric ?c')) [Deployment_Name d, vm_type] =
        Some (real (length (filter (\<lambda>i. Instance_VMType i = vm_type) (Instances d))))"
      by (simp only: instance_value_after_Collect [OF assms(2,3)] if_True)
    then show "filter (\<lambda>m. labelValues m = [Deployment_Name d, vm_type])
         (family (vec_desc (deploymentInstanceCountMetric ?c')) (emitted ?c')) =
       [\<lparr>metric_desc = vec_desc (deploymentInstanceCountMetric ?c'),
         labelValues = [Deployment_Name d, vm_type],
         metric_value = real (length (filter (\<lambda>i. Instance_VMType i = vm_type) (Instances d)))\<rparr>]"
      by (rule family_key_instance [OF v])
  qed
  show ?thesis
    by (intro exI conjI) (rule 1 2 3 4 5)+
qed

theorem instance_count_tally_witness:
  "reachable ''bosh'' ''prod'' ''director'' ''uuid-1''
     (NewDeploymentsCollector ''bosh'' ''prod'' ''director'' ''uuid-1'') \<and>
   distinct (map Deployment_Name
     [\<lparr>Deployment_Name = ''dep1'', Releases = [], Stemcells = [],
       Instances = [\<lparr>Instance_VMType = ''small''\<rparr>, \<lparr>Instance_VMType = ''small''\<rparr>,
                    \<lparr>Instance_VMType = ''large''\<rparr>]\<rparr>]) \<and>
   \<lparr>Deployment_Name = ''dep1'', Releases = [], Stemcells = [],
     Instances = [\<lparr>Instance_VMType = ''small''\<rparr>, \<lparr>Instance_VMType = ''small''\<rparr>,
                  \<lparr>Instance_VMType = ''large''\<rparr>]\<rparr> \<in>
     set [\<lparr>Deployment_Name = ''dep1'', Releases = [], Stemcells = [],
           Instances = [\<lparr>Instance_VMType = ''small''\<rparr>, \<lparr>Instance_VMType = ''small''\<rparr>,
                        \<lparr>Instance_VMType = ''large''\<rparr>]\<rparr>] \<and>
   labels_valid
     [\<lparr>Deployment_Name = ''dep1'', Releases = [], Stemcells = [],
       Instances = [\<lparr>Instance_VMType = ''small''\<rparr>, \<lparr>Instance_VMType = ''small''\<rparr>,
                    \<lparr>Instance_VMType = ''large''\<rparr>]\<rparr>] \<and>
   vm_type_count_loop
     [\<lparr>Instance_VMType = ''small''\<rparr>, \<lparr>Instance_VMType = ''small''\<rparr>,
      \<lparr>Instance_VMType = ''large''\<rparr>] [] = [(''small'', 2), (''large'', 1)] \<and>
   (\<exists>c' out.
      Collect_metrics (NewDeploymentsCollector ''bosh'' ''prod'' ''director'' ''uuid-1'')
        [\<lparr>Deployment_Name = ''dep1'', Releases = [], Stemcells = [],
          Instances = [\<lparr>Instance_VMType = ''small''\<rparr>, \<lparr>Instance_VMType = ''small''\<rparr>,
                       \<lparr>Instance_VMType = ''large''\<rparr>]\<rparr>]
        [] 10 0 = Some (c', out, None) \<and>
      map_of (metrics (deploymentInstanceCountMetric c')) [''dep1'', ''small''] = Some 2 \<and>
      map_of (metrics (deploymentInstanceCountMetric c')) [''dep1'', ''large''] = Some 1 \<and>
      map_of (metrics (deploymentInstanceCountMetric c')) [''dep1'', ''medium''] = None \<and>
      filter (\<lambda>m. labelValues m = [''dep1'', ''small''])
        (family (vec_desc (deploymentInstanceCountMetric c')) out) =
        [\<lparr>metric_desc = vec_desc (deploymentInstanceCountMetric c'),
          labelValues = [''dep1'', ''small''], metric_value = 2\<rparr>] \<and>
      filter (\<lambda>m. labelValues m = [''dep1'', ''large''])
        (family (vec_desc (deploymentInstanceCountMetric c')) out) =
        [\<lparr>metric_desc = vec_desc (deploymentInstanceCountMetric c'),
          labelValues = [''dep1'', ''large''], metric_value = 1\<rparr>] \<and>
      map (\<lambda>m. (fqName (metric_desc m), labelValues m, metric_value m)) out =
        [(''bosh_deployment_instance_count'', [''dep1'', ''small''], 2),
         (''bosh_deployment_instance_count'', [''dep1'', ''large''], 1),
         (''bosh_last_deployments_scrape_timestamp'', [], 10),
         (''bosh_last_deployments_scrape_duration_seconds'', [], 0)])"
proof -
  let ?c = "NewDeploymentsCollector ''bosh'' ''prod'' ''director'' ''uuid-1''"
  let ?D = "\<lparr>Deployment_Name = ''dep1'', Releases = [], Stemcells = [],
     Instances = [\<lparr>Instance_VMType = ''small''\<rparr>, \<lparr>Instance_VMType = ''small''\<rparr>,
                  \<lparr>Instance_VMType = ''large''\<rparr>]\<rparr>"
  have r: "reachable ''bosh'' ''prod'' ''director'' ''uuid-1'' ?c"
    by (rule reachable_New)
  have d: "distinct (map Deployment_Name [?D])"
    by simp
  have i: "?D \<in> set [?D]"
    by simp
  have t: "vm_type_count_loop
     [\<lparr>Instance_VMType = ''small''\<rparr>, \<lparr>Instance_VMType = ''small''\<rparr>,
      \<lparr>Instance_VMType = ''large''\<rparr>] [] = [(''small'', 2), (''large'', 1)]"
    by (simp add: vm_type_count_get_def)
  have l: "labels_valid [?D]"
    by (simp add: labels_defs)
  from instance_count_tally [OF r d i l, of 10 0]
  obtain c' out where
    1: "Collect_metrics ?c [?D] [] 10 0 = Some (c', out, None)" and
    2: "\<forall>vm_type.
       map_of (metrics (deploymentInstanceCountMetric c')) [Deployment_Name ?D, vm_type] =
         (if vm_type \<in> Instance_VMType ` set (Instances ?D)
          then Some (real (length (filter (\<lambda>i. Instance_VMType i = vm_type) (Instances ?D))))
          else map_of (metrics (deploymentInstanceCountMetric ?c)) [Deployment_Name ?D, vm_type])" and
    3: "\<forall>vm_type \<in> Instance_VMType ` set (Instances ?D).
       filter (\<lambda>m. labelValues m = [Deployment_Name ?D, vm_type])
         (family (vec_desc (deploymentInstanceCountMetric c')) out) =
       [\<lparr>metric_desc = vec_desc (deploymentInstanceCountMetric c'),
         labelValues = [Deployment_Name ?D, vm_type],
         metric_value = real (length (filter (\<lambda>i. Instance_VMType i = vm_type) (Instances ?D)))\<rparr>]"
    by (elim exE conjE) (rule that)
  have 4: "map_of (metrics (deploymentInstanceCountMetric c')) [''dep1'', ''small''] = Some 2"
    using 2 [rule_format, of "''small''"] by simp
  have 5: "map_of (metrics (deploymentInstanceCountMetric c')) [''dep1'', ''large''] = Some 1"
    using 2 [rule_format, of "''large''"] by simp
  have 6: "map_of (metrics (deploymentInstanceCountMetric c')) [''dep1'', ''medium''] = None"
    using 2 [rule_format, of "''medium''"]
    by (simp add: NewDeploymentsCollector_def NewGaugeVec_def)
  have 7: "filter (\<lambda>m. labelValues m = [''dep1'', ''small''])
        (family (vec_desc (deploymentInstanceCountMetric c')) out) =
        [\<lparr>metric_desc = vec_desc (deploymentInstanceCountMetric c'),
          labelValues = [''dep1'', ''small''], metric_value = 2\<rparr>]"
    using 3 by simp
  have 8: "filter (\<lambda>m. labelValues m = [''dep1'', ''large''])
        (family (vec_desc (deploymentInstanceCountMetric c')) out) =
        [\<lparr>metric_desc = vec_desc (deploymentInstanceCountMetric c'),
          labelValues = [''dep1'', ''large''], metric_value = 1\<rparr>]"
    using 3 by simp
  have "map_option (\<lambda>(c, ch, err). map (\<lambda>m. (fqName (metric_desc m), labelValues m, metric_value m)) ch)
          (Collect_metrics ?c [?D] [] 10 0) =
        Some [(''bosh_deployment_instance_count'', [''dep1'', ''small''], 2),
         (''bosh_deployment_instance_count'', [''dep1'', ''large''], 1),
         (''bosh_last_deployments_scrape_timestamp'', [], 10),
         (''bosh_last_deployments_scrape_duration_seconds'', [], 0)]"
    by (simp add: eval_defs)
  with 1 have 9: "map (\<lambda>m. (fqName (metric_desc m), labelValues m, metric_value m)) out =
        [(''bosh_deployment_instance_count'', [''dep1'', ''small''], 2),
         (''bosh_deployment_instance_count'', [''dep1'', ''large''], 1),
         (''bosh_last_deployments_scrape_timestamp'', [], 10),
         (''bosh_last_deployments_scrape_duration_seconds'', [], 0)]"
    by simp
  show ?thesis
    by (intro conjI exI) (rule r d i l t 1 4 5 6 7 8 9)+
qed

text \<open>
  C3. Calling \<^verbatim>\<open>Collect\<close> twice in succession with the same snapshot gives the same
  samples of \<^verbatim>\<open>release_info\<close>, \<^verbatim>\<open>stemcell_info\<close> and \<^verbatim>\<open>instance_count\<close> from both
  calls: the same label combinations with the same values, as bags, since the order
  inside a family is open. Only the timestamp and the duration samples may differ:
  each call sends one of each, with the clock readings of that call. The label values
  of the snapshot are valid UTF-8, which is when a call completes (C6); both calls are
  shown to complete.
\<close>

theorem Collect_twice_same_samples:
  assumes "reachable namespace environment boshName boshUUID c"
    and "labels_valid S"
  shows "\<exists>c1 out1 c2 out2.
    Collect_metrics c S [] now1 since1 = Some (c1, out1, None) \<and>
    Collect_metrics c1 S [] now2 since2 = Some (c2, out2, None) \<and>
    mset (family (vec_desc (deploymentReleaseInfoMetric c)) out1) =
      mset (family (vec_desc (deploymentReleaseInfoMetric c)) out2) \<and>
    mset (family (vec_desc (deploymentStemcellInfoMetric c)) out1) =
      mset (family (vec_desc (deploymentStemcellInfoMetric c)) out2) \<and>
    mset (family (vec_desc (deploymentInstanceCountMetric c)) out1) =
      mset (family (vec_desc (deploymentInstanceCountMetric c)) out2) \<and>
    family (gauge_desc (lastDeploymentsScrapeTimestampMetric c)) out1 =
      [\<lparr>metric_desc = gauge_desc (lastDeploymentsScrapeTimestampMetric c), labelValues = [],
        metric_value = real_of_int now1\<rparr>] \<and>
    family (gauge_desc (lastDeploymentsScrapeTimestampMetric c)) out2 =
      [\<lparr>metric_desc = gauge_desc (lastDeploymentsScrapeTimestampMetric c), labelValues = [],
        metric_value = real_of_int now2\<rparr>] \<and>
    family (gauge_desc (lastDeploymentsScrapeDurationSecondsMetric c)) out1 =
      [\<lparr>metric_desc = gauge_desc (lastDeploymentsScrapeDurationSecondsMetric c), labelValues = [],
        metric_value = since1\<rparr>] \<and>
    family (gauge_desc (lastDeploymentsScrapeDurationSecondsMetric c)) out2 =
      [\<lparr>metric_desc = gauge_desc (lastDeploymentsScrapeDurationSecondsMetric c), labelValues = [],
        metric_value = since2\<rparr>]"
proof -
  let ?c1 = "after_Collect c S now1 since1"
  let ?c2 = "after_Collect ?c1 S now2 since2"
  have r1: "reachable namespace environment boshName boshUUID ?c1"
    by (rule Collect_reachable(2) [OF assms])
  have 1: "Collect_metrics c S [] now1 since1 = Some (?c1, emitted ?c1, None)"
    using Collect_reachable(1) [OF assms, of "[]" now1 since1] by simp
  have 2: "Collect_metrics ?c1 S [] now2 since2 = Some (?c2, emitted ?c2, None)"
    using Collect_reachable(1) [OF r1 assms(2), of "[]" now2 since2] by simp
  have v1: "valid_collector namespace environment boshName boshUUID ?c1"
    by (rule Collect_reachable(3) [OF assms])
  have v2: "valid_collector namespace environment boshName boshUUID ?c2"
    by (rule Collect_reachable(3) [OF r1 assms(2)])
  have f1: "family (vec_desc (deploymentReleaseInfoMetric c)) (emitted ?c1) =
              samples_of (deploymentReleaseInfoMetric ?c1)"
           "family (vec_desc (deploymentStemcellInfoMetric c)) (emitted ?c1) =
              samples_of (deploymentStemcellInfoMetric ?c1)"
           "family (vec_desc (deploymentInstanceCountMetric c)) (emitted ?c1) =
              samples_of (deploymentInstanceCountMetric ?c1)"
    using family_emitted(1-3) [OF v1] by simp_all
  have f2: "family (vec_desc (deploymentReleaseInfoMetric c)) (emitted ?c2) =
              samples_of (deploymentReleaseInfoMetric ?c2)"
           "family (vec_desc (deploymentStemcellInfoMetric c)) (emitted ?c2) =
              samples_of (deploymentStemcellInfoMetric ?c2)"
           "family (vec_desc (deploymentInstanceCountMetric c)) (emitted ?c2) =
              samples_of (deploymentInstanceCountMetric ?c2)"
    using family_emitted(1-3) [OF v2] by simp_all
  have 3: "mset (family (vec_desc (deploymentReleaseInfoMetric c)) (emitted ?c1)) =
      mset (family (vec_desc (deploymentReleaseInfoMetric c)) (emitted ?c2))"
    unfolding f1 f2 by (simp add: samples_of_def)
  have 4: "mset (family (vec_desc (deploymentStemcellInfoMetric c)) (emitted ?c1)) =
      mset (family (vec_desc (deploymentStemcellInfoMetric c)) (emitted ?c2))"
    unfolding f1 f2 by (simp add: samples_of_def)
  have 5: "mset (family (vec_desc (deploymentInstanceCountMetric c)) (emitted ?c1)) =
      mset (family (vec_desc (deploymentInstanceCountMetric c)) (emitted ?c2))"
    unfolding f1 f2
  proof (rule mset_samples_of_eq)
    show "vec_desc (deploymentInstanceCountMetric ?c1) = vec_desc (deploymentInstanceCountMetric ?c2)"
      by simp
    show "distinct (map fst (metrics (deploymentInstanceCountMetric ?c1)))"
      using v1 by (simp add: valid_collector_def)
    show "distinct (map fst (metrics (deploymentInstanceCountMetric ?c2)))"
      using v2 by (simp add: valid_collector_def)
    show "map_of (metrics (deploymentInstanceCountMetric ?c1)) =
          map_of (metrics (deploymentInstanceCountMetric ?c2))"
      by (simp add: map_of_writes map_add_twice)
  qed
  have 6: "family (gauge_desc (lastDeploymentsScrapeTimestampMetric c)) (emitted ?c1) =
      [\<lparr>metric_desc = gauge_desc (lastDeploymentsScrapeTimestampMetric c), labelValues = [],
        metric_value = real_of_int now1\<rparr>]"
    using family_emitted(4) [OF v1] by simp
  have 7: "family (gauge_desc (lastDeploymentsScrapeTimestampMetric c)) (emitted ?c2) =
      [\<lparr>metric_desc = gauge_desc (lastDeploymentsScrapeTimestampMetric c), labelValues = [],
        metric_value = real_of_int now2\<rparr>]"
    using family_emitted(4) [OF v2] by simp
  have 8: "family (gauge_desc (lastDeploymentsScrapeDurationSecondsMetric c)) (emitted ?c1) =
      [\<lparr>metric_desc = gauge_desc (lastDeploymentsScrapeDurationSecondsMetric c), labelValues = [],
        metric_value = since1\<rparr>]"
    using family_emitted(5) [OF v1] by simp
  have 9: "family (gauge_desc (lastDeploymentsScrapeDurationSecondsMetric c)) (emitted ?c2) =
      [\<lparr>metric_desc = gauge_desc (lastDeploymentsScrapeDurationSecondsMetric c), labelValues = [],
        metric_value = since2\<rparr>]"
    using family_emitted(5) [OF v2] by simp
  show ?thesis
    by (intro exI conjI) (rule 1 2 3 4 5 6 7 8 9)+
qed

theorem Collect_twice_same_samples_witness:
  "reachable ''bosh'' ''prod'' ''director'' ''uuid-1''
     (NewDeploymentsCollector ''bosh'' ''prod'' ''director'' ''uuid-1'') \<and>
   labels_valid
     [\<lparr>Deployment_Name = ''dep1'',
       Releases = [\<lparr>Release_Name = ''rel-a'', Release_Version = ''1''\<rparr>],
       Stemcells = [\<lparr>Stemcell_Name = ''stem'', Stemcell_Version = ''3.4'', Stemcell_OSName = ''ubuntu''\<rparr>],
       Instances = [\<lparr>Instance_VMType = ''small''\<rparr>, \<lparr>Instance_VMType = ''small''\<rparr>]\<rparr>] \<and>
   (\<exists>c1 out1 c2 out2.
      Collect_metrics (NewDeploymentsCollector ''bosh'' ''prod'' ''director'' ''uuid-1'')
        [\<lparr>Deployment_Name = ''dep1'',
          Releases = [\<lparr>Release_Name = ''rel-a'', Release_Version = ''1''\<rparr>],
          Stemcells = [\<lparr>Stemcell_Name = ''stem'', Stemcell_Version = ''3.4'', Stemcell_OSName = ''ubuntu''\<rparr>],
          Instances = [\<lparr>Instance_VMType = ''small''\<rparr>, \<lparr>Instance_VMType = ''small''\<rparr>]\<rparr>]
        [] 10 (1 / 2) = Some (c1, out1, None) \<and>
      Collect_metrics c1
        [\<lparr>Deployment_Name = ''dep1'',
          Releases = [\<lparr>Release_Name = ''rel-a'', Release_Version = ''1''\<rparr>],
          Stemcells = [\<lparr>Stemcell_Name = ''stem'', Stemcell_Version = ''3.4'', Stemcell_OSName = ''ubuntu''\<rparr>],
          Instances = [\<lparr>Instance_VMType = ''small''\<rparr>, \<lparr>Instance_VMType = ''small''\<rparr>]\<rparr>]
        [] 20 (1 / 4) = Some (c2, out2, None) \<and>
      mset (family (vec_desc (deploymentReleaseInfoMetric
              (NewDeploymentsCollector ''bosh'' ''prod'' ''director'' ''uuid-1''))) out1) =
        mset (family (vec_desc (deploymentReleaseInfoMetric
              (NewDeploymentsCollector ''bosh'' ''prod'' ''director'' ''uuid-1''))) out2) \<and>
      mset (family (vec_desc (deploymentStemcellInfoMetric
              (NewDeploymentsCollector ''bosh'' ''prod'' ''director'' ''uuid-1''))) out1) =
        mset (family (vec_desc (deploymentStemcellInfoMetric
              (NewDeploymentsCollector ''bosh'' ''prod'' ''director'' ''uuid-1''))) out2) \<and>
      mset (family (vec_desc (deploymentInstanceCountMetric
              (NewDeploymentsCollector ''bosh'' ''prod'' ''director'' ''uuid-1''))) out1) =
        mset (family (vec_desc (deploymentInstanceCountMetric
              (NewDeploymentsCollector ''bosh'' ''prod'' ''director'' ''uuid-1''))) out2) \<and>
      map (\<lambda>m. (fqName (metric_desc m), labelValues m, metric_value m)) out1 =
        [(''bosh_deployment_release_info'', [''dep1'', ''rel-a'', ''1''], 1),
         (''bosh_deployment_stemcell_info'', [''dep1'', ''stem'', ''3.4'', ''ubuntu''], 1),
         (''bosh_deployment_instance_count'', [''dep1'', ''small''], 2),
         (''bosh_last_deployments_scrape_timestamp'', [], 10),
         (''bosh_last_deployments_scrape_duration_seconds'', [], 1 / 2)] \<and>
      map (\<lambda>m. (fqName (metric_desc m), labelValues m, metric_value m)) out2 =
        [(''bosh_deployment_release_info'', [''dep1'', ''rel-a'', ''1''], 1),
         (''bosh_deployment_stemcell_info'', [''dep1'', ''stem'', ''3.4'', ''ubuntu''], 1),
         (''bosh_deployment_instance_count'', [''dep1'', ''small''], 2),
         (''bosh_last_deployments_scrape_timestamp'', [], 20),
         (''bosh_last_deployments_scrape_duration_seconds'', [], 1 / 4)])"
proof -
  let ?c = "NewDeploymentsCollector ''bosh'' ''prod'' ''director'' ''uuid-1''"
  let ?S = "[\<lparr>Deployment_Name = ''dep1'',
          Releases = [\<lparr>Release_Name = ''rel-a'', Release_Version = ''1''\<rparr>],
          Stemcells = [\<lparr>Stemcell_Name = ''stem'', Stemcell_Version = ''3.4'', Stemcell_OSName = ''ubuntu''\<rparr>],
          Instances = [\<lparr>Instance_VMType = ''small''\<rparr>, \<lparr>Instance_VMType = ''small''\<rparr>]\<rparr>]"
  let ?f = "\<lambda>m. (fqName (metric_desc m), labelValues m, metric_value m)"
  have r: "reachable ''bosh'' ''prod'' ''director'' ''uuid-1'' ?c"
    by (rule reachable_New)
  have l: "labels_valid ?S"
    by (simp add: labels_defs)
  from Collect_twice_same_samples [OF r l, of 10 "1 / 2" 20 "1 / 4"]
  obtain c1 out1 c2 out2 where
    1: "Collect_metrics ?c ?S [] 10 (1 / 2) = Some (c1, out1, None)" and
    2: "Collect_metrics c1 ?S [] 20 (1 / 4) = Some (c2, out2, None)" and
    3: "mset (family (vec_desc (deploymentReleaseInfoMetric ?c)) out1) =
        mset (family (vec_desc (deploymentReleaseInfoMetric ?c)) out2)" and
    4: "mset (family (vec_desc (deploymentStemcellInfoMetric ?c)) out1) =
        mset (family (vec_desc (deploymentStemcellInfoMetric ?c)) out2)" and
    5: "mset (family (vec_desc (deploymentInstanceCountMetric ?c)) out1) =
        mset (family (vec_desc (deploymentInstanceCountMetric ?c)) out2)"
    by (elim exE conjE) (rule that)
  have "map_option (\<lambda>(c, ch, err). map ?f ch) (Collect_metrics ?c ?S [] 10 (1 / 2)) =
        Some [(''bosh_deployment_release_info'', [''dep1'', ''rel-a'', ''1''], 1),
         (''bosh_deployment_stemcell_info'', [''dep1'', ''stem'', ''3.4'', ''ubuntu''], 1),
         (''bosh_deployment_instance_count'', [''dep1'', ''small''], 2),
         (''bosh_last_deployments_scrape_timestamp'', [], 10),
         (''bosh_last_deployments_scrape_duration_seconds'', [], 1 / 2)]"
    by (simp add: eval_defs)
  with 1 have 6: "map ?f out1 =
        [(''bosh_deployment_release_info'', [''dep1'', ''rel-a'', ''1''], 1),
         (''bosh_deployment_stemcell_info'', [''dep1'', ''stem'', ''3.4'', ''ubuntu''], 1),
         (''bosh_deployment_instance_count'', [''dep1'', ''small''], 2),
         (''bosh_last_deployments_scrape_timestamp'', [], 10),
         (''bosh_last_deployments_scrape_duration_seconds'', [], 1 / 2)]"
    by simp
  have "map_option (\<lambda>(c, ch, err). map ?f ch)
          (Collect_metrics ?c ?S [] 10 (1 / 2) \<bind> (\<lambda>(c1, out1, err). Collect_metrics c1 ?S [] 20 (1 / 4))) =
        Some [(''bosh_deployment_release_info'', [''dep1'', ''rel-a'', ''1''], 1),
         (''bosh_deployment_stemcell_info'', [''dep1'', ''stem'', ''3.4'', ''ubuntu''], 1),
         (''bosh_deployment_instance_count'', [''dep1'', ''small''], 2),
         (''bosh_last_deployments_scrape_timestamp'', [], 20),
         (''bosh_last_deployments_scrape_duration_seconds'', [], 1 / 4)]"
    by (simp add: eval_defs)
  with 1 2 have 7: "map ?f out2 =
        [(''bosh_deployment_release_info'', [''dep1'', ''rel-a'', ''1''], 1),
         (''bosh_deployment_stemcell_info'', [''dep1'', ''stem'', ''3.4'', ''ubuntu''], 1),
         (''bosh_deployment_instance_count'', [''dep1'', ''small''], 2),
         (''bosh_last_deployments_scrape_timestamp'', [], 20),
         (''bosh_last_deployments_scrape_duration_seconds'', [], 1 / 4)]"
    by simp
  show ?thesis
    by (intro conjI exI) (rule r l 1 2 3 4 5 6 7)+
qed

text \<open>
  C4. For every snapshot in which the same triple (deployment, release name, release
  version) occurs more than once, within a deployment or across deployments,
  \<^verbatim>\<open>Collect\<close> sends exactly one \<^verbatim>\<open>release_info\<close> sample for that triple, with value 1:
  a later write replaces the earlier one. The same holds for the quadruples of
  \<^verbatim>\<open>stemcell_info\<close>. The theorem is for every triple and quadruple of the snapshot,
  however often it occurs. The label values of the snapshot are valid UTF-8, which is
  when the call completes (C6); the call is shown to complete.
\<close>

theorem info_sample_once:
  assumes "reachable namespace environment boshName boshUUID c"
    and "labels_valid deployments"
  shows "\<exists>c' out.
    Collect_metrics c deployments [] now_unix since_begun = Some (c', out, None) \<and>
    (\<forall>d \<in> set deployments. \<forall>r \<in> set (Releases d).
       filter (\<lambda>m. labelValues m = [Deployment_Name d, Release_Name r, Release_Version r])
         (family (vec_desc (deploymentReleaseInfoMetric c')) out) =
       [\<lparr>metric_desc = vec_desc (deploymentReleaseInfoMetric c'),
         labelValues = [Deployment_Name d, Release_Name r, Release_Version r],
         metric_value = 1\<rparr>]) \<and>
    (\<forall>d \<in> set deployments. \<forall>s \<in> set (Stemcells d).
       filter (\<lambda>m. labelValues m =
                  [Deployment_Name d, Stemcell_Name s, Stemcell_Version s, Stemcell_OSName s])
         (family (vec_desc (deploymentStemcellInfoMetric c')) out) =
       [\<lparr>metric_desc = vec_desc (deploymentStemcellInfoMetric c'),
         labelValues = [Deployment_Name d, Stemcell_Name s, Stemcell_Version s, Stemcell_OSName s],
         metric_value = 1\<rparr>])"
proof -
  let ?c' = "after_Collect c deployments now_unix since_begun"
  have 1: "Collect_metrics c deployments [] now_unix since_begun = Some (?c', emitted ?c', None)"
    using Collect_reachable(1) [OF assms, of "[]" now_unix since_begun] by simp
  have v: "valid_collector namespace environment boshName boshUUID ?c'"
    by (rule Collect_reachable(3) [OF assms])
  have 2: "\<forall>d \<in> set deployments. \<forall>r \<in> set (Releases d).
       filter (\<lambda>m. labelValues m = [Deployment_Name d, Release_Name r, Release_Version r])
         (family (vec_desc (deploymentReleaseInfoMetric ?c')) (emitted ?c')) =
       [\<lparr>metric_desc = vec_desc (deploymentReleaseInfoMetric ?c'),
         labelValues = [Deployment_Name d, Release_Name r, Release_Version r],
         metric_value = 1\<rparr>]"
    by (intro ballI) (rule family_key_release [OF v release_value_after_Collect])
  have 3: "\<forall>d \<in> set deployments. \<forall>s \<in> set (Stemcells d).
       filter (\<lambda>m. labelValues m =
                  [Deployment_Name d, Stemcell_Name s, Stemcell_Version s, Stemcell_OSName s])
         (family (vec_desc (deploymentStemcellInfoMetric ?c')) (emitted ?c')) =
       [\<lparr>metric_desc = vec_desc (deploymentStemcellInfoMetric ?c'),
         labelValues = [Deployment_Name d, Stemcell_Name s, Stemcell_Version s, Stemcell_OSName s],
         metric_value = 1\<rparr>]"
    by (intro ballI) (rule family_key_stemcell [OF v stemcell_value_after_Collect])
  show ?thesis
    by (intro exI conjI) (rule 1 2 3)+
qed

theorem info_sample_once_witness:
  "reachable ''bosh'' ''prod'' ''director'' ''uuid-1''
     (NewDeploymentsCollector ''bosh'' ''prod'' ''director'' ''uuid-1'') \<and>
   labels_valid
     [\<lparr>Deployment_Name = ''dep1'',
       Releases = [\<lparr>Release_Name = ''r1'', Release_Version = ''1.0''\<rparr>,
                   \<lparr>Release_Name = ''r1'', Release_Version = ''1.0''\<rparr>],
       Stemcells = [\<lparr>Stemcell_Name = ''stem'', Stemcell_Version = ''3.4'', Stemcell_OSName = ''ubuntu''\<rparr>,
                    \<lparr>Stemcell_Name = ''stem'', Stemcell_Version = ''3.4'', Stemcell_OSName = ''ubuntu''\<rparr>],
       Instances = []\<rparr>,
      \<lparr>Deployment_Name = ''dep1'',
       Releases = [\<lparr>Release_Name = ''r1'', Release_Version = ''1.0''\<rparr>],
       Stemcells = [],
       Instances = []\<rparr>] \<and>
   (\<exists>c' out.
      Collect_metrics (NewDeploymentsCollector ''bosh'' ''prod'' ''director'' ''uuid-1'')
        [\<lparr>Deployment_Name = ''dep1'',
          Releases = [\<lparr>Release_Name = ''r1'', Release_Version = ''1.0''\<rparr>,
                      \<lparr>Release_Name = ''r1'', Release_Version = ''1.0''\<rparr>],
          Stemcells = [\<lparr>Stemcell_Name = ''stem'', Stemcell_Version = ''3.4'', Stemcell_OSName = ''ubuntu''\<rparr>,
                       \<lparr>Stemcell_Name = ''stem'', Stemcell_Version = ''3.4'', Stemcell_OSName = ''ubuntu''\<rparr>],
          Instances = []\<rparr>,
         \<lparr>Deployment_Name = ''dep1'',
          Releases = [\<lparr>Release_Name = ''r1'', Release_Version = ''1.0''\<rparr>],
          Stemcells = [],
          Instances = []\<rparr>]
        [] 10 0 = Some (c', out, None) \<and>
      filter (\<lambda>m. labelValues m = [''dep1'', ''r1'', ''1.0''])
        (family (vec_desc (deploymentReleaseInfoMetric c')) out) =
        [\<lparr>metric_desc = vec_desc (deploymentReleaseInfoMetric c'),
          labelValues = [''dep1'', ''r1'', ''1.0''], metric_value = 1\<rparr>] \<and>
      filter (\<lambda>m. labelValues m = [''dep1'', ''stem'', ''3.4'', ''ubuntu''])
        (family (vec_desc (deploymentStemcellInfoMetric c')) out) =
        [\<lparr>metric_desc = vec_desc (deploymentStemcellInfoMetric c'),
          labelValues = [''dep1'', ''stem'', ''3.4'', ''ubuntu''], metric_value = 1\<rparr>] \<and>
      map (\<lambda>m. (fqName (metric_desc m), labelValues m, metric_value m)) out =
        [(''bosh_deployment_release_info'', [''dep1'', ''r1'', ''1.0''], 1),
         (''bosh_deployment_stemcell_info'', [''dep1'', ''stem'', ''3.4'', ''ubuntu''], 1),
         (''bosh_last_deployments_scrape_timestamp'', [], 10),
         (''bosh_last_deployments_scrape_duration_seconds'', [], 0)])"
proof -
  let ?c = "NewDeploymentsCollector ''bosh'' ''prod'' ''director'' ''uuid-1''"
  let ?S = "[\<lparr>Deployment_Name = ''dep1'',
          Releases = [\<lparr>Release_Name = ''r1'', Release_Version = ''1.0''\<rparr>,
                      \<lparr>Release_Name = ''r1'', Release_Version = ''1.0''\<rparr>],
          Stemcells = [\<lparr>Stemcell_Name = ''stem'', Stemcell_Version = ''3.4'', Stemcell_OSName = ''ubuntu''\<rparr>,
                       \<lparr>Stemcell_Name = ''stem'', Stemcell_Version = ''3.4'', Stemcell_OSName = ''ubuntu''\<rparr>],
          Instances = []\<rparr>,
         \<lparr>Deployment_Name = ''dep1'',
          Releases = [\<lparr>Release_Name = ''r1'', Release_Version = ''1.0''\<rparr>],
          Stemcells = [],
          Instances = []\<rparr>]"
  have r: "reachable ''bosh'' ''prod'' ''director'' ''uuid-1'' ?c"
    by (rule reachable_New)
  have l: "labels_valid ?S"
    by (simp add: labels_defs)
  from info_sample_once [OF r l, of 10 0]
  obtain c' out where
    1: "Collect_metrics ?c ?S [] 10 0 = Some (c', out, None)" and
    2: "\<forall>d \<in> set ?S. \<forall>r \<in> set (Releases d).
       filter (\<lambda>m. labelValues m = [Deployment_Name d, Release_Name r, Release_Version r])
         (family (vec_desc (deploymentReleaseInfoMetric c')) out) =
       [\<lparr>metric_desc = vec_desc (deploymentReleaseInfoMetric c'),
         labelValues = [Deployment_Name d, Release_Name r, Release_Version r],
         metric_value = 1\<rparr>]" and
    3: "\<forall>d \<in> set ?S. \<forall>s \<in> set (Stemcells d).
       filter (\<lambda>m. labelValues m =
                  [Deployment_Name d, Stemcell_Name s, Stemcell_Version s, Stemcell_OSName s])
         (family (vec_desc (deploymentStemcellInfoMetric c')) out) =
       [\<lparr>metric_desc = vec_desc (deploymentStemcellInfoMetric c'),
         labelValues = [Deployment_Name d, Stemcell_Name s, Stemcell_Version s, Stemcell_OSName s],
         metric_value = 1\<rparr>]"
    by (elim exE conjE) (rule that)
  have 4: "filter (\<lambda>m. labelValues m = [''dep1'', ''r1'', ''1.0''])
        (family (vec_desc (deploymentReleaseInfoMetric c')) out) =
        [\<lparr>metric_desc = vec_desc (deploymentReleaseInfoMetric c'),
          labelValues = [''dep1'', ''r1'', ''1.0''], metric_value = 1\<rparr>]"
    using 2 by simp
  have 5: "filter (\<lambda>m. labelValues m = [''dep1'', ''stem'', ''3.4'', ''ubuntu''])
        (family (vec_desc (deploymentStemcellInfoMetric c')) out) =
        [\<lparr>metric_desc = vec_desc (deploymentStemcellInfoMetric c'),
          labelValues = [''dep1'', ''stem'', ''3.4'', ''ubuntu''], metric_value = 1\<rparr>]"
    using 3 by simp
  have "map_option (\<lambda>(c, ch, err). map (\<lambda>m. (fqName (metric_desc m), labelValues m, metric_value m)) ch)
          (Collect_metrics ?c ?S [] 10 0) =
        Some [(''bosh_deployment_release_info'', [''dep1'', ''r1'', ''1.0''], 1),
         (''bosh_deployment_stemcell_info'', [''dep1'', ''stem'', ''3.4'', ''ubuntu''], 1),
         (''bosh_last_deployments_scrape_timestamp'', [], 10),
         (''bosh_last_deployments_scrape_duration_seconds'', [], 0)]"
    by (simp add: eval_defs)
  with 1 have 6: "map (\<lambda>m. (fqName (metric_desc m), labelValues m, metric_value m)) out =
        [(''bosh_deployment_release_info'', [''dep1'', ''r1'', ''1.0''], 1),
         (''bosh_deployment_stemcell_info'', [''dep1'', ''stem'', ''3.4'', ''ubuntu''], 1),
         (''bosh_last_deployments_scrape_timestamp'', [], 10),
         (''bosh_last_deployments_scrape_duration_seconds'', [], 0)]"
    by simp
  show ?thesis
    by (intro conjI exI) (rule r l 1 4 5 6)+
qed

text \<open>
  C5. \<^verbatim>\<open>Collect\<close> with an empty snapshot sends no sample of the three families of the
  deployments, in every state of the collector. The code does not do this for
  \<^verbatim>\<open>instance_count\<close>, which \<^verbatim>\<open>Collect\<close> never resets: after a call with one instance of
  VM type \<open>small\<close> in deployment \<open>dep1\<close>, a call with the empty snapshot sends the
  sample \<^verbatim>\<open>instance_count{dep1, small} = 1\<close> again, before the timestamp and the
  duration.
\<close>

theorem empty_snapshot_keeps_instance_count:
  "\<exists>c1 out1 c2 out2.
     Collect_metrics (NewDeploymentsCollector ''bosh'' ''prod'' ''director'' ''uuid-1'')
       [\<lparr>Deployment_Name = ''dep1'', Releases = [], Stemcells = [],
         Instances = [\<lparr>Instance_VMType = ''small''\<rparr>]\<rparr>]
       [] 10 0 = Some (c1, out1, None) \<and>
     Collect_metrics c1 [] [] 20 0 = Some (c2, out2, None) \<and>
     map (\<lambda>m. (fqName (metric_desc m), labelValues m, metric_value m)) out2 =
       [(''bosh_deployment_instance_count'', [''dep1'', ''small''], 1),
        (''bosh_last_deployments_scrape_timestamp'', [], 20),
        (''bosh_last_deployments_scrape_duration_seconds'', [], 0)] \<and>
     family (vec_desc (deploymentInstanceCountMetric c2)) out2 =
       [\<lparr>metric_desc = vec_desc (deploymentInstanceCountMetric c2),
         labelValues = [''dep1'', ''small''], metric_value = 1\<rparr>]"
proof -
  let ?c = "NewDeploymentsCollector ''bosh'' ''prod'' ''director'' ''uuid-1''"
  let ?S = "[\<lparr>Deployment_Name = ''dep1'', Releases = [], Stemcells = [],
         Instances = [\<lparr>Instance_VMType = ''small''\<rparr>]\<rparr>]"
  let ?f = "\<lambda>m. (fqName (metric_desc m), labelValues m, metric_value m)"
  let ?c1 = "after_Collect ?c ?S 10 0"
  let ?c2 = "after_Collect ?c1 [] 20 0"
  have r: "reachable ''bosh'' ''prod'' ''director'' ''uuid-1'' ?c"
    by (rule reachable_New)
  have l: "labels_valid ?S"
    by (simp add: labels_defs)
  have r1: "reachable ''bosh'' ''prod'' ''director'' ''uuid-1'' ?c1"
    by (rule Collect_reachable(2) [OF r l])
  have 1: "Collect_metrics ?c ?S [] 10 0 = Some (?c1, emitted ?c1, None)"
    using Collect_reachable(1) [OF r l, of "[]" 10 0] by simp
  have 2: "Collect_metrics ?c1 [] [] 20 0 = Some (?c2, emitted ?c2, None)"
    using Collect_reachable(1) [OF r1 labels_valid_Nil, of "[]" 20 0] by simp
  have "map_option (\<lambda>(c, ch, err). map ?f ch)
          (Collect_metrics ?c ?S [] 10 0 \<bind> (\<lambda>(c1, out1, err). Collect_metrics c1 [] [] 20 0)) =
        Some [(''bosh_deployment_instance_count'', [''dep1'', ''small''], 1),
        (''bosh_last_deployments_scrape_timestamp'', [], 20),
        (''bosh_last_deployments_scrape_duration_seconds'', [], 0)]"
    by (simp add: eval_defs)
  then have 3: "map ?f (emitted ?c2) =
       [(''bosh_deployment_instance_count'', [''dep1'', ''small''], 1),
        (''bosh_last_deployments_scrape_timestamp'', [], 20),
        (''bosh_last_deployments_scrape_duration_seconds'', [], 0)]"
    unfolding 1 by (simp add: 2)
  have 4: "family (vec_desc (deploymentInstanceCountMetric ?c2)) (emitted ?c2) =
       [\<lparr>metric_desc = vec_desc (deploymentInstanceCountMetric ?c2),
         labelValues = [''dep1'', ''small''], metric_value = 1\<rparr>]"
    unfolding family_emitted(3) [OF Collect_reachable(3) [OF r1 labels_valid_Nil]]
    by (simp add: samples_of_def instance_writes_def vm_type_count_get_def
        NewDeploymentsCollector_def NewGaugeVec_def)
  show ?thesis
    by (intro conjI exI) (rule 1 2 3 4)+
qed

text \<open>
  C6. For every snapshot, \<^verbatim>\<open>Collect\<close> returns success (a nil error): it has no internal
  failure path and never reports an error, whatever the snapshot holds. The code never
  returns an error, but it does not return for every snapshot: the helpers pass the names
  of the snapshot to \<^verbatim>\<open>WithLabelValues\<close> unchecked, and \<^verbatim>\<open>WithLabelValues\<close> panics on a
  label value that is not valid UTF-8. What holds, from every reachable state of the
  collector and for every channel content and clock:
  \<^item> for a snapshot whose label values are all valid UTF-8 the call returns the error
    \<open>None\<close> and leaves a reachable state (so the same holds for the next call);
  \<^item> for every other snapshot the call panics;
  \<^item> whenever the call returns, the error is \<open>None\<close>.
\<close>

theorem Collect_returns_nil_iff_labels_valid:
  assumes "reachable namespace environment boshName boshUUID c"
  shows "(labels_valid deployments \<longrightarrow>
            (\<exists>c' ch'. Collect_metrics c deployments ch now_unix since_begun = Some (c', ch', None) \<and>
               reachable namespace environment boshName boshUUID c')) \<and>
         (\<not> labels_valid deployments \<longrightarrow>
            Collect_metrics c deployments ch now_unix since_begun = None) \<and>
         (\<forall>c' ch' err.
            Collect_metrics c deployments ch now_unix since_begun = Some (c', ch', err) \<longrightarrow>
            err = None)"
proof (cases "labels_valid deployments")
  case True
  let ?c' = "after_Collect c deployments now_unix since_begun"
  have 1: "Collect_metrics c deployments ch now_unix since_begun = Some (?c', ch @ emitted ?c', None)"
    by (rule Collect_reachable(1) [OF assms True])
  have 2: "reachable namespace environment boshName boshUUID ?c'"
    by (rule Collect_reachable(2) [OF assms True])
  have 3: "\<exists>c' ch'. Collect_metrics c deployments ch now_unix since_begun = Some (c', ch', None) \<and>
               reachable namespace environment boshName boshUUID c'"
    by (intro exI conjI) (rule 1 2)+
  show ?thesis
    using True 3 by (simp add: 1)
next
  case False
  have "Collect_metrics c deployments ch now_unix since_begun = None"
    by (rule Collect_panics [OF assms False])
  then show ?thesis
    using False by simp
qed

theorem Collect_returns_nil_iff_labels_valid_witness:
  "reachable ''bosh'' ''prod'' ''director'' ''uuid-1''
     (NewDeploymentsCollector ''bosh'' ''prod'' ''director'' ''uuid-1'') \<and>
   labels_valid
     [\<lparr>Deployment_Name = ''dep1'',
       Releases = [\<lparr>Release_Name = ''rel-a'', Release_Version = ''1''\<rparr>],
       Stemcells = [\<lparr>Stemcell_Name = ''bosh-stemcell'', Stemcell_Version = ''3.4'',
                     Stemcell_OSName = ''ubuntu''\<rparr>],
       Instances = [\<lparr>Instance_VMType = ''small''\<rparr>, \<lparr>Instance_VMType = ''small''\<rparr>]\<rparr>] \<and>
   (\<exists>c' ch'.
      Collect_metrics (NewDeploymentsCollector ''bosh'' ''prod'' ''director'' ''uuid-1'')
        [\<lparr>Deployment_Name = ''dep1'',
          Releases = [\<lparr>Release_Name = ''rel-a'', Release_Version = ''1''\<rparr>],
          Stemcells = [\<lparr>Stemcell_Name = ''bosh-stemcell'', Stemcell_Version = ''3.4'',
                        Stemcell_OSName = ''ubuntu''\<rparr>],
          Instances = [\<lparr>Instance_VMType = ''small''\<rparr>, \<lparr>Instance_VMType = ''small''\<rparr>]\<rparr>]
        [] 1500000000 (1 / 4) = Some (c', ch', None) \<and>
      reachable ''bosh'' ''prod'' ''director'' ''uuid-1'' c' \<and>
      map (\<lambda>m. (fqName (metric_desc m), labelValues m, metric_value m)) ch' =
        [(''bosh_deployment_release_info'', [''dep1'', ''rel-a'', ''1''], 1),
         (''bosh_deployment_stemcell_info'', [''dep1'', ''bosh-stemcell'', ''3.4'', ''ubuntu''], 1),
         (''bosh_deployment_instance_count'', [''dep1'', ''small''], 2),
         (''bosh_last_deployments_scrape_timestamp'', [], 1500000000),
         (''bosh_last_deployments_scrape_duration_seconds'', [], 1 / 4)]) \<and>
   \<not> labels_valid
     [\<lparr>Deployment_Name = ''dep1'', Releases = [], Stemcells = [],
       Instances = [\<lparr>Instance_VMType = [CHR 0xC3]\<rparr>]\<rparr>] \<and>
   Collect_metrics (NewDeploymentsCollector ''bosh'' ''prod'' ''director'' ''uuid-1'')
     [\<lparr>Deployment_Name = ''dep1'', Releases = [], Stemcells = [],
       Instances = [\<lparr>Instance_VMType = [CHR 0xC3]\<rparr>]\<rparr>]
     [] 1500000000 (1 / 4) = None"
proof -
  let ?c = "NewDeploymentsCollector ''bosh'' ''prod'' ''director'' ''uuid-1''"
  let ?S = "[\<lparr>Deployment_Name = ''dep1'',
          Releases = [\<lparr>Release_Name = ''rel-a'', Release_Version = ''1''\<rparr>],
          Stemcells = [\<lparr>Stemcell_Name = ''bosh-stemcell'', Stemcell_Version = ''3.4'',
                        Stemcell_OSName = ''ubuntu''\<rparr>],
          Instances = [\<lparr>Instance_VMType = ''small''\<rparr>, \<lparr>Instance_VMType = ''small''\<rparr>]\<rparr>]"
  let ?B = "[\<lparr>Deployment_Name = ''dep1'', Releases = [], Stemcells = [],
       Instances = [\<lparr>Instance_VMType = [CHR 0xC3]\<rparr>]\<rparr>]"
  have r: "reachable ''bosh'' ''prod'' ''director'' ''uuid-1'' ?c"
    by (rule reachable_New)
  have l: "labels_valid ?S"
    by (simp add: labels_defs)
  have b: "\<not> labels_valid ?B"
    by (simp add: labels_defs)
  note T = Collect_returns_nil_iff_labels_valid [OF r, of ?S "[]" 1500000000 "1 / 4"]
  from T [THEN conjunct1, THEN mp, OF l] obtain c' ch' where
    1: "Collect_metrics ?c ?S [] 1500000000 (1 / 4) = Some (c', ch', None)" and
    2: "reachable ''bosh'' ''prod'' ''director'' ''uuid-1'' c'"
    by (elim exE conjE) (rule that)
  have "map_option (\<lambda>(c, ch, err). map (\<lambda>m. (fqName (metric_desc m), labelValues m, metric_value m)) ch)
          (Collect_metrics ?c ?S [] 1500000000 (1 / 4)) =
        Some [(''bosh_deployment_release_info'', [''dep1'', ''rel-a'', ''1''], 1),
         (''bosh_deployment_stemcell_info'', [''dep1'', ''bosh-stemcell'', ''3.4'', ''ubuntu''], 1),
         (''bosh_deployment_instance_count'', [''dep1'', ''small''], 2),
         (''bosh_last_deployments_scrape_timestamp'', [], 1500000000),
         (''bosh_last_deployments_scrape_duration_seconds'', [], 1 / 4)]"
    by (simp add: eval_defs)
  with 1 have 3: "map (\<lambda>m. (fqName (metric_desc m), labelValues m, metric_value m)) ch' =
        [(''bosh_deployment_release_info'', [''dep1'', ''rel-a'', ''1''], 1),
         (''bosh_deployment_stemcell_info'', [''dep1'', ''bosh-stemcell'', ''3.4'', ''ubuntu''], 1),
         (''bosh_deployment_instance_count'', [''dep1'', ''small''], 2),
         (''bosh_last_deployments_scrape_timestamp'', [], 1500000000),
         (''bosh_last_deployments_scrape_duration_seconds'', [], 1 / 4)]"
    by simp
  have 4: "\<exists>c' ch'.
      Collect_metrics ?c ?S [] 1500000000 (1 / 4) = Some (c', ch', None) \<and>
      reachable ''bosh'' ''prod'' ''director'' ''uuid-1'' c' \<and>
      map (\<lambda>m. (fqName (metric_desc m), labelValues m, metric_value m)) ch' =
        [(''bosh_deployment_release_info'', [''dep1'', ''rel-a'', ''1''], 1),
         (''bosh_deployment_stemcell_info'', [''dep1'', ''bosh-stemcell'', ''3.4'', ''ubuntu''], 1),
         (''bosh_deployment_instance_count'', [''dep1'', ''small''], 2),
         (''bosh_last_deployments_scrape_timestamp'', [], 1500000000),
         (''bosh_last_deployments_scrape_duration_seconds'', [], 1 / 4)]"
    by (intro exI conjI) (rule 1 2 3)+
  note U = Collect_returns_nil_iff_labels_valid [OF r, of ?B "[]" 1500000000 "1 / 4"]
  have 5: "Collect_metrics ?c ?B [] 1500000000 (1 / 4) = None"
    by (rule U [THEN conjunct2, THEN conjunct1, THEN mp, OF b])
  show ?thesis
    by (intro conjI) (rule r l 4 b 5)+
qed

text \<open>
  The sentence as it stands, for every snapshot, fails on a release whose name is the
  single byte \<open>0xFF\<close>, which is no UTF-8 encoding: the first call of \<^verbatim>\<open>Collect\<close> on a new
  collector panics in \<^verbatim>\<open>reportDeploymentReleaseInfoMetrics\<close> and returns nothing.
\<close>

theorem Collect_panics_on_invalid_UTF8:
  "reachable ''bosh'' ''prod'' ''director'' ''uuid-1''
     (NewDeploymentsCollector ''bosh'' ''prod'' ''director'' ''uuid-1'') \<and>
   Collect_metrics (NewDeploymentsCollector ''bosh'' ''prod'' ''director'' ''uuid-1'')
     [\<lparr>Deployment_Name = ''dep1'',
       Releases = [\<lparr>Release_Name = [CHR 0xFF], Release_Version = ''1''\<rparr>],
       Stemcells = [], Instances = []\<rparr>]
     [] 10 0 = None \<and>
   \<not> (\<exists>c' ch'.
      Collect_metrics (NewDeploymentsCollector ''bosh'' ''prod'' ''director'' ''uuid-1'')
        [\<lparr>Deployment_Name = ''dep1'',
          Releases = [\<lparr>Release_Name = [CHR 0xFF], Release_Version = ''1''\<rparr>],
          Stemcells = [], Instances = []\<rparr>]
        [] 10 0 = Some (c', ch', None))"
proof -
  let ?c = "NewDeploymentsCollector ''bosh'' ''prod'' ''director'' ''uuid-1''"
  let ?B = "[\<lparr>Deployment_Name = ''dep1'',
       Releases = [\<lparr>Release_Name = [CHR 0xFF], Release_Version = ''1''\<rparr>],
       Stemcells = [], Instances = []\<rparr>]"
  have r: "reachable ''bosh'' ''prod'' ''director'' ''uuid-1'' ?c"
    by (rule reachable_New)
  have 1: "Collect_metrics ?c ?B [] 10 0 = None"
    by (simp add: eval_defs)
  have 2: "\<not> (\<exists>c' ch'. Collect_metrics ?c ?B [] 10 0 = Some (c', ch', None))"
    by (simp add: 1)
  show ?thesis
    by (intro conjI) (rule r 1 2)+
qed

text \<open>
  C7. Every sample the collector sends, from every one of its metric families, carries
  the constant labels \<^verbatim>\<open>environment\<close>, \<^verbatim>\<open>bosh_name\<close> and \<^verbatim>\<open>bosh_uuid\<close> with the values
  given to the constructor; all five families share them, they are the same in every
  reachable state of the collector, and the namespace is only the prefix of the metric
  names. The code does this only for a configuration that \<^verbatim>\<open>NewDesc\<close> accepts: a
  namespace that is empty or a valid metric name, and an environment, a name and a UUID
  that are valid UTF-8. Otherwise \<^verbatim>\<open>NewDesc\<close> returns before it fills the constant
  labels, and every descriptor and every sample is without them. What holds, in every
  reachable state and for every snapshot on which \<^verbatim>\<open>Collect\<close> completes:
  \<^item> for a valid configuration all five descriptors, every sample \<^verbatim>\<open>Collect\<close> sends and
    every descriptor \<^verbatim>\<open>Describe\<close> sends have exactly the three constant labels (sorted by
    name, as the library keeps them) with the constructor's values and no error; apart
    from the names, the descriptors are those of any other valid namespace;
  \<^item> for any other configuration all five descriptors hold an error and no constant
    label, and so does the descriptor of every sample \<^verbatim>\<open>Collect\<close> sends;
  \<^item> the metric names are the names of the families behind the namespace.
\<close>

theorem constant_labels_iff_config_valid:
  assumes "reachable namespace environment boshName boshUUID c"
    and "labels_valid deployments"
  shows
    "(config_valid namespace environment boshName boshUUID \<longrightarrow>
        (\<forall>d \<in> set (descs c).
           constLabelPairs d =
             [(''bosh_name'', boshName), (''bosh_uuid'', boshUUID), (''environment'', environment)] \<and>
           desc_err d = None) \<and>
        (\<exists>c' out.
           Collect_metrics c deployments [] now_unix since_begun = Some (c', out, None) \<and>
           (\<forall>m \<in> set out.
              metric_desc m \<in> set (descs c) \<and>
              constLabelPairs (metric_desc m) =
                [(''bosh_name'', boshName), (''bosh_uuid'', boshUUID), (''environment'', environment)])) \<and>
        (\<forall>d \<in> set (snd (Describe c [])).
           constLabelPairs d =
             [(''bosh_name'', boshName), (''bosh_uuid'', boshUUID), (''environment'', environment)]) \<and>
        (config_valid other_namespace environment boshName boshUUID \<longrightarrow>
           map (\<lambda>d. d\<lparr>fqName := []\<rparr>) (descs c) =
             map (\<lambda>d. d\<lparr>fqName := []\<rparr>)
               (descs (NewDeploymentsCollector other_namespace environment boshName boshUUID)))) \<and>
     (\<not> config_valid namespace environment boshName boshUUID \<longrightarrow>
        (\<forall>d \<in> set (descs c). constLabelPairs d = [] \<and> desc_err d \<noteq> None) \<and>
        (\<exists>c' out.
           Collect_metrics c deployments [] now_unix since_begun = Some (c', out, None) \<and>
           (\<forall>m \<in> set out.
              metric_desc m \<in> set (descs c) \<and> constLabelPairs (metric_desc m) = []))) \<and>
     map fqName (descs c) =
       (if namespace = []
        then [''deployment_release_info'', ''deployment_stemcell_info'', ''deployment_instance_count'',
              ''last_deployments_scrape_timestamp'', ''last_deployments_scrape_duration_seconds'']
        else map (\<lambda>name. namespace @ ''_'' @ name)
             [''deployment_release_info'', ''deployment_stemcell_info'', ''deployment_instance_count'',
              ''last_deployments_scrape_timestamp'', ''last_deployments_scrape_duration_seconds''])"
proof -
  let ?c' = "after_Collect c deployments now_unix since_begun"
  let ?L = "[(''bosh_name'', boshName), (''bosh_uuid'', boshUUID), (''environment'', environment)]"
  have v: "valid_collector namespace environment boshName boshUUID c"
    by (rule reachable_valid [OF assms(1)])
  have d: "descs c = descs (NewDeploymentsCollector namespace environment boshName boshUUID)"
    using v by (simp add: valid_collector_def)
  have 2: "Collect_metrics c deployments [] now_unix since_begun = Some (?c', emitted ?c', None)"
    using Collect_reachable(1) [OF assms, of "[]" now_unix since_begun] by simp
  have e: "\<forall>m \<in> set (emitted ?c'). metric_desc m \<in> set (descs c)"
  proof
    fix m
    assume "m \<in> set (emitted ?c')"
    with emitted_descs [of ?c'] show "metric_desc m \<in> set (descs c)"
      by (simp add: descs_after_Collect)
  qed
  have A: "(\<forall>d \<in> set (descs c). constLabelPairs d = ?L \<and> desc_err d = None) \<and>
        (\<exists>c' out.
           Collect_metrics c deployments [] now_unix since_begun = Some (c', out, None) \<and>
           (\<forall>m \<in> set out.
              metric_desc m \<in> set (descs c) \<and> constLabelPairs (metric_desc m) = ?L)) \<and>
        (\<forall>d \<in> set (snd (Describe c [])). constLabelPairs d = ?L) \<and>
        (config_valid other_namespace environment boshName boshUUID \<longrightarrow>
           map (\<lambda>d. d\<lparr>fqName := []\<rparr>) (descs c) =
             map (\<lambda>d. d\<lparr>fqName := []\<rparr>)
               (descs (NewDeploymentsCollector other_namespace environment boshName boshUUID)))"
    if cv: "config_valid namespace environment boshName boshUUID"
  proof -
    have 1: "\<forall>d \<in> set (descs c). constLabelPairs d = ?L \<and> desc_err d = None"
      unfolding d by (rule constLabelPairs_descs_New [OF cv])
    have 3: "\<forall>m \<in> set (emitted ?c').
               metric_desc m \<in> set (descs c) \<and> constLabelPairs (metric_desc m) = ?L"
    proof
      fix m
      assume "m \<in> set (emitted ?c')"
      with e have "metric_desc m \<in> set (descs c)"
        by (rule bspec)
      with 1 show "metric_desc m \<in> set (descs c) \<and> constLabelPairs (metric_desc m) = ?L"
        by simp
    qed
    have 4: "\<forall>d \<in> set (snd (Describe c [])). constLabelPairs d = ?L"
      using 1 by (simp add: Describe_result)
    have 6: "config_valid other_namespace environment boshName boshUUID \<longrightarrow>
           map (\<lambda>d. d\<lparr>fqName := []\<rparr>) (descs c) =
             map (\<lambda>d. d\<lparr>fqName := []\<rparr>)
               (descs (NewDeploymentsCollector other_namespace environment boshName boshUUID))"
      unfolding d by (intro impI) (rule descs_New_namespace [OF cv])
    have 7: "\<exists>c' out.
           Collect_metrics c deployments [] now_unix since_begun = Some (c', out, None) \<and>
           (\<forall>m \<in> set out.
              metric_desc m \<in> set (descs c) \<and> constLabelPairs (metric_desc m) = ?L)"
      by (intro exI conjI) (rule 2 3)+
    show ?thesis
      by (intro conjI) (rule 1 7 4 6)+
  qed
  have B: "(\<forall>d \<in> set (descs c). constLabelPairs d = [] \<and> desc_err d \<noteq> None) \<and>
        (\<exists>c' out.
           Collect_metrics c deployments [] now_unix since_begun = Some (c', out, None) \<and>
           (\<forall>m \<in> set out.
              metric_desc m \<in> set (descs c) \<and> constLabelPairs (metric_desc m) = []))"
    if ncv: "\<not> config_valid namespace environment boshName boshUUID"
  proof -
    have 1: "\<forall>d \<in> set (descs c). constLabelPairs d = [] \<and> desc_err d \<noteq> None"
      unfolding d by (rule descs_New_invalid [OF ncv])
    have 3: "\<forall>m \<in> set (emitted ?c').
               metric_desc m \<in> set (descs c) \<and> constLabelPairs (metric_desc m) = []"
    proof
      fix m
      assume "m \<in> set (emitted ?c')"
      with e have "metric_desc m \<in> set (descs c)"
        by (rule bspec)
      with 1 show "metric_desc m \<in> set (descs c) \<and> constLabelPairs (metric_desc m) = []"
        by simp
    qed
    have 7: "\<exists>c' out.
           Collect_metrics c deployments [] now_unix since_begun = Some (c', out, None) \<and>
           (\<forall>m \<in> set out.
              metric_desc m \<in> set (descs c) \<and> constLabelPairs (metric_desc m) = [])"
      by (intro exI conjI) (rule 2 3)+
    show ?thesis
      by (intro conjI) (rule 1 7)+
  qed
  have 5: "map fqName (descs c) =
       (if namespace = []
        then [''deployment_release_info'', ''deployment_stemcell_info'', ''deployment_instance_count'',
              ''last_deployments_scrape_timestamp'', ''last_deployments_scrape_duration_seconds'']
        else map (\<lambda>name. namespace @ ''_'' @ name)
             [''deployment_release_info'', ''deployment_stemcell_info'', ''deployment_instance_count'',
              ''last_deployments_scrape_timestamp'', ''last_deployments_scrape_duration_seconds''])"
    unfolding d by (rule fqName_descs_New)
  show ?thesis
    apply (intro conjI)
      apply (rule impI, erule A)
     apply (rule impI, erule B)
    apply (rule 5)
    done
qed

theorem constant_labels_iff_config_valid_witness:
  "reachable ''bosh'' ''prod'' ''director'' ''uuid-1''
     (NewDeploymentsCollector ''bosh'' ''prod'' ''director'' ''uuid-1'') \<and>
   labels_valid
     [\<lparr>Deployment_Name = ''dep1'',
       Releases = [\<lparr>Release_Name = ''rel-a'', Release_Version = ''1''\<rparr>],
       Stemcells = [\<lparr>Stemcell_Name = ''stem'', Stemcell_Version = ''3.4'', Stemcell_OSName = ''ubuntu''\<rparr>],
       Instances = [\<lparr>Instance_VMType = ''small''\<rparr>]\<rparr>] \<and>
   config_valid ''bosh'' ''prod'' ''director'' ''uuid-1'' \<and>
   config_valid ''other'' ''prod'' ''director'' ''uuid-1'' \<and>
   (\<exists>c' out.
      Collect_metrics (NewDeploymentsCollector ''bosh'' ''prod'' ''director'' ''uuid-1'')
        [\<lparr>Deployment_Name = ''dep1'',
          Releases = [\<lparr>Release_Name = ''rel-a'', Release_Version = ''1''\<rparr>],
          Stemcells = [\<lparr>Stemcell_Name = ''stem'', Stemcell_Version = ''3.4'', Stemcell_OSName = ''ubuntu''\<rparr>],
          Instances = [\<lparr>Instance_VMType = ''small''\<rparr>]\<rparr>]
        [] 10 0 = Some (c', out, None) \<and>
      length out = 5 \<and>
      list_all (\<lambda>m. constLabelPairs (metric_desc m) =
                  [(''bosh_name'', ''director''), (''bosh_uuid'', ''uuid-1''), (''environment'', ''prod'')])
        out) \<and>
   map fqName (descs (NewDeploymentsCollector ''bosh'' ''prod'' ''director'' ''uuid-1'')) =
     [''bosh_deployment_release_info'', ''bosh_deployment_stemcell_info'',
      ''bosh_deployment_instance_count'', ''bosh_last_deployments_scrape_timestamp'',
      ''bosh_last_deployments_scrape_duration_seconds''] \<and>
   map (\<lambda>d. d\<lparr>fqName := []\<rparr>)
     (descs (NewDeploymentsCollector ''bosh'' ''prod'' ''director'' ''uuid-1'')) =
     map (\<lambda>d. d\<lparr>fqName := []\<rparr>)
       (descs (NewDeploymentsCollector ''other'' ''prod'' ''director'' ''uuid-1'')) \<and>
   reachable ''bosh'' [CHR 0xFF] ''director'' ''uuid-1''
     (NewDeploymentsCollector ''bosh'' [CHR 0xFF] ''director'' ''uuid-1'') \<and>
   \<not> config_valid ''bosh'' [CHR 0xFF] ''director'' ''uuid-1'' \<and>
   list_all (\<lambda>d. constLabelPairs d = [] \<and> desc_err d \<noteq> None)
     (descs (NewDeploymentsCollector ''bosh'' [CHR 0xFF] ''director'' ''uuid-1''))"
proof -
  let ?c = "NewDeploymentsCollector ''bosh'' ''prod'' ''director'' ''uuid-1''"
  let ?b = "NewDeploymentsCollector ''bosh'' [CHR 0xFF] ''director'' ''uuid-1''"
  let ?S = "[\<lparr>Deployment_Name = ''dep1'',
          Releases = [\<lparr>Release_Name = ''rel-a'', Release_Version = ''1''\<rparr>],
          Stemcells = [\<lparr>Stemcell_Name = ''stem'', Stemcell_Version = ''3.4'', Stemcell_OSName = ''ubuntu''\<rparr>],
          Instances = [\<lparr>Instance_VMType = ''small''\<rparr>]\<rparr>]"
  let ?L = "[(''bosh_name'', ''director''), (''bosh_uuid'', ''uuid-1''), (''environment'', ''prod'')]"
  have r: "reachable ''bosh'' ''prod'' ''director'' ''uuid-1'' ?c"
    by (rule reachable_New)
  have l: "labels_valid ?S"
    by (simp add: labels_defs)
  have cv: "config_valid ''bosh'' ''prod'' ''director'' ''uuid-1''"
    by (simp add: config_valid_def IsValidMetricName_def char_defs)
  have co: "config_valid ''other'' ''prod'' ''director'' ''uuid-1''"
    by (simp add: config_valid_def IsValidMetricName_def char_defs)
  note T = constant_labels_iff_config_valid [OF r l, of 10 0 "''other''"]
  note TA = T [THEN conjunct1, THEN mp, OF cv]
  note T1 = TA [THEN conjunct2, THEN conjunct1]
  have T2: "map (\<lambda>d. d\<lparr>fqName := []\<rparr>) (descs ?c) =
     map (\<lambda>d. d\<lparr>fqName := []\<rparr>)
       (descs (NewDeploymentsCollector ''other'' ''prod'' ''director'' ''uuid-1''))"
    by (rule TA [THEN conjunct2, THEN conjunct2, THEN conjunct2, THEN mp, OF co])
  from T1 obtain c' out where
    1: "Collect_metrics ?c ?S [] 10 0 = Some (c', out, None)" and
    2: "\<forall>m \<in> set out.
           metric_desc m \<in> set (descs ?c) \<and> constLabelPairs (metric_desc m) = ?L"
    by (elim exE conjE) (rule that)
  have 3: "list_all (\<lambda>m. constLabelPairs (metric_desc m) = ?L) out"
    using 2 by (simp add: list_all_iff)
  have "map_option (\<lambda>(c, ch, err). length ch) (Collect_metrics ?c ?S [] 10 0) = Some 5"
    by (simp add: eval_defs)
  with 1 have 4: "length out = 5"
    by simp
  from T [THEN conjunct2, THEN conjunct2] have 5: "map fqName (descs ?c) =
     [''bosh_deployment_release_info'', ''bosh_deployment_stemcell_info'',
      ''bosh_deployment_instance_count'', ''bosh_last_deployments_scrape_timestamp'',
      ''bosh_last_deployments_scrape_duration_seconds'']"
    by simp
  have 6: "\<exists>c' out.
      Collect_metrics ?c ?S [] 10 0 = Some (c', out, None) \<and>
      length out = 5 \<and>
      list_all (\<lambda>m. constLabelPairs (metric_desc m) = ?L) out"
    by (intro exI conjI) (rule 1 4 3)+
  have rb: "reachable ''bosh'' [CHR 0xFF] ''director'' ''uuid-1'' ?b"
    by (rule reachable_New)
  have nb: "\<not> config_valid ''bosh'' [CHR 0xFF] ''director'' ''uuid-1''"
    by (simp add: config_valid_def in_range_def)
  note U = constant_labels_iff_config_valid [OF rb l, of 10 0 "''other''"]
  from U [THEN conjunct2, THEN conjunct1, THEN mp, OF nb, THEN conjunct1] have 7: "list_all (\<lambda>d. constLabelPairs d = [] \<and> desc_err d \<noteq> None) (descs ?b)"
    by (simp only: list_all_iff)
  show ?thesis
    by (intro conjI) (rule r l cv co 6 5 T2 rb nb 7)+
qed

text \<open>
  The sentence as it stands, for every configuration, fails for the namespace \<open>my-ns\<close>:
  the hyphen makes every metric name invalid, \<^verbatim>\<open>NewDesc\<close> returns early, and the five
  samples of a call of \<^verbatim>\<open>Collect\<close> have no constant label.
\<close>

theorem invalid_namespace_loses_constant_labels:
  "reachable ''my-ns'' ''prod'' ''director'' ''uuid-1''
     (NewDeploymentsCollector ''my-ns'' ''prod'' ''director'' ''uuid-1'') \<and>
   (\<exists>c' out.
      Collect_metrics (NewDeploymentsCollector ''my-ns'' ''prod'' ''director'' ''uuid-1'')
        [\<lparr>Deployment_Name = ''dep1'',
          Releases = [\<lparr>Release_Name = ''rel-a'', Release_Version = ''1''\<rparr>],
          Stemcells = [\<lparr>Stemcell_Name = ''stem'', Stemcell_Version = ''3.4'', Stemcell_OSName = ''ubuntu''\<rparr>],
          Instances = [\<lparr>Instance_VMType = ''small''\<rparr>]\<rparr>]
        [] 10 0 = Some (c', out, None) \<and>
      map (\<lambda>m. (fqName (metric_desc m), constLabelPairs (metric_desc m), labelValues m,
                 metric_value m)) out =
        [(''my-ns_deployment_release_info'', [], [''dep1'', ''rel-a'', ''1''], 1),
         (''my-ns_deployment_stemcell_info'', [], [''dep1'', ''stem'', ''3.4'', ''ubuntu''], 1),
         (''my-ns_deployment_instance_count'', [], [''dep1'', ''small''], 1),
         (''my-ns_last_deployments_scrape_timestamp'', [], [], 10),
         (''my-ns_last_deployments_scrape_duration_seconds'', [], [], 0)]) \<and>
   map (\<lambda>d. (fqName d, constLabelPairs d, desc_err d))
     (snd (Describe (NewDeploymentsCollector ''my-ns'' ''prod'' ''director'' ''uuid-1'') [])) =
     [(''my-ns_deployment_release_info'', [], Some NotValidMetricName),
      (''my-ns_deployment_stemcell_info'', [], Some NotValidMetricName),
      (''my-ns_deployment_instance_count'', [], Some NotValidMetricName),
      (''my-ns_last_deployments_scrape_timestamp'', [], Some NotValidMetricName),
      (''my-ns_last_deployments_scrape_duration_seconds'', [], Some NotValidMetricName)]"
proof -
  let ?c = "NewDeploymentsCollector ''my-ns'' ''prod'' ''director'' ''uuid-1''"
  let ?S = "[\<lparr>Deployment_Name = ''dep1'',
          Releases = [\<lparr>Release_Name = ''rel-a'', Release_Version = ''1''\<rparr>],
          Stemcells = [\<lparr>Stemcell_Name = ''stem'', Stemcell_Version = ''3.4'', Stemcell_OSName = ''ubuntu''\<rparr>],
          Instances = [\<lparr>Instance_VMType = ''small''\<rparr>]\<rparr>]"
  let ?c' = "after_Collect ?c ?S 10 0"
  let ?f = "\<lambda>m. (fqName (metric_desc m), constLabelPairs (metric_desc m), labelValues m,
                 metric_value m)"
  let ?out = "[(''my-ns_deployment_release_info'', [], [''dep1'', ''rel-a'', ''1''], 1 :: real),
         (''my-ns_deployment_stemcell_info'', [], [''dep1'', ''stem'', ''3.4'', ''ubuntu''], 1),
         (''my-ns_deployment_instance_count'', [], [''dep1'', ''small''], 1),
         (''my-ns_last_deployments_scrape_timestamp'', [], [], 10),
         (''my-ns_last_deployments_scrape_duration_seconds'', [], [], 0)]"
  have r: "reachable ''my-ns'' ''prod'' ''director'' ''uuid-1'' ?c"
    by (rule reachable_New)
  have e: "map_option (\<lambda>(c, ch, err). (map ?f ch, err)) (Collect_metrics ?c ?S [] 10 0) =
        Some (?out, None)"
    by (simp add: eval_defs)
  have l: "labels_valid ?S"
    by (simp add: labels_defs)
  have 1: "Collect_metrics ?c ?S [] 10 0 = Some (?c', emitted ?c', None)"
    using Collect_reachable(1) [OF r l, of "[]" 10 0] by simp
  from e have 2: "map ?f (emitted ?c') = ?out"
    unfolding 1 by simp
  have 3: "\<exists>c' out. Collect_metrics ?c ?S [] 10 0 = Some (c', out, None) \<and> map ?f out = ?out"
    by (intro exI conjI) (rule 1 2)+
  have 4: "map (\<lambda>d. (fqName d, constLabelPairs d, desc_err d)) (snd (Describe ?c [])) =
     [(''my-ns_deployment_release_info'', [], Some NotValidMetricName),
      (''my-ns_deployment_stemcell_info'', [], Some NotValidMetricName),
      (''my-ns_deployment_instance_count'', [], Some NotValidMetricName),
      (''my-ns_last_deployments_scrape_timestamp'', [], Some NotValidMetricName),
      (''my-ns_last_deployments_scrape_duration_seconds'', [], Some NotValidMetricName)]"
    by (simp add: Describe_def GaugeVec_Describe_def Gauge_Describe_def eval_defs)
  show ?thesis
    by (intro conjI) (rule r 3 4)+
qed

text \<open>
  C8. \<^verbatim>\<open>Describe\<close> sends exactly one descriptor for each of the five metric families,
  the same whatever the snapshots were. It can be called before any \<^verbatim>\<open>Collect\<close>, a
  second call sends the same descriptors, and the collector (all five containers) is
  left as it was. \<^verbatim>\<open>Describe\<close> itself never panics. After every call of \<^verbatim>\<open>Collect\<close> that
  completes, \<^verbatim>\<open>Describe\<close> sends the descriptors it sent before; a call of \<^verbatim>\<open>Collect\<close>
  completes when the label values of its snapshot are valid UTF-8.
\<close>

theorem Describe_static:
  assumes "reachable namespace environment boshName boshUUID c"
  shows
    "Describe c ch =
       (c, ch @ [vec_desc (deploymentReleaseInfoMetric c),
                 vec_desc (deploymentStemcellInfoMetric c),
                 vec_desc (deploymentInstanceCountMetric c),
                 gauge_desc (lastDeploymentsScrapeTimestampMetric c),
                 gauge_desc (lastDeploymentsScrapeDurationSecondsMetric c)]) \<and>
     snd (Describe c []) = descs (NewDeploymentsCollector namespace environment boshName boshUUID) \<and>
     distinct (snd (Describe c [])) \<and>
     Describe (NewDeploymentsCollector namespace environment boshName boshUUID) [] =
       (NewDeploymentsCollector namespace environment boshName boshUUID,
        descs (NewDeploymentsCollector namespace environment boshName boshUUID)) \<and>
     Describe (fst (Describe c ch)) ch = Describe c ch \<and>
     (labels_valid deployments \<longrightarrow>
        (\<exists>c' out.
           Collect_metrics c deployments [] now_unix since_begun = Some (c', out, None) \<and>
           Describe c' ch = (c', snd (Describe c ch)))) \<and>
     (\<forall>c' out err.
        Collect_metrics c deployments [] now_unix since_begun = Some (c', out, err) \<longrightarrow>
        Describe c' ch = (c', snd (Describe c ch)))"
proof -
  let ?c' = "after_Collect c deployments now_unix since_begun"
  have v: "valid_collector namespace environment boshName boshUUID c"
    by (rule reachable_valid [OF assms])
  have d: "descs c = descs (NewDeploymentsCollector namespace environment boshName boshUUID)"
    using v by (simp add: valid_collector_def)
  have 1: "Describe c ch =
       (c, ch @ [vec_desc (deploymentReleaseInfoMetric c),
                 vec_desc (deploymentStemcellInfoMetric c),
                 vec_desc (deploymentInstanceCountMetric c),
                 gauge_desc (lastDeploymentsScrapeTimestampMetric c),
                 gauge_desc (lastDeploymentsScrapeDurationSecondsMetric c)])"
    by (simp add: Describe_result descs_def)
  have 2: "snd (Describe c []) = descs (NewDeploymentsCollector namespace environment boshName boshUUID)"
    by (simp add: Describe_result d)
  have 3: "distinct (snd (Describe c []))"
    unfolding 2 by (rule distinct_descs_New)
  have 4: "Describe (NewDeploymentsCollector namespace environment boshName boshUUID) [] =
       (NewDeploymentsCollector namespace environment boshName boshUUID,
        descs (NewDeploymentsCollector namespace environment boshName boshUUID))"
    by (simp add: Describe_result)
  have 5: "Describe (fst (Describe c ch)) ch = Describe c ch"
    by (simp add: Describe_result)
  have 7: "Describe ?c' ch = (?c', snd (Describe c ch))"
    by (simp add: Describe_result descs_after_Collect)
  have 8: "labels_valid deployments \<longrightarrow>
        (\<exists>c' out.
           Collect_metrics c deployments [] now_unix since_begun = Some (c', out, None) \<and>
           Describe c' ch = (c', snd (Describe c ch)))"
  proof
    assume l: "labels_valid deployments"
    have 6: "Collect_metrics c deployments [] now_unix since_begun = Some (?c', emitted ?c', None)"
      using Collect_reachable(1) [OF assms l, of "[]" now_unix since_begun] by simp
    show "\<exists>c' out.
           Collect_metrics c deployments [] now_unix since_begun = Some (c', out, None) \<and>
           Describe c' ch = (c', snd (Describe c ch))"
      by (intro exI conjI) (rule 6 7)+
  qed
  have 9: "\<forall>c' out err.
        Collect_metrics c deployments [] now_unix since_begun = Some (c', out, err) \<longrightarrow>
        Describe c' ch = (c', snd (Describe c ch))"
  proof (cases "labels_valid deployments")
    case True
    have 6: "Collect_metrics c deployments [] now_unix since_begun = Some (?c', emitted ?c', None)"
      using Collect_reachable(1) [OF assms True, of "[]" now_unix since_begun] by simp
    show ?thesis
      unfolding 6 using 7 by simp
  next
    case False
    have "Collect_metrics c deployments [] now_unix since_begun = None"
      by (rule Collect_panics [OF assms False])
    then show ?thesis
      by simp
  qed
  show ?thesis
    by (intro conjI) (rule 1 2 3 4 5 8 9)+
qed

theorem Describe_static_witness:
  "reachable ''bosh'' ''prod'' ''director'' ''uuid-1''
     (NewDeploymentsCollector ''bosh'' ''prod'' ''director'' ''uuid-1'') \<and>
   fst (Describe (NewDeploymentsCollector ''bosh'' ''prod'' ''director'' ''uuid-1'') []) =
     NewDeploymentsCollector ''bosh'' ''prod'' ''director'' ''uuid-1'' \<and>
   map (\<lambda>d. (fqName d, variableLabels d))
     (snd (Describe (NewDeploymentsCollector ''bosh'' ''prod'' ''director'' ''uuid-1'') [])) =
     [(''bosh_deployment_release_info'',
       [''bosh_deployment'', ''bosh_release_name'', ''bosh_release_version'']),
      (''bosh_deployment_stemcell_info'',
       [''bosh_deployment'', ''bosh_stemcell_name'', ''bosh_stemcell_version'',
        ''bosh_stemcell_os_name'']),
      (''bosh_deployment_instance_count'', [''bosh_deployment'', ''bosh_vm_type'']),
      (''bosh_last_deployments_scrape_timestamp'', []),
      (''bosh_last_deployments_scrape_duration_seconds'', [])] \<and>
   labels_valid
     [\<lparr>Deployment_Name = ''dep1'',
       Releases = [\<lparr>Release_Name = ''rel-a'', Release_Version = ''1''\<rparr>],
       Stemcells = [],
       Instances = [\<lparr>Instance_VMType = ''small''\<rparr>]\<rparr>] \<and>
   (\<exists>c' out.
      Collect_metrics (NewDeploymentsCollector ''bosh'' ''prod'' ''director'' ''uuid-1'')
        [\<lparr>Deployment_Name = ''dep1'',
          Releases = [\<lparr>Release_Name = ''rel-a'', Release_Version = ''1''\<rparr>],
          Stemcells = [],
          Instances = [\<lparr>Instance_VMType = ''small''\<rparr>]\<rparr>]
        [] 10 0 = Some (c', out, None) \<and>
      Describe c' [] =
        (c', snd (Describe (NewDeploymentsCollector ''bosh'' ''prod'' ''director'' ''uuid-1'') [])))"
proof -
  let ?c = "NewDeploymentsCollector ''bosh'' ''prod'' ''director'' ''uuid-1''"
  let ?S = "[\<lparr>Deployment_Name = ''dep1'',
          Releases = [\<lparr>Release_Name = ''rel-a'', Release_Version = ''1''\<rparr>],
          Stemcells = [],
          Instances = [\<lparr>Instance_VMType = ''small''\<rparr>]\<rparr>]"
  have r: "reachable ''bosh'' ''prod'' ''director'' ''uuid-1'' ?c"
    by (rule reachable_New)
  have l: "labels_valid ?S"
    by (simp add: labels_defs)
  note T = Describe_static [OF r, of "[]" ?S 10 0]
  have 1: "fst (Describe ?c []) = ?c"
    using T [THEN conjunct1] by simp
  have 2: "snd (Describe ?c []) = descs ?c"
    by (rule T [THEN conjunct2, THEN conjunct1])
  have 3: "map (\<lambda>d. (fqName d, variableLabels d)) (snd (Describe ?c [])) =
     [(''bosh_deployment_release_info'',
       [''bosh_deployment'', ''bosh_release_name'', ''bosh_release_version'']),
      (''bosh_deployment_stemcell_info'',
       [''bosh_deployment'', ''bosh_stemcell_name'', ''bosh_stemcell_version'',
        ''bosh_stemcell_os_name'']),
      (''bosh_deployment_instance_count'', [''bosh_deployment'', ''bosh_vm_type'']),
      (''bosh_last_deployments_scrape_timestamp'', []),
      (''bosh_last_deployments_scrape_duration_seconds'', [])]"
    unfolding 2 by (simp add: descs_def eval_defs)
  have 4: "\<exists>c' out.
      Collect_metrics ?c ?S [] 10 0 = Some (c', out, None) \<and>
      Describe c' [] = (c', snd (Describe ?c []))"
    by (rule T [THEN conjunct2, THEN conjunct2, THEN conjunct2, THEN conjunct2, THEN conjunct2,
        THEN conjunct1, THEN mp, OF l])
  show ?thesis
    by (intro conjI) (rule r 1 3 l 4)+
qed

text \<open>
  C9. \<^verbatim>\<open>Collect\<close> resets only \<^verbatim>\<open>release_info\<close> and \<^verbatim>\<open>stemcell_info\<close> and never clears
  \<^verbatim>\<open>instance_count\<close>: for every label combination (deployment, VM type) that an
  earlier call has written, every later call of \<^verbatim>\<open>Collect\<close> sends an
  \<^verbatim>\<open>instance_count\<close> sample for it, and the sample has the stored count as long as
  the deployment or the VM type is absent from the later snapshots. The combinations of
  a reachable state are those earlier calls have written: the constructor leaves the
  map empty. The later calls are those that complete: the label values of their
  snapshots are valid UTF-8 (C6).
\<close>

theorem instance_count_never_cleared:
  assumes "reachable namespace environment boshName boshUUID c"
    and "map_of (metrics (deploymentInstanceCountMetric c)) k = Some x"
    and "\<forall>call \<in> set calls. labels_valid (fst call)"
  shows "\<exists>c' outs.
    Collect_calls c calls = Some (c', outs) \<and> length outs = length calls \<and>
    (\<forall>out \<in> set outs. \<exists>x'.
       filter (\<lambda>m. labelValues m = k) (family (vec_desc (deploymentInstanceCountMetric c)) out) =
         [\<lparr>metric_desc = vec_desc (deploymentInstanceCountMetric c), labelValues = k,
           metric_value = x'\<rparr>] \<and>
       ((\<forall>call \<in> set calls.
           k \<notin> {[Deployment_Name d, Instance_VMType i] | d i.
                  d \<in> set (fst call) \<and> i \<in> set (Instances d)}) \<longrightarrow> x' = x))"
  using assms
proof (induction calls arbitrary: c x)
  case Nil
  show ?case by simp
next
  case (Cons call calls)
  obtain S now_unix since_begun where call: "call = (S, now_unix, since_begun)"
    by (cases call)
  let ?absent = "\<lambda>S. k \<notin> {[Deployment_Name d, Instance_VMType i] | d i.
                  d \<in> set S \<and> i \<in> set (Instances d)}"
  have lS: "labels_valid S"
    using Cons.prems(3) by (simp add: call)
  have lc: "\<forall>call \<in> set calls. labels_valid (fst call)"
    using Cons.prems(3) by simp
  from instance_count_kept [OF Cons.prems(1,2) lS, of now_unix since_begun]
  obtain c1 out1 x1 where
    1: "Collect_metrics c S [] now_unix since_begun = Some (c1, out1, None)" and
    2: "map_of (metrics (deploymentInstanceCountMetric c1)) k = Some x1" and
    3: "filter (\<lambda>m. labelValues m = k) (family (vec_desc (deploymentInstanceCountMetric c1)) out1) =
      [\<lparr>metric_desc = vec_desc (deploymentInstanceCountMetric c1), labelValues = k,
        metric_value = x1\<rparr>]" and
    4: "?absent S \<longrightarrow> x1 = x" and
    5: "reachable namespace environment boshName boshUUID c1" and
    6: "vec_desc (deploymentInstanceCountMetric c1) = vec_desc (deploymentInstanceCountMetric c)"
    by (elim exE conjE) (rule that)
  from Cons.IH [OF 5 2 lc]
  obtain c' outs where
    7: "Collect_calls c1 calls = Some (c', outs)" and
    8: "length outs = length calls" and
    9: "\<forall>out \<in> set outs. \<exists>x'.
       filter (\<lambda>m. labelValues m = k) (family (vec_desc (deploymentInstanceCountMetric c1)) out) =
         [\<lparr>metric_desc = vec_desc (deploymentInstanceCountMetric c1), labelValues = k,
           metric_value = x'\<rparr>] \<and>
       ((\<forall>call \<in> set calls. ?absent (fst call)) \<longrightarrow> x' = x1)"
    by (elim exE conjE) (rule that)
  have a: "Collect_calls c (call # calls) = Some (c', out1 # outs)"
    by (simp add: call 1 7)
  have b: "length (out1 # outs) = length (call # calls)"
    by (simp add: 8)
  have c: "\<forall>out \<in> set (out1 # outs). \<exists>x'.
       filter (\<lambda>m. labelValues m = k) (family (vec_desc (deploymentInstanceCountMetric c)) out) =
         [\<lparr>metric_desc = vec_desc (deploymentInstanceCountMetric c), labelValues = k,
           metric_value = x'\<rparr>] \<and>
       ((\<forall>call \<in> set (call # calls). ?absent (fst call)) \<longrightarrow> x' = x)"
  proof
    fix out
    assume "out \<in> set (out1 # outs)"
    then consider "out = out1" | "out \<in> set outs" by auto
    then show "\<exists>x'.
       filter (\<lambda>m. labelValues m = k) (family (vec_desc (deploymentInstanceCountMetric c)) out) =
         [\<lparr>metric_desc = vec_desc (deploymentInstanceCountMetric c), labelValues = k,
           metric_value = x'\<rparr>] \<and>
       ((\<forall>call \<in> set (call # calls). ?absent (fst call)) \<longrightarrow> x' = x)"
    proof cases
      case 1
      show ?thesis
        using 3 4 unfolding 6 by (intro exI [of _ x1]) (simp add: 1 call)
    next
      case 2
      with 9 obtain x' where
        f: "filter (\<lambda>m. labelValues m = k) (family (vec_desc (deploymentInstanceCountMetric c1)) out) =
         [\<lparr>metric_desc = vec_desc (deploymentInstanceCountMetric c1), labelValues = k,
           metric_value = x'\<rparr>]" and
        g: "(\<forall>call \<in> set calls. ?absent (fst call)) \<longrightarrow> x' = x1"
        by blast
      show ?thesis
        using f g 4 unfolding 6 by (intro exI [of _ x']) (simp add: call)
    qed
  qed
  show ?case
    by (intro exI conjI) (rule a b c)+
qed

theorem instance_count_never_cleared_witness:
  "list_all (\<lambda>call. labels_valid (fst call))
     [([\<lparr>Deployment_Name = ''dep2'', Releases = [], Stemcells = [],
         Instances = [\<lparr>Instance_VMType = ''large''\<rparr>]\<rparr>], 20 :: int, 0 :: real),
      ([], 30, 0)] \<and>
   (\<exists>c1 out1.
     Collect_metrics (NewDeploymentsCollector ''bosh'' ''prod'' ''director'' ''uuid-1'')
       [\<lparr>Deployment_Name = ''dep1'', Releases = [], Stemcells = [],
         Instances = [\<lparr>Instance_VMType = ''small''\<rparr>]\<rparr>]
       [] 10 0 = Some (c1, out1, None) \<and>
     reachable ''bosh'' ''prod'' ''director'' ''uuid-1'' c1 \<and>
     map_of (metrics (deploymentInstanceCountMetric c1)) [''dep1'', ''small''] = Some 1 \<and>
     (\<exists>c' outs.
        Collect_calls c1
          [([\<lparr>Deployment_Name = ''dep2'', Releases = [], Stemcells = [],
              Instances = [\<lparr>Instance_VMType = ''large''\<rparr>]\<rparr>], 20, 0),
           ([], 30, 0)] = Some (c', outs) \<and>
        map (map (\<lambda>m. (fqName (metric_desc m), labelValues m, metric_value m))) outs =
          [[(''bosh_deployment_instance_count'', [''dep1'', ''small''], 1),
            (''bosh_deployment_instance_count'', [''dep2'', ''large''], 1),
            (''bosh_last_deployments_scrape_timestamp'', [], 20),
            (''bosh_last_deployments_scrape_duration_seconds'', [], 0)],
           [(''bosh_deployment_instance_count'', [''dep1'', ''small''], 1),
            (''bosh_deployment_instance_count'', [''dep2'', ''large''], 1),
            (''bosh_last_deployments_scrape_timestamp'', [], 30),
            (''bosh_last_deployments_scrape_duration_seconds'', [], 0)]] \<and>
        list_all (\<lambda>out.
            filter (\<lambda>m. labelValues m = [''dep1'', ''small''])
              (family (vec_desc (deploymentInstanceCountMetric c1)) out) =
            [\<lparr>metric_desc = vec_desc (deploymentInstanceCountMetric c1),
              labelValues = [''dep1'', ''small''], metric_value = 1\<rparr>]) outs))"
proof -
  let ?c = "NewDeploymentsCollector ''bosh'' ''prod'' ''director'' ''uuid-1''"
  let ?S = "[\<lparr>Deployment_Name = ''dep1'', Releases = [], Stemcells = [],
         Instances = [\<lparr>Instance_VMType = ''small''\<rparr>]\<rparr>]"
  let ?calls = "[([\<lparr>Deployment_Name = ''dep2'', Releases = [], Stemcells = [],
              Instances = [\<lparr>Instance_VMType = ''large''\<rparr>]\<rparr>], 20 :: int, 0 :: real),
           ([], 30, 0)]"
  let ?f = "\<lambda>m. (fqName (metric_desc m), labelValues m, metric_value m)"
  let ?c1 = "after_Collect ?c ?S 10 0"
  have r: "reachable ''bosh'' ''prod'' ''director'' ''uuid-1'' ?c"
    by (rule reachable_New)
  have l: "labels_valid ?S"
    by (simp add: labels_defs)
  have lc: "\<forall>call \<in> set ?calls. labels_valid (fst call)"
    by (simp add: labels_defs)
  then have la: "list_all (\<lambda>call. labels_valid (fst call)) ?calls"
    by (simp only: list_all_iff)
  have 1: "Collect_metrics ?c ?S [] 10 0 = Some (?c1, emitted ?c1, None)"
    using Collect_reachable(1) [OF r l, of "[]" 10 0] by simp
  have 2: "reachable ''bosh'' ''prod'' ''director'' ''uuid-1'' ?c1"
    by (rule Collect_reachable(2) [OF r l])
  have 3: "map_of (metrics (deploymentInstanceCountMetric ?c1)) [''dep1'', ''small''] = Some 1"
    by (simp add: instance_writes_def vm_type_count_get_def NewDeploymentsCollector_def
        NewGaugeVec_def)
  from instance_count_never_cleared [OF 2 3 lc]
  obtain c' outs where
    4: "Collect_calls ?c1 ?calls = Some (c', outs)" and
    5: "\<forall>out \<in> set outs. \<exists>x'.
       filter (\<lambda>m. labelValues m = [''dep1'', ''small''])
         (family (vec_desc (deploymentInstanceCountMetric ?c1)) out) =
         [\<lparr>metric_desc = vec_desc (deploymentInstanceCountMetric ?c1),
           labelValues = [''dep1'', ''small''], metric_value = x'\<rparr>] \<and>
       ((\<forall>call \<in> set ?calls.
           [''dep1'', ''small''] \<notin> {[Deployment_Name d, Instance_VMType i] | d i.
                  d \<in> set (fst call) \<and> i \<in> set (Instances d)}) \<longrightarrow> x' = 1)"
    by (elim exE conjE) (rule that)
  have absent: "\<forall>call \<in> set ?calls.
           [''dep1'', ''small''] \<notin> {[Deployment_Name d, Instance_VMType i] | d i.
                  d \<in> set (fst call) \<and> i \<in> set (Instances d)}"
    by simp
  have 6: "list_all (\<lambda>out.
            filter (\<lambda>m. labelValues m = [''dep1'', ''small''])
              (family (vec_desc (deploymentInstanceCountMetric ?c1)) out) =
            [\<lparr>metric_desc = vec_desc (deploymentInstanceCountMetric ?c1),
              labelValues = [''dep1'', ''small''], metric_value = 1\<rparr>]) outs"
    unfolding list_all_iff
  proof
    fix out
    assume "out \<in> set outs"
    with 5 obtain x' where
      f: "filter (\<lambda>m. labelValues m = [''dep1'', ''small''])
         (family (vec_desc (deploymentInstanceCountMetric ?c1)) out) =
         [\<lparr>metric_desc = vec_desc (deploymentInstanceCountMetric ?c1),
           labelValues = [''dep1'', ''small''], metric_value = x'\<rparr>]" and
      g: "(\<forall>call \<in> set ?calls.
           [''dep1'', ''small''] \<notin> {[Deployment_Name d, Instance_VMType i] | d i.
                  d \<in> set (fst call) \<and> i \<in> set (Instances d)}) \<longrightarrow> x' = 1"
      by blast
    from g absent have "x' = 1" by (rule mp)
    with f show "filter (\<lambda>m. labelValues m = [''dep1'', ''small''])
              (family (vec_desc (deploymentInstanceCountMetric ?c1)) out) =
            [\<lparr>metric_desc = vec_desc (deploymentInstanceCountMetric ?c1),
              labelValues = [''dep1'', ''small''], metric_value = 1\<rparr>]"
      by simp
  qed
  have "map_option (\<lambda>(c, outs). map (map ?f) outs)
          (Collect_metrics ?c ?S [] 10 0 \<bind> (\<lambda>(c1, out1, err). Collect_calls c1 ?calls)) =
        Some [[(''bosh_deployment_instance_count'', [''dep1'', ''small''], 1),
            (''bosh_deployment_instance_count'', [''dep2'', ''large''], 1),
            (''bosh_last_deployments_scrape_timestamp'', [], 20),
            (''bosh_last_deployments_scrape_duration_seconds'', [], 0)],
           [(''bosh_deployment_instance_count'', [''dep1'', ''small''], 1),
            (''bosh_deployment_instance_count'', [''dep2'', ''large''], 1),
            (''bosh_last_deployments_scrape_timestamp'', [], 30),
            (''bosh_last_deployments_scrape_duration_seconds'', [], 0)]]"
    by (simp add: eval_defs)
  moreover have "Collect_metrics ?c ?S [] 10 0 \<bind> (\<lambda>(c1, out1, err). Collect_calls c1 ?calls) =
      Some (c', outs)"
    by (simp only: 1 Option.bind.simps prod.case 4)
  ultimately have 7: "map (map ?f) outs =
          [[(''bosh_deployment_instance_count'', [''dep1'', ''small''], 1),
            (''bosh_deployment_instance_count'', [''dep2'', ''large''], 1),
            (''bosh_last_deployments_scrape_timestamp'', [], 20),
            (''bosh_last_deployments_scrape_duration_seconds'', [], 0)],
           [(''bosh_deployment_instance_count'', [''dep1'', ''small''], 1),
            (''bosh_deployment_instance_count'', [''dep2'', ''large''], 1),
            (''bosh_last_deployments_scrape_timestamp'', [], 30),
            (''bosh_last_deployments_scrape_duration_seconds'', [], 0)]]"
    by simp
  show ?thesis
    by (intro conjI exI) (rule la 1 2 3 4 6 7)+
qed

text \<open>
  C10. Within one call of \<^verbatim>\<open>Collect\<close> no sample is sent on the channel until the whole
  loop over the deployments is done: the three helpers only write into the gauge
  containers and return the channel as they got it, and so does the loop. The samples
  then follow family by family, in the order \<^verbatim>\<open>release_info\<close>, \<^verbatim>\<open>stemcell_info\<close>,
  \<^verbatim>\<open>instance_count\<close>, timestamp, duration; the five descriptors are pairwise distinct.
  A helper, the loop and the call return when the label values they are given are valid
  UTF-8; a helper or a loop that returns at all returns the channel unchanged.
\<close>

theorem samples_sent_after_loop:
  assumes "reachable namespace environment boshName boshUUID c"
  shows
    "(deployment_labels_valid deployment \<longrightarrow>
        (\<exists>c1. reportDeploymentReleaseInfoMetrics c deployment ch = Some (c1, ch)) \<and>
        (\<exists>c1. reportDeploymentStemcellInfoMetrics c deployment ch = Some (c1, ch)) \<and>
        (\<exists>c1. reportDeploymentInstanceCountMetrics c deployment ch = Some (c1, ch))) \<and>
     (\<forall>c1 ch1. reportDeploymentReleaseInfoMetrics c deployment ch = Some (c1, ch1) \<longrightarrow> ch1 = ch) \<and>
     (\<forall>c1 ch1. reportDeploymentStemcellInfoMetrics c deployment ch = Some (c1, ch1) \<longrightarrow> ch1 = ch) \<and>
     (\<forall>c1 ch1. reportDeploymentInstanceCountMetrics c deployment ch = Some (c1, ch1) \<longrightarrow> ch1 = ch) \<and>
     (labels_valid deployments \<longrightarrow>
        (\<exists>c1. Collect_loop
                 (c\<lparr>deploymentReleaseInfoMetric := Reset (deploymentReleaseInfoMetric c),
                    deploymentStemcellInfoMetric := Reset (deploymentStemcellInfoMetric c)\<rparr>)
                 deployments ch = Some (c1, ch)) \<and>
        (\<exists>c' rs ss is t d.
           Collect_metrics c deployments ch now_unix since_begun =
             Some (c', ch @ rs @ ss @ is @ [t, d], None) \<and>
           (\<forall>m \<in> set rs. metric_desc m = vec_desc (deploymentReleaseInfoMetric c)) \<and>
           (\<forall>m \<in> set ss. metric_desc m = vec_desc (deploymentStemcellInfoMetric c)) \<and>
           (\<forall>m \<in> set is. metric_desc m = vec_desc (deploymentInstanceCountMetric c)) \<and>
           metric_desc t = gauge_desc (lastDeploymentsScrapeTimestampMetric c) \<and>
           metric_desc d = gauge_desc (lastDeploymentsScrapeDurationSecondsMetric c) \<and>
           rs = samples_of (deploymentReleaseInfoMetric c') \<and>
           ss = samples_of (deploymentStemcellInfoMetric c') \<and>
           is = samples_of (deploymentInstanceCountMetric c'))) \<and>
     (\<forall>c1 ch1. Collect_loop
                 (c\<lparr>deploymentReleaseInfoMetric := Reset (deploymentReleaseInfoMetric c),
                    deploymentStemcellInfoMetric := Reset (deploymentStemcellInfoMetric c)\<rparr>)
                 deployments ch = Some (c1, ch1) \<longrightarrow> ch1 = ch) \<and>
     distinct (descs c)"
proof -
  let ?c' = "after_Collect c deployments now_unix since_begun"
  let ?c0 = "c\<lparr>deploymentReleaseInfoMetric := Reset (deploymentReleaseInfoMetric c),
                 deploymentStemcellInfoMetric := Reset (deploymentStemcellInfoMetric c)\<rparr>"
  have v: "valid_collector namespace environment boshName boshUUID c"
    by (rule reachable_valid [OF assms])
  have a: "arities_ok c"
    by (rule valid_arities [OF v])
  have a0: "arities_ok ?c0"
    using a by (simp add: arities_ok_def Reset_def)
  have H: "(\<exists>c1. reportDeploymentReleaseInfoMetrics c deployment ch = Some (c1, ch)) \<and>
        (\<exists>c1. reportDeploymentStemcellInfoMetrics c deployment ch = Some (c1, ch)) \<and>
        (\<exists>c1. reportDeploymentInstanceCountMetrics c deployment ch = Some (c1, ch))"
    if dv: "deployment_labels_valid deployment"
  proof -
    from dv have w: "writes_valid (release_writes deployment)"
        "writes_valid (stemcell_writes deployment)" "writes_valid (instance_writes deployment)"
      by (simp_all only: deployment_labels_valid_writes)
    have 1: "\<exists>c1. reportDeploymentReleaseInfoMetrics c deployment ch = Some (c1, ch)"
      by (simp add: report_release [OF a] w)
    have 2: "\<exists>c1. reportDeploymentStemcellInfoMetrics c deployment ch = Some (c1, ch)"
      by (simp add: report_stemcell [OF a] w)
    have 3: "\<exists>c1. reportDeploymentInstanceCountMetrics c deployment ch = Some (c1, ch)"
      by (simp add: report_instance [OF a] w)
    show ?thesis
      by (intro conjI) (rule 1 2 3)+
  qed
  have 1: "\<forall>c1 ch1. reportDeploymentReleaseInfoMetrics c deployment ch = Some (c1, ch1) \<longrightarrow> ch1 = ch"
    by (simp add: report_release [OF a])
  have 2: "\<forall>c1 ch1. reportDeploymentStemcellInfoMetrics c deployment ch = Some (c1, ch1) \<longrightarrow> ch1 = ch"
    by (simp add: report_stemcell [OF a])
  have 3: "\<forall>c1 ch1. reportDeploymentInstanceCountMetrics c deployment ch = Some (c1, ch1) \<longrightarrow> ch1 = ch"
    by (simp add: report_instance [OF a])
  have 4: "\<forall>c1 ch1. Collect_loop ?c0 deployments ch = Some (c1, ch1) \<longrightarrow> ch1 = ch"
    by (simp add: Collect_loop_result [OF a0])
  have 6: "\<forall>m \<in> set (samples_of (deploymentReleaseInfoMetric ?c')).
             metric_desc m = vec_desc (deploymentReleaseInfoMetric c)"
    using samples_of_desc [of "deploymentReleaseInfoMetric ?c'"] by simp
  have 7: "\<forall>m \<in> set (samples_of (deploymentStemcellInfoMetric ?c')).
             metric_desc m = vec_desc (deploymentStemcellInfoMetric c)"
    using samples_of_desc [of "deploymentStemcellInfoMetric ?c'"] by simp
  have 8: "\<forall>m \<in> set (samples_of (deploymentInstanceCountMetric ?c')).
             metric_desc m = vec_desc (deploymentInstanceCountMetric c)"
    using samples_of_desc [of "deploymentInstanceCountMetric ?c'"] by simp
  have 9: "metric_desc \<lparr>metric_desc = gauge_desc (lastDeploymentsScrapeTimestampMetric ?c'),
                    labelValues = [],
                    metric_value = gauge_value (lastDeploymentsScrapeTimestampMetric ?c')\<rparr> =
           gauge_desc (lastDeploymentsScrapeTimestampMetric c)"
    by simp
  have 10: "metric_desc \<lparr>metric_desc = gauge_desc (lastDeploymentsScrapeDurationSecondsMetric ?c'),
                    labelValues = [],
                    metric_value = gauge_value (lastDeploymentsScrapeDurationSecondsMetric ?c')\<rparr> =
           gauge_desc (lastDeploymentsScrapeDurationSecondsMetric c)"
    by simp
  have 11: "distinct (descs c)"
    by (rule valid_distinct_descs [OF v])
  have L: "(\<exists>c1. Collect_loop ?c0 deployments ch = Some (c1, ch)) \<and>
        (\<exists>c' rs ss is t d.
           Collect_metrics c deployments ch now_unix since_begun =
             Some (c', ch @ rs @ ss @ is @ [t, d], None) \<and>
           (\<forall>m \<in> set rs. metric_desc m = vec_desc (deploymentReleaseInfoMetric c)) \<and>
           (\<forall>m \<in> set ss. metric_desc m = vec_desc (deploymentStemcellInfoMetric c)) \<and>
           (\<forall>m \<in> set is. metric_desc m = vec_desc (deploymentInstanceCountMetric c)) \<and>
           metric_desc t = gauge_desc (lastDeploymentsScrapeTimestampMetric c) \<and>
           metric_desc d = gauge_desc (lastDeploymentsScrapeDurationSecondsMetric c) \<and>
           rs = samples_of (deploymentReleaseInfoMetric c') \<and>
           ss = samples_of (deploymentStemcellInfoMetric c') \<and>
           is = samples_of (deploymentInstanceCountMetric c'))"
    if lv: "labels_valid deployments"
  proof -
    have l1: "\<exists>c1. Collect_loop ?c0 deployments ch = Some (c1, ch)"
      by (simp add: Collect_loop_result [OF a0] lv)
    have 5: "Collect_metrics c deployments ch now_unix since_begun =
          Some (?c', ch @ samples_of (deploymentReleaseInfoMetric ?c') @
                  samples_of (deploymentStemcellInfoMetric ?c') @
                  samples_of (deploymentInstanceCountMetric ?c') @
                  [\<lparr>metric_desc = gauge_desc (lastDeploymentsScrapeTimestampMetric ?c'),
                    labelValues = [],
                    metric_value = gauge_value (lastDeploymentsScrapeTimestampMetric ?c')\<rparr>,
                   \<lparr>metric_desc = gauge_desc (lastDeploymentsScrapeDurationSecondsMetric ?c'),
                    labelValues = [],
                    metric_value = gauge_value (lastDeploymentsScrapeDurationSecondsMetric ?c')\<rparr>],
                None)"
      using Collect_reachable(1) [OF assms lv, of ch now_unix since_begun]
      by (simp only: emitted_def)
    from 5 6 7 8 9 10
    have l2: "\<exists>c' rs ss is t d.
        Collect_metrics c deployments ch now_unix since_begun =
          Some (c', ch @ rs @ ss @ is @ [t, d], None) \<and>
        (\<forall>m \<in> set rs. metric_desc m = vec_desc (deploymentReleaseInfoMetric c)) \<and>
        (\<forall>m \<in> set ss. metric_desc m = vec_desc (deploymentStemcellInfoMetric c)) \<and>
        (\<forall>m \<in> set is. metric_desc m = vec_desc (deploymentInstanceCountMetric c)) \<and>
        metric_desc t = gauge_desc (lastDeploymentsScrapeTimestampMetric c) \<and>
        metric_desc d = gauge_desc (lastDeploymentsScrapeDurationSecondsMetric c) \<and>
        rs = samples_of (deploymentReleaseInfoMetric c') \<and>
        ss = samples_of (deploymentStemcellInfoMetric c') \<and>
        is = samples_of (deploymentInstanceCountMetric c')"
      by (intro exI conjI) (assumption | rule refl)+
    show ?thesis
      by (intro conjI) (rule l1 l2)+
  qed
  show ?thesis
    apply (intro conjI)
          apply (rule impI, erule H)
         apply (rule 1)
        apply (rule 2)
       apply (rule 3)
      apply (rule impI, erule L)
     apply (rule 4)
    apply (rule 11)
    done
qed

theorem samples_sent_after_loop_witness:
  "reachable ''bosh'' ''prod'' ''director'' ''uuid-1''
     (NewDeploymentsCollector ''bosh'' ''prod'' ''director'' ''uuid-1'') \<and>
   deployment_labels_valid
     \<lparr>Deployment_Name = ''dep1'',
      Releases = [\<lparr>Release_Name = ''rel-a'', Release_Version = ''1''\<rparr>],
      Stemcells = [\<lparr>Stemcell_Name = ''stem'', Stemcell_Version = ''3.4'', Stemcell_OSName = ''ubuntu''\<rparr>],
      Instances = [\<lparr>Instance_VMType = ''small''\<rparr>]\<rparr> \<and>
   labels_valid
     [\<lparr>Deployment_Name = ''dep1'',
       Releases = [\<lparr>Release_Name = ''rel-a'', Release_Version = ''1''\<rparr>],
       Stemcells = [\<lparr>Stemcell_Name = ''stem'', Stemcell_Version = ''3.4'', Stemcell_OSName = ''ubuntu''\<rparr>],
       Instances = [\<lparr>Instance_VMType = ''small''\<rparr>]\<rparr>] \<and>
   (\<exists>c1. reportDeploymentReleaseInfoMetrics
           (NewDeploymentsCollector ''bosh'' ''prod'' ''director'' ''uuid-1'')
           \<lparr>Deployment_Name = ''dep1'',
            Releases = [\<lparr>Release_Name = ''rel-a'', Release_Version = ''1''\<rparr>],
            Stemcells = [\<lparr>Stemcell_Name = ''stem'', Stemcell_Version = ''3.4'', Stemcell_OSName = ''ubuntu''\<rparr>],
            Instances = [\<lparr>Instance_VMType = ''small''\<rparr>]\<rparr> [] = Some (c1, [])) \<and>
   (\<exists>c1. reportDeploymentStemcellInfoMetrics
           (NewDeploymentsCollector ''bosh'' ''prod'' ''director'' ''uuid-1'')
           \<lparr>Deployment_Name = ''dep1'',
            Releases = [\<lparr>Release_Name = ''rel-a'', Release_Version = ''1''\<rparr>],
            Stemcells = [\<lparr>Stemcell_Name = ''stem'', Stemcell_Version = ''3.4'', Stemcell_OSName = ''ubuntu''\<rparr>],
            Instances = [\<lparr>Instance_VMType = ''small''\<rparr>]\<rparr> [] = Some (c1, [])) \<and>
   (\<exists>c1. reportDeploymentInstanceCountMetrics
           (NewDeploymentsCollector ''bosh'' ''prod'' ''director'' ''uuid-1'')
           \<lparr>Deployment_Name = ''dep1'',
            Releases = [\<lparr>Release_Name = ''rel-a'', Release_Version = ''1''\<rparr>],
            Stemcells = [\<lparr>Stemcell_Name = ''stem'', Stemcell_Version = ''3.4'', Stemcell_OSName = ''ubuntu''\<rparr>],
            Instances = [\<lparr>Instance_VMType = ''small''\<rparr>]\<rparr> [] = Some (c1, [])) \<and>
   (\<exists>c' out.
      Collect_metrics (NewDeploymentsCollector ''bosh'' ''prod'' ''director'' ''uuid-1'')
        [\<lparr>Deployment_Name = ''dep1'',
          Releases = [\<lparr>Release_Name = ''rel-a'', Release_Version = ''1''\<rparr>],
          Stemcells = [\<lparr>Stemcell_Name = ''stem'', Stemcell_Version = ''3.4'', Stemcell_OSName = ''ubuntu''\<rparr>],
          Instances = [\<lparr>Instance_VMType = ''small''\<rparr>]\<rparr>]
        [] 10 0 = Some (c', out, None) \<and>
      map (\<lambda>m. fqName (metric_desc m)) out =
        [''bosh_deployment_release_info'', ''bosh_deployment_stemcell_info'',
         ''bosh_deployment_instance_count'', ''bosh_last_deployments_scrape_timestamp'',
         ''bosh_last_deployments_scrape_duration_seconds''])"
proof -
  let ?c = "NewDeploymentsCollector ''bosh'' ''prod'' ''director'' ''uuid-1''"
  let ?D = "\<lparr>Deployment_Name = ''dep1'',
            Releases = [\<lparr>Release_Name = ''rel-a'', Release_Version = ''1''\<rparr>],
            Stemcells = [\<lparr>Stemcell_Name = ''stem'', Stemcell_Version = ''3.4'', Stemcell_OSName = ''ubuntu''\<rparr>],
            Instances = [\<lparr>Instance_VMType = ''small''\<rparr>]\<rparr>"
  have r: "reachable ''bosh'' ''prod'' ''director'' ''uuid-1'' ?c"
    by (rule reachable_New)
  have dv: "deployment_labels_valid ?D"
    by (simp add: labels_defs)
  have lv: "labels_valid [?D]"
    by (simp add: labels_defs)
  note T = samples_sent_after_loop [OF r, of ?D "[]" "[?D]" 10 0]
  note TH = T [THEN conjunct1, THEN mp, OF dv]
  note TL = T [THEN conjunct2, THEN conjunct2, THEN conjunct2, THEN conjunct2, THEN conjunct1,
      THEN mp, OF lv, THEN conjunct2]
  have 1: "\<exists>c1. reportDeploymentReleaseInfoMetrics ?c ?D [] = Some (c1, [])"
    by (rule TH [THEN conjunct1])
  have 2: "\<exists>c1. reportDeploymentStemcellInfoMetrics ?c ?D [] = Some (c1, [])"
    by (rule TH [THEN conjunct2, THEN conjunct1])
  have 3: "\<exists>c1. reportDeploymentInstanceCountMetrics ?c ?D [] = Some (c1, [])"
    by (rule TH [THEN conjunct2, THEN conjunct2])
  from TL obtain c' rs ss "is" t d where
    4: "Collect_metrics ?c [?D] [] 10 0 = Some (c', [] @ rs @ ss @ is @ [t, d], None)"
    by (elim exE conjE) (rule that)
  have "map_option (\<lambda>(c, ch, err). map (\<lambda>m. fqName (metric_desc m)) ch)
          (Collect_metrics ?c [?D] [] 10 0) =
        Some [''bosh_deployment_release_info'', ''bosh_deployment_stemcell_info'',
         ''bosh_deployment_instance_count'', ''bosh_last_deployments_scrape_timestamp'',
         ''bosh_last_deployments_scrape_duration_seconds'']"
    by (simp add: eval_defs)
  then have 5: "map (\<lambda>m. fqName (metric_desc m)) ([] @ rs @ ss @ is @ [t, d]) =
        [''bosh_deployment_release_info'', ''bosh_deployment_stemcell_info'',
         ''bosh_deployment_instance_count'', ''bosh_last_deployments_scrape_timestamp'',
         ''bosh_last_deployments_scrape_duration_seconds'']"
    unfolding 4 by simp
  have 6: "\<exists>c' out.
      Collect_metrics ?c [?D] [] 10 0 = Some (c', out, None) \<and>
      map (\<lambda>m. fqName (metric_desc m)) out =
        [''bosh_deployment_release_info'', ''bosh_deployment_stemcell_info'',
         ''bosh_deployment_instance_count'', ''bosh_last_deployments_scrape_timestamp'',
         ''bosh_last_deployments_scrape_duration_seconds'']"
    by (intro conjI exI) (rule 4 5)+
  show ?thesis
    by (intro conjI) (rule r dv lv 1 2 3 6)+
qed

end
